(* ===== verification/Runtime.thy ===== *)
theory Runtime
  imports Prelude
begin

text \<open>
  The part of the Go language and standard library every component runs on: error values with
  \<^verbatim>\<open>fmt.Errorf("%w")\<close> wrapping and \<^verbatim>\<open>errors.Is\<close>, the three ways a call can end (a value, an
  error, a run-time panic), slicing and indexing with their bounds checks, \<^verbatim>\<open>io.ReadFull\<close> and
  \<^verbatim>\<open>Write\<close>. The sentinel errors are those of \<^verbatim>\<open>src/errors.go\<close>, \<^verbatim>\<open>src/stream.go\<close>,
  \<^verbatim>\<open>src/timelock.go\<close> and \<^verbatim>\<open>src/ed25519.go\<close>, and the two of package \<^verbatim>\<open>io\<close> that the code compares
  with.
\<close>

subsection \<open>Errors\<close>

text \<open>
  \<open>Msg fmt\<close> is an error made by \<^verbatim>\<open>errors.New\<close> or by \<^verbatim>\<open>fmt.Errorf\<close> without \<^verbatim>\<open>%w\<close>, \<open>Wrap fmt e\<close> one
  whose \<^verbatim>\<open>%w\<close> operand is \<open>e\<close>. \<open>fmt\<close> is the format string of the source; the values formatted into
  the message (lengths, version bytes, nested messages under \<^verbatim>\<open>%v\<close>) are not kept, since no code
  reads them back.
\<close>

datatype error =
    ErrInvalidKey
  | ErrCiphertextTooShort
  | ErrCiphertextNotBlockAligned
  | ErrInvalidPadding
  | ErrUnsupportedVersion
  | ErrTampered
  | ErrInvalidCiphertext
  | ErrUnknownFormat
  | ErrInvalidPasswordHash
  | ErrTruncated
  | ErrExpired
  | ErrInvalidSignature
  | EOF
  | ErrUnexpectedEOF
  | Msg string
  | Wrap string error

fun errors_Is :: "error \<Rightarrow> error \<Rightarrow> bool" where
  "errors_Is (Wrap f e) target = (Wrap f e = target \<or> errors_Is e target)"
| "errors_Is e target = (e = target)"

subsection \<open>Results\<close>

text \<open>
  A call with signature \<^verbatim>\<open>(T, error)\<close> ends in \<open>Ok v\<close> (nil error), \<open>Err e\<close> (non-nil error, zero
  value), or \<open>Panic\<close>.
\<close>

datatype 'a res = Ok 'a | Err error | Panic

fun and_then :: "'a res \<Rightarrow> ('a \<Rightarrow> 'b res) \<Rightarrow> 'b res" where
  "and_then (Ok a) f = f a"
| "and_then (Err e) f = Err e"
| "and_then Panic f = Panic"

text \<open>
  \<open>or_err g m\<close> is the statement \<^verbatim>\<open>if err != nil { return ..., g(err) }\<close> after the call \<open>m\<close>.
\<close>

fun or_err :: "(error \<Rightarrow> error) \<Rightarrow> 'a res \<Rightarrow> 'a res" where
  "or_err g (Ok a) = Ok a"
| "or_err g (Err e) = Err (g e)"
| "or_err g Panic = Panic"

text \<open>
  \<open>then_do\<close> is \<open>and_then\<close> for calls that also change a state (the random source, a key store).
\<close>

fun then_do :: "'a res \<times> 's \<Rightarrow> ('a \<Rightarrow> 's \<Rightarrow> 'b res \<times> 's) \<Rightarrow> 'b res \<times> 's" where
  "then_do (Ok a, s) f = f a s"
| "then_do (Err e, s) f = (Err e, s)"
| "then_do (Panic, s) f = (Panic, s)"

fun is_ok :: "'a res \<Rightarrow> bool" where
  "is_ok (Ok a) = True"
| "is_ok (Err e) = False"
| "is_ok Panic = False"

fun err_is :: "'a res \<Rightarrow> error \<Rightarrow> bool" where
  "err_is (Err e) target = errors_Is e target"
| "err_is (Ok a) target = False"
| "err_is Panic target = False"

definition of_option :: "error \<Rightarrow> 'a option \<Rightarrow> 'a res" where
  "of_option e x = (case x of None \<Rightarrow> Err e | Some a \<Rightarrow> Ok a)"

subsection \<open>Indexing and slicing\<close>

text \<open>
  \<^verbatim>\<open>s[i]\<close>, \<^verbatim>\<open>s[lo:hi]\<close> and \<^verbatim>\<open>s[lo:]\<close>. Go compares \<open>hi\<close> with the capacity of \<open>s\<close>; the model
  compares it with the length, which panics at least as often.
\<close>

definition go_index :: "'a list \<Rightarrow> nat \<Rightarrow> 'a res" where
  "go_index s i = (if i < length s then Ok (s ! i) else Panic)"

definition go_slice :: "'a list \<Rightarrow> nat \<Rightarrow> nat \<Rightarrow> 'a list res" where
  "go_slice s lo hi = (if lo \<le> hi \<and> hi \<le> length s then Ok (take (hi - lo) (drop lo s)) else Panic)"

definition go_slice_from :: "'a list \<Rightarrow> nat \<Rightarrow> 'a list res" where
  "go_slice_from s lo = go_slice s lo (length s)"

subsection \<open>Readers and writers\<close>

text \<open>
  An \<^verbatim>\<open>io.Reader\<close> delivers \<open>rd_data\<close> (how it cuts the data does not matter, see \<open>Fragments\<close>) and then fails with \<open>rd_end\<close>:
  \<open>EOF\<close> for a file, some other error for a failing source. \<^verbatim>\<open>io.ReadFull(r, buf)\<close> fills a buffer of
  \<open>n\<close> bytes; it returns the bytes it read, its error and the reader afterwards.
\<close>

record reader =
  rd_data :: bytes
  rd_end :: error

definition ReadFull :: "nat \<Rightarrow> reader \<Rightarrow> (bytes \<times> error option) \<times> reader" where
  "ReadFull n r =
     (if n \<le> length (rd_data r)
      then ((take n (rd_data r), None), r\<lparr>rd_data := drop n (rd_data r)\<rparr>)
      else ((rd_data r,
             Some (if rd_end r = EOF \<and> rd_data r \<noteq> [] then ErrUnexpectedEOF else rd_end r)),
            r\<lparr>rd_data := []\<rparr>))"

text \<open>
  An \<^verbatim>\<open>io.Writer\<close> collects \<open>wr_out\<close>; with \<open>wr_left = Some k\<close> it accepts \<open>k\<close> more writes and then
  fails with \<open>wr_err\<close>, with \<open>None\<close> it never fails.
\<close>

record writer =
  wr_out :: bytes
  wr_left :: "nat option"
  wr_err :: error

definition Write :: "bytes \<Rightarrow> writer \<Rightarrow> error option \<times> writer" where
  "Write p w =
     (case wr_left w of
        None \<Rightarrow> (None, w\<lparr>wr_out := wr_out w @ p\<rparr>)
      | Some 0 \<Rightarrow> (Some (wr_err w), w)
      | Some (Suc k) \<Rightarrow> (None, w\<lparr>wr_out := wr_out w @ p, wr_left := Some k\<rparr>))"

text \<open>
  \<open>read_rand g n\<close> is the idiom \<^verbatim>\<open>io.ReadFull(randReader, buf)\<close> with \<open>g\<close> applied to the error. The
  package variable \<^verbatim>\<open>randReader\<close> (\<^verbatim>\<open>src/random.go\<close>) is a reader passed through every operation
  that draws from it.
\<close>

definition read_rand :: "(error \<Rightarrow> error) \<Rightarrow> nat \<Rightarrow> reader \<Rightarrow> bytes res \<times> reader" where
  "read_rand g n r =
     (case ReadFull n r of
        ((bs, None), r') \<Rightarrow> (Ok bs, r')
      | ((bs, Some e), r') \<Rightarrow> (Err (g e), r'))"

subsection \<open>Laws\<close>

lemma and_then_eq_Ok [go_simps]: "and_then m f = Ok b \<longleftrightarrow> (\<exists>a. m = Ok a \<and> f a = Ok b)"
  by (cases m) auto

lemma and_then_eq_Err [go_simps]:
  "and_then m f = Err e \<longleftrightarrow> m = Err e \<or> (\<exists>a. m = Ok a \<and> f a = Err e)"
  by (cases m) auto

lemma and_then_eq_Panic [go_simps]:
  "and_then m f = Panic \<longleftrightarrow> m = Panic \<or> (\<exists>a. m = Ok a \<and> f a = Panic)"
  by (cases m) auto

lemma then_do_eq_Ok [go_simps]:
  "then_do m f = (Ok b, s') \<longleftrightarrow> (\<exists>a s. m = (Ok a, s) \<and> f a s = (Ok b, s'))"
  by (cases "(m, f)" rule: then_do.cases) auto

lemma then_do_no_panic:
  "fst m \<noteq> Panic \<Longrightarrow> (\<And>a s. m = (Ok a, s) \<Longrightarrow> fst (f a s) \<noteq> Panic) \<Longrightarrow> fst (then_do m f) \<noteq> Panic"
  by (cases "(m, f)" rule: then_do.cases) auto

lemma or_err_eq_Ok [go_simps]: "or_err g m = Ok a \<longleftrightarrow> m = Ok a"
  by (cases m) auto

lemma or_err_eq_Err [go_simps]: "or_err g m = Err e \<longleftrightarrow> (\<exists>e'. m = Err e' \<and> e = g e')"
  by (cases m) auto

lemma or_err_eq_Panic [go_simps]: "or_err g m = Panic \<longleftrightarrow> m = Panic"
  by (cases m) auto

lemma of_option_simps [simp]: "of_option e None = Err e" "of_option e (Some a) = Ok a"
  by (simp_all add: of_option_def)

lemma of_option_eq [go_simps]:
  "of_option e x = Ok a \<longleftrightarrow> x = Some a"
  "of_option e x = Err e' \<longleftrightarrow> x = None \<and> e' = e"
  "of_option e x \<noteq> Panic"
  by (auto simp: of_option_def split: option.splits)

lemma is_ok_iff: "is_ok m \<longleftrightarrow> (\<exists>a. m = Ok a)"
  by (cases m) auto

lemma errors_Is_refl [simp]: "errors_Is e e"
  by (cases e) auto

lemma go_index_in [go_simps]: "i < length s \<Longrightarrow> go_index s i = Ok (s ! i)"
  by (simp add: go_index_def)

lemma go_slice_in [go_simps]:
  "lo \<le> hi \<Longrightarrow> hi \<le> length s \<Longrightarrow> go_slice s lo hi = Ok (take (hi - lo) (drop lo s))"
  by (simp add: go_slice_def)

lemma go_slice_from_in [go_simps]: "lo \<le> length s \<Longrightarrow> go_slice_from s lo = Ok (drop lo s)"
  by (simp add: go_slice_from_def go_slice_def)

lemma go_slice_backwards [go_simps]: "hi < lo \<Longrightarrow> go_slice s lo hi = Panic"
  by (simp add: go_slice_def)

lemma ReadFull_enough:
  "n \<le> length (rd_data r) \<Longrightarrow>
     ReadFull n r = ((take n (rd_data r), None), r\<lparr>rd_data := drop n (rd_data r)\<rparr>)"
  by (simp add: ReadFull_def)

lemma ReadFull_short:
  "length (rd_data r) < n \<Longrightarrow>
     ReadFull n r = ((rd_data r,
       Some (if rd_end r = EOF \<and> rd_data r \<noteq> [] then ErrUnexpectedEOF else rd_end r)),
       r\<lparr>rd_data := []\<rparr>)"
  by (simp add: ReadFull_def)

lemma ReadFull_length:
  "ReadFull n r = ((bs, None), r') \<Longrightarrow> length bs = n \<and> rd_data r = bs @ rd_data r'"
  by (auto simp: ReadFull_def split: if_splits)

lemma read_rand_enough:
  "n \<le> length (rd_data r) \<Longrightarrow>
     read_rand g n r = (Ok (take n (rd_data r)), r\<lparr>rd_data := drop n (rd_data r)\<rparr>)"
  by (simp add: read_rand_def ReadFull_enough)

lemma read_rand_Ok_length: "read_rand g n r = (Ok bs, r') \<Longrightarrow> length bs = n"
  by (auto simp: read_rand_def ReadFull_def split: if_splits)

lemma read_rand_Ok:
  "read_rand g n r = (Ok bs, r') \<longleftrightarrow>
     n \<le> length (rd_data r) \<and> bs = take n (rd_data r) \<and> r' = r\<lparr>rd_data := drop n (rd_data r)\<rparr>"
  by (auto simp: read_rand_def ReadFull_def split: if_splits)

lemma read_rand_no_panic [simp]: "fst (read_rand g n r) \<noteq> Panic"
  by (auto simp: read_rand_def ReadFull_def split: if_splits)

lemma Write_unlimited [simp]:
  "wr_left w = None \<Longrightarrow> Write p w = (None, w\<lparr>wr_out := wr_out w @ p\<rparr>)"
  by (simp add: Write_def)

end
