(* ===== verification/Encoding.thy ===== *)
theory Encoding
  imports Runtime
begin

text \<open>
  The text encodings of the Go standard library that the wire formats use: \<^verbatim>\<open>encoding/hex\<close> and
  the unpadded \<^verbatim>\<open>encoding/base64\<close> codecs \<^verbatim>\<open>RawURLEncoding\<close> and \<^verbatim>\<open>RawStdEncoding\<close>. The base64 decoder
  is as lenient as Go's: it skips carriage returns and line feeds anywhere, and ignores the spare
  low bits of a final partial group. Decoding yields \<open>None\<close> where Go returns an error.

  The locale \<open>text_codec\<close> is the contract the components rely on (decoding inverts encoding); it is
  interpreted here on the three codecs.
\<close>

subsection \<open>Base64\<close>

definition url_alphabet :: gostring where
  "url_alphabet = lit ''ABCDEFGHIJKLMNOPQRSTUVWXYZabcdefghijklmnopqrstuvwxyz0123456789-_''"

definition std_alphabet :: gostring where
  "std_alphabet = lit ''ABCDEFGHIJKLMNOPQRSTUVWXYZabcdefghijklmnopqrstuvwxyz0123456789+/''"

text \<open>Three bytes are four 6-bit values; one or two left-over bytes are two or three of them.\<close>

fun b64_split :: "bytes \<Rightarrow> byte list" where
  "b64_split [] = []"
| "b64_split [a] = [drop_bit 2 a, push_bit 4 (take_bit 2 a)]"
| "b64_split [a, b] = [drop_bit 2 a, push_bit 4 (take_bit 2 a) OR drop_bit 4 b, push_bit 2 (take_bit 4 b)]"
| "b64_split (a # b # c # bs) =
     drop_bit 2 a # (push_bit 4 (take_bit 2 a) OR drop_bit 4 b) #
     (push_bit 2 (take_bit 4 b) OR drop_bit 6 c) # (take_bit 6 c) # b64_split bs"

fun b64_join :: "byte list \<Rightarrow> bytes option" where
  "b64_join [] = Some []"
| "b64_join [s] = None"
| "b64_join [s, t] = Some [push_bit 2 s OR drop_bit 4 t]"
| "b64_join [s, t, u] = Some [push_bit 2 s OR drop_bit 4 t, push_bit 4 t OR drop_bit 2 u]"
| "b64_join (s # t # u # v # ss) =
     map_option (\<lambda>bs. (push_bit 2 s OR drop_bit 4 t) # (push_bit 4 t OR drop_bit 2 u) #
                      (push_bit 6 u OR v) # bs) (b64_join ss)"

text \<open>The decode map: the position of a character in the alphabet.\<close>

fun b64_index :: "gostring \<Rightarrow> byte \<Rightarrow> byte \<Rightarrow> byte option" where
  "b64_index [] c n = None"
| "b64_index (a # al) c n = (if a = c then Some n else b64_index al c (n + 1))"

definition b64_encode :: "gostring \<Rightarrow> bytes \<Rightarrow> gostring" where
  "b64_encode al bs = map (\<lambda>s. al ! unat s) (b64_split bs)"

definition b64_skip :: "gostring \<Rightarrow> gostring" where
  "b64_skip s = filter (\<lambda>c. c \<noteq> 10 \<and> c \<noteq> 13) s"

definition b64_decode :: "gostring \<Rightarrow> gostring \<Rightarrow> bytes option" where
  "b64_decode al s =
     Option.bind (those (map (\<lambda>c. b64_index al c 0) (b64_skip s))) b64_join"

definition RawURLEncoding_EncodeToString :: "bytes \<Rightarrow> gostring" where
  "RawURLEncoding_EncodeToString = b64_encode url_alphabet"

definition RawURLEncoding_DecodeString :: "gostring \<Rightarrow> bytes option" where
  "RawURLEncoding_DecodeString = b64_decode url_alphabet"

definition RawStdEncoding_EncodeToString :: "bytes \<Rightarrow> gostring" where
  "RawStdEncoding_EncodeToString = b64_encode std_alphabet"

definition RawStdEncoding_DecodeString :: "gostring \<Rightarrow> bytes option" where
  "RawStdEncoding_DecodeString = b64_decode std_alphabet"

subsection \<open>Hexadecimal\<close>

definition hextable :: gostring where
  "hextable = lit ''0123456789abcdef''"

fun hex_EncodeToString :: "bytes \<Rightarrow> gostring" where
  "hex_EncodeToString [] = []"
| "hex_EncodeToString (b # bs) =
     hextable ! unat (drop_bit 4 b) # hextable ! unat (take_bit 4 b) # hex_EncodeToString bs"

definition fromHexChar :: "byte \<Rightarrow> byte option" where
  "fromHexChar c =
     (if 48 \<le> c \<and> c \<le> 57 then Some (c - 48)
      else if 97 \<le> c \<and> c \<le> 102 then Some (c - 97 + 10)
      else if 65 \<le> c \<and> c \<le> 70 then Some (c - 65 + 10)
      else None)"

fun hex_DecodeString :: "gostring \<Rightarrow> bytes option" where
  "hex_DecodeString [] = Some []"
| "hex_DecodeString [c] = None"
| "hex_DecodeString (c # d # s) =
     (case fromHexChar c of None \<Rightarrow> None
      | Some hi \<Rightarrow> (case fromHexChar d of None \<Rightarrow> None
        | Some lo \<Rightarrow> map_option ((#) (push_bit 4 hi OR lo)) (hex_DecodeString s)))"

subsection \<open>The contract of a text codec\<close>

locale text_codec =
  fixes enc :: "bytes \<Rightarrow> gostring"
    and dec :: "gostring \<Rightarrow> bytes option"
  assumes dec_enc [simp]: "dec (enc bs) = Some bs"
begin

lemma enc_inject [simp]: "enc bs = enc bs' \<longleftrightarrow> bs = bs'"
  by (metis dec_enc option.inject)

lemma of_option_dec_enc [simp]: "of_option e (dec (enc bs)) = Ok bs"
  by simp

end

subsection \<open>Six-bit values\<close>

lemma unat_sextet:
  assumes "\<And>n. 6 \<le> n \<Longrightarrow> \<not> bit (s :: byte) n"
  shows "unat s < 64"
proof -
  have "take_bit 6 s = s"
  proof (rule bit_word_eqI)
    fix n assume "n < LENGTH(8)"
    show "bit (take_bit 6 s) n = bit s n"
      using assms [of n] by (cases "n < 6") (auto simp: bit_take_bit_iff)
  qed
  then have "unat s = take_bit 6 (unat s)" by (metis unsigned_take_bit_eq)
  then show ?thesis using take_bit_nat_less_exp [of 6 "unat s"] by simp
qed

lemma unat_nibble:
  assumes "\<And>n. 4 \<le> n \<Longrightarrow> \<not> bit (s :: byte) n"
  shows "unat s < 16"
proof -
  have "take_bit 4 s = s"
  proof (rule bit_word_eqI)
    fix n assume "n < LENGTH(8)"
    show "bit (take_bit 4 s) n = bit s n"
      using assms [of n] by (cases "n < 4") (auto simp: bit_take_bit_iff)
  qed
  then have "unat s = take_bit 4 (unat s)" by (metis unsigned_take_bit_eq)
  then show ?thesis using take_bit_nat_less_exp [of 4 "unat s"] by simp
qed

lemma byte_eqI:
  assumes "bit a 0 = bit b 0" "bit a 1 = bit b 1" "bit a 2 = bit b 2" "bit a 3 = bit b 3"
    "bit a 4 = bit b 4" "bit a 5 = bit b 5" "bit a 6 = bit b 6" "bit a 7 = bit b 7"
  shows "a = (b :: byte)"
proof (rule bit_word_eqI)
  fix n assume "n < LENGTH(8)"
  then have "n = 0 \<or> n = 1 \<or> n = 2 \<or> n = 3 \<or> n = 4 \<or> n = 5 \<or> n = 6 \<or> n = 7" by auto
  with assms show "bit a n = bit b n" by auto
qed

lemma b64_split_sextets: "s \<in> set (b64_split bs) \<Longrightarrow> unat s < 64"
proof -
  have "unat (drop_bit 2 a) < 64" "unat (push_bit 4 (take_bit 2 a)) < 64"
    "unat (push_bit 4 (take_bit 2 a) OR drop_bit 4 b) < 64" "unat (push_bit 2 (take_bit 4 b)) < 64"
    "unat (push_bit 2 (take_bit 4 b) OR drop_bit 6 c) < 64" "unat (take_bit 6 c) < 64"
    for a b c :: byte
    by (rule unat_sextet; simp add: bit_simps)+
  then show "s \<in> set (b64_split bs) \<Longrightarrow> unat s < 64"
    by (induction bs rule: b64_split.induct) auto
qed

lemma b64_join_split: "b64_join (b64_split bs) = Some bs"
proof -
  have 1: "push_bit 2 (drop_bit 2 a) OR drop_bit 4 (push_bit 4 (take_bit 2 a) OR drop_bit 4 b) = (a :: byte)"
    for a b by (rule byte_eqI) (simp_all add: bit_simps)
  have 2: "push_bit 4 (push_bit 4 (take_bit 2 a) OR drop_bit 4 b) OR
       drop_bit 2 (push_bit 2 (take_bit 4 b) OR drop_bit 6 c) = (b :: byte)"
    for a b c by (rule byte_eqI) (simp_all add: bit_simps)
  have 3: "push_bit 6 (push_bit 2 (take_bit 4 b) OR drop_bit 6 c) OR take_bit 6 c = (c :: byte)"
    for b c by (rule byte_eqI) (simp_all add: bit_simps)
  have 4: "push_bit 2 (drop_bit 2 a) OR drop_bit 4 (push_bit 4 (take_bit 2 a)) = (a :: byte)"
    for a by (rule byte_eqI) (simp_all add: bit_simps)
  have 5: "push_bit 4 (push_bit 4 (take_bit 2 a) OR drop_bit 4 b) OR drop_bit 2 (push_bit 2 (take_bit 4 b))
       = (b :: byte)" for a b by (rule byte_eqI) (simp_all add: bit_simps)
  show ?thesis
    by (induction bs rule: b64_split.induct) (simp_all only: b64_split.simps b64_join.simps
        option.map 1 2 3 4 5)
qed

subsection \<open>Decoding inverts encoding\<close>

lemma b64_index_nth:
  "distinct al \<Longrightarrow> n < length al \<Longrightarrow> b64_index al (al ! n) k = Some (k + word_of_nat n)"
proof (induction al arbitrary: n k)
  case (Cons a al)
  then show ?case by (cases n) (auto simp: nth_eq_iff_index_eq algebra_simps)
qed simp

lemma those_map_inverse: "(\<And>x. x \<in> set xs \<Longrightarrow> f (g x) = Some x) \<Longrightarrow> those (map f (map g xs)) = Some xs"
  by (induction xs) auto

lemma b64_decode_encode:
  assumes "distinct al" and "length al = 64" and "10 \<notin> set al" and "13 \<notin> set al"
  shows "b64_decode al (b64_encode al bs) = Some bs"
proof -
  have mem: "al ! unat s \<in> set al" if "s \<in> set (b64_split bs)" for s
    using b64_split_sextets [OF that] assms(2) by simp
  have skip: "b64_skip (b64_encode al bs) = b64_encode al bs"
    using mem assms(3,4) by (auto simp: b64_skip_def b64_encode_def filter_id_conv simp del: nth_mem
        dest: mem)
  have "b64_index al (al ! unat s) 0 = Some s" if "s \<in> set (b64_split bs)" for s
    using b64_index_nth [OF assms(1), of "unat s" 0] b64_split_sextets [OF that] assms(2) by simp
  then have "those (map (\<lambda>c. b64_index al c 0) (b64_encode al bs)) = Some (b64_split bs)"
    unfolding b64_encode_def by (rule those_map_inverse)
  then show ?thesis by (simp add: b64_decode_def skip b64_join_split)
qed

lemma alphabet_wf:
  "distinct url_alphabet" "length url_alphabet = 64" "10 \<notin> set url_alphabet" "13 \<notin> set url_alphabet"
  "distinct std_alphabet" "length std_alphabet = 64" "10 \<notin> set std_alphabet" "13 \<notin> set std_alphabet"
  by (simp_all add: url_alphabet_def std_alphabet_def lit_def)

interpretation b64url: text_codec RawURLEncoding_EncodeToString RawURLEncoding_DecodeString
  by unfold_locales
    (simp add: RawURLEncoding_EncodeToString_def RawURLEncoding_DecodeString_def
      b64_decode_encode alphabet_wf)

interpretation b64std: text_codec RawStdEncoding_EncodeToString RawStdEncoding_DecodeString
  by unfold_locales
    (simp add: RawStdEncoding_EncodeToString_def RawStdEncoding_DecodeString_def
      b64_decode_encode alphabet_wf)

lemma fromHexChar_hextable: "n < 16 \<Longrightarrow> fromHexChar (hextable ! n) = Some (word_of_nat n)"
proof -
  assume "n < 16"
  then have "n \<in> set [0..<16]" by simp
  moreover have "list_all (\<lambda>n. fromHexChar (hextable ! n) = Some (word_of_nat n)) [0..<16]"
    by (simp add: upt_rec hextable_def lit_def fromHexChar_def)
  ultimately show ?thesis by (simp only: list_all_iff)
qed

lemma hex_decode_encode: "hex_DecodeString (hex_EncodeToString bs) = Some bs"
proof (induction bs)
  case (Cons b bs)
  have lo: "unat (take_bit 4 b) < 16" and hi: "unat (drop_bit 4 b) < 16"
    by (rule unat_nibble; simp add: bit_simps)+
  have "push_bit 4 (drop_bit 4 b) OR (take_bit 4 b) = b"
    by (rule byte_eqI) (simp_all add: bit_simps)
  with Cons show ?case by (simp add: fromHexChar_hextable lo hi)
qed simp

interpretation hex: text_codec hex_EncodeToString hex_DecodeString
  by unfold_locales (rule hex_decode_encode)

subsection \<open>Lengths\<close>

lemma length_b64_encode: "length (b64_encode al bs) = (length bs * 4 + 2) div 3"
  unfolding b64_encode_def by (induction bs rule: b64_split.induct) auto

lemma length_hex_encode [simp]: "length (hex_EncodeToString bs) = 2 * length bs"
  by (induction bs) auto

lemma length_b64_join: "b64_join ss = Some bs \<Longrightarrow> length bs = length ss * 3 div 4"
  by (induction ss arbitrary: bs rule: b64_join.induct) auto

lemma length_those: "those xs = Some ys \<Longrightarrow> length ys = length xs"
  by (induction xs arbitrary: ys) (auto split: option.splits)

lemma length_url_decode: "RawURLEncoding_DecodeString s = Some raw \<Longrightarrow> 4 * length raw \<le> 3 * length s"
proof -
  assume "RawURLEncoding_DecodeString s = Some raw"
  then obtain ss where ss: "those (map (\<lambda>c. b64_index url_alphabet c 0) (b64_skip s)) = Some ss" "b64_join ss = Some raw"
    by (auto simp: RawURLEncoding_DecodeString_def b64_decode_def bind_eq_Some_conv)
  have "length ss = length (b64_skip s)" using ss(1) length_those by fastforce
  then have "length ss \<le> length s" by (simp add: b64_skip_def)
  moreover have "4 * length raw \<le> 3 * length ss" using length_b64_join [OF ss(2)] by simp
  ultimately show ?thesis by linarith
qed

lemma length_hex_decode: "hex_DecodeString s = Some bs \<Longrightarrow> length s = 2 * length bs"
  by (induction s arbitrary: bs rule: hex_DecodeString.induct) (auto split: option.splits)

subsection \<open>The last group of a text\<close>

text \<open>
  A text whose data is one byte past a multiple of three ends in two characters, the second of which holds
  only two bits of data: the decoder ignores its four spare bits.
\<close>

lemma three_dvd_induct [consumes 1, case_names Nil Cons3]:
  assumes "3 dvd length (xs :: bytes)" and "P []"
    and "\<And>a b c xs. 3 dvd length xs \<Longrightarrow> P xs \<Longrightarrow> P (a # b # c # xs)"
  shows "P xs"
  using assms(1)
proof (induction xs rule: b64_split.induct)
  case (4 a b c ds)
  then have "3 dvd length ds" using dvd_diff_nat [of 3 "length (a # b # c # ds)" 3] by simp
  with 4 assms(3) show ?case by blast
qed (use assms(2) in \<open>auto dest: dvd_imp_le\<close>)

lemma append_Nil_fun: "map_option ((@) []) = id"
  by (simp add: fun_eq_iff option.map_ident cong: map_option_cong)

lemma append_Cons_fun: "(@) (x # xs) = (\<lambda>ys. x # xs @ ys)"
  by (simp add: fun_eq_iff)

lemma b64_split_append: "3 dvd length pre \<Longrightarrow> b64_split (pre @ bs) = b64_split pre @ b64_split bs"
  by (induction rule: three_dvd_induct) simp_all

lemma b64_join_append:
  "3 dvd length pre \<Longrightarrow> b64_join (b64_split pre @ ss) = map_option ((@) pre) (b64_join ss)"
proof (induction rule: three_dvd_induct)
  case (Cons3 a b c xs)
  moreover have "b64_join (b64_split [a, b, c]) = Some [a, b, c]" by (rule b64_join_split)
  ultimately show ?case by (simp add: append_Cons_fun option.map_comp comp_def)
qed (simp add: option.map_ident)

lemma those_append:
  "those xs = Some as \<Longrightarrow> those (xs @ ys) = map_option ((@) as) (those ys)"
proof (induction xs arbitrary: as)
  case (Cons x xs)
  then show ?case by (auto simp: append_Cons_fun option.map_comp comp_def split: option.splits)
qed (simp add: append_Nil_fun)

lemma b64_decode_append:
  assumes "distinct al" and "length al = 64" and "10 \<notin> set al" and "13 \<notin> set al" and "3 dvd length pre"
  shows "b64_decode al (b64_encode al pre @ t) = map_option ((@) pre) (b64_decode al t)"
proof -
  have mem: "al ! unat s \<in> set al" if "s \<in> set (b64_split pre)" for s
    using b64_split_sextets [OF that] assms(2) by simp
  have skip: "b64_skip (b64_encode al pre @ t) = b64_encode al pre @ b64_skip t"
    using mem assms(3,4) by (auto simp: b64_skip_def b64_encode_def filter_id_conv simp del: nth_mem
        dest: mem)
  have "b64_index al (al ! unat s) 0 = Some s" if "s \<in> set (b64_split pre)" for s
    using b64_index_nth [OF assms(1), of "unat s" 0] b64_split_sextets [OF that] assms(2) by simp
  then have "those (map (\<lambda>c. b64_index al c 0) (b64_encode al pre)) = Some (b64_split pre)"
    unfolding b64_encode_def by (rule those_map_inverse)
  from those_append [OF this] show ?thesis
    by (simp add: b64_decode_def skip b64_join_append [OF assms(5)] bind_map_option Option.bind_map_option map_option_bind comp_def
       split: Option.bind_split)
qed

lemma b64_encode_append:
  "3 dvd length pre \<Longrightarrow> b64_encode al (pre @ bs) = b64_encode al pre @ b64_encode al bs"
  by (simp add: b64_encode_def b64_split_append)

lemma b64_index_sextet:
  assumes "distinct al" "length al = 64" "s \<in> set (b64_split bs)"
  shows "b64_index al (al ! unat s) 0 = Some s"
  using b64_index_nth [OF assms(1), of "unat s" 0] b64_split_sextets [OF assms(3)] assms(2) by simp

lemma b64_replace_last:
  assumes al: "distinct al" "length al = 64" "10 \<notin> set al" "13 \<notin> set al"
    and pre: "3 dvd length pre" and x: "b64_index al x 0 = Some v"
  shows "b64_decode al (butlast (b64_encode al (pre @ [a])) @ [x]) =
    Some (pre @ [push_bit 2 (drop_bit 2 a) OR drop_bit 4 v])"
proof -
  have enc: "b64_encode al [a] = [al ! unat (drop_bit 2 a), al ! unat (push_bit 4 (take_bit 2 a))]"
    by (simp add: b64_encode_def)
  have mem: "c \<noteq> 10 \<and> c \<noteq> 13" if "b64_index al c n = Some w" for c n w
    using that al(3,4) by (induction al c n rule: b64_index.induct) (auto split: if_splits)
  have i1: "b64_index al (al ! unat (drop_bit 2 a)) 0 = Some (drop_bit 2 a)"
    by (rule b64_index_sextet [OF al(1,2), of _ "[a]"]) simp
  have "b64_decode al [al ! unat (drop_bit 2 a), x] = Some [push_bit 2 (drop_bit 2 a) OR drop_bit 4 v]"
    using mem [OF i1] mem [OF x] by (simp add: b64_decode_def b64_skip_def i1 x)
  then show ?thesis
    by (simp add: b64_encode_append [OF pre] enc butlast_append b64_decode_append [OF al pre])
qed

lemma b64_index_bound:
  "b64_index al c n = Some v \<Longrightarrow> unat n + length al < 256 \<Longrightarrow> unat v < unat n + length al"
proof (induction al c n rule: b64_index.induct)
  case (2 a al c n)
  have "unat (n + 1) = unat n + 1" using 2(3) by (simp add: unat_word_ariths)
  with 2 show ?case by (auto split: if_splits)
qed simp

lemma low_bits_replaced:
  assumes "unat (v :: byte) < 64"
  shows "push_bit 2 (drop_bit 2 b) OR drop_bit 4 v = b \<longleftrightarrow> drop_bit 4 v = take_bit 2 (b :: byte)"
proof -
  have "\<not> bit v n" if "6 \<le> n" for n
  proof -
    have "unat v < 2 ^ n" using assms power_increasing [OF that, of "2 :: nat"] by simp
    then have "take_bit n (unat v) = unat v" by (simp add: take_bit_nat_eq_self)
    then have "\<not> bit (unat v) n" by (metis bit_take_bit_iff less_irrefl)
    then show ?thesis by (simp add: bit_unsigned_iff)
  qed
  then have hi: "\<not> bit v 6" "\<not> bit v 7" by simp_all
  have eq: "x = y \<longleftrightarrow> bit x 0 = bit y 0 \<and> bit x 1 = bit y 1 \<and> bit x 2 = bit y 2 \<and> bit x 3 = bit y 3 \<and>
      bit x 4 = bit y 4 \<and> bit x 5 = bit y 5 \<and> bit x 6 = bit y 6 \<and> bit x 7 = bit y 7" for x y :: byte
    using byte_eqI [of x y] by blast
  show ?thesis unfolding eq [of "push_bit 2 (drop_bit 2 b) OR drop_bit 4 v"] eq [of "drop_bit 4 v"]
    using hi by (auto simp: bit_simps)
qed

lemma spare_bits_count:
  "length (filter (\<lambda>v. drop_bit 4 (word_of_nat v :: byte) = take_bit 2 b) [0..<64]) = 16"
proof -
  have "unat (take_bit 2 b) < 4" using take_bit_nat_less_exp [of 2 "unat b"] by (simp add: unsigned_take_bit_eq)
  then have "unat (take_bit 2 b) \<in> {0, 1, 2, 3}" by auto
  from imageI [OF this, of "word_of_nat :: nat \<Rightarrow> byte"] have "take_bit 2 b \<in> {0, 1, 2, 3}" by simp
  then show ?thesis by (auto simp: upt_rec)
qed

lemma RawURLEncoding_line_feed: "RawURLEncoding_DecodeString (s @ [10]) = RawURLEncoding_DecodeString s"
  by (simp add: RawURLEncoding_DecodeString_def b64_decode_def b64_skip_def)

end
