(* ===== verification/Aes.thy ===== *)
theory Aes
  imports Encoding
begin

text \<open>
  The block cipher of \<^verbatim>\<open>crypto/aes\<close> (FIPS 197) for 16, 24 and 32-byte keys, and the contract of a
  \<^verbatim>\<open>cipher.Block\<close>. The state of the cipher is its 16 bytes in input order: byte \<open>i\<close> is row
  \<open>i mod 4\<close>, column \<open>i div 4\<close>. The main result is that decryption inverts encryption, proved round
  by round, which is the interpretation of \<open>block_cipher\<close> on AES.
\<close>

subsection \<open>Byte operations\<close>

definition sbox_table :: bytes where
  "sbox_table =
    [0x63, 0x7c, 0x77, 0x7b, 0xf2, 0x6b, 0x6f, 0xc5, 0x30, 0x01, 0x67, 0x2b, 0xfe, 0xd7, 0xab, 0x76,
     0xca, 0x82, 0xc9, 0x7d, 0xfa, 0x59, 0x47, 0xf0, 0xad, 0xd4, 0xa2, 0xaf, 0x9c, 0xa4, 0x72, 0xc0,
     0xb7, 0xfd, 0x93, 0x26, 0x36, 0x3f, 0xf7, 0xcc, 0x34, 0xa5, 0xe5, 0xf1, 0x71, 0xd8, 0x31, 0x15,
     0x04, 0xc7, 0x23, 0xc3, 0x18, 0x96, 0x05, 0x9a, 0x07, 0x12, 0x80, 0xe2, 0xeb, 0x27, 0xb2, 0x75,
     0x09, 0x83, 0x2c, 0x1a, 0x1b, 0x6e, 0x5a, 0xa0, 0x52, 0x3b, 0xd6, 0xb3, 0x29, 0xe3, 0x2f, 0x84,
     0x53, 0xd1, 0x00, 0xed, 0x20, 0xfc, 0xb1, 0x5b, 0x6a, 0xcb, 0xbe, 0x39, 0x4a, 0x4c, 0x58, 0xcf,
     0xd0, 0xef, 0xaa, 0xfb, 0x43, 0x4d, 0x33, 0x85, 0x45, 0xf9, 0x02, 0x7f, 0x50, 0x3c, 0x9f, 0xa8,
     0x51, 0xa3, 0x40, 0x8f, 0x92, 0x9d, 0x38, 0xf5, 0xbc, 0xb6, 0xda, 0x21, 0x10, 0xff, 0xf3, 0xd2,
     0xcd, 0x0c, 0x13, 0xec, 0x5f, 0x97, 0x44, 0x17, 0xc4, 0xa7, 0x7e, 0x3d, 0x64, 0x5d, 0x19, 0x73,
     0x60, 0x81, 0x4f, 0xdc, 0x22, 0x2a, 0x90, 0x88, 0x46, 0xee, 0xb8, 0x14, 0xde, 0x5e, 0x0b, 0xdb,
     0xe0, 0x32, 0x3a, 0x0a, 0x49, 0x06, 0x24, 0x5c, 0xc2, 0xd3, 0xac, 0x62, 0x91, 0x95, 0xe4, 0x79,
     0xe7, 0xc8, 0x37, 0x6d, 0x8d, 0xd5, 0x4e, 0xa9, 0x6c, 0x56, 0xf4, 0xea, 0x65, 0x7a, 0xae, 0x08,
     0xba, 0x78, 0x25, 0x2e, 0x1c, 0xa6, 0xb4, 0xc6, 0xe8, 0xdd, 0x74, 0x1f, 0x4b, 0xbd, 0x8b, 0x8a,
     0x70, 0x3e, 0xb5, 0x66, 0x48, 0x03, 0xf6, 0x0e, 0x61, 0x35, 0x57, 0xb9, 0x86, 0xc1, 0x1d, 0x9e,
     0xe1, 0xf8, 0x98, 0x11, 0x69, 0xd9, 0x8e, 0x94, 0x9b, 0x1e, 0x87, 0xe9, 0xce, 0x55, 0x28, 0xdf,
     0x8c, 0xa1, 0x89, 0x0d, 0xbf, 0xe6, 0x42, 0x68, 0x41, 0x99, 0x2d, 0x0f, 0xb0, 0x54, 0xbb, 0x16]"

definition inv_sbox_table :: bytes where
  "inv_sbox_table =
    [0x52, 0x09, 0x6a, 0xd5, 0x30, 0x36, 0xa5, 0x38, 0xbf, 0x40, 0xa3, 0x9e, 0x81, 0xf3, 0xd7, 0xfb,
     0x7c, 0xe3, 0x39, 0x82, 0x9b, 0x2f, 0xff, 0x87, 0x34, 0x8e, 0x43, 0x44, 0xc4, 0xde, 0xe9, 0xcb,
     0x54, 0x7b, 0x94, 0x32, 0xa6, 0xc2, 0x23, 0x3d, 0xee, 0x4c, 0x95, 0x0b, 0x42, 0xfa, 0xc3, 0x4e,
     0x08, 0x2e, 0xa1, 0x66, 0x28, 0xd9, 0x24, 0xb2, 0x76, 0x5b, 0xa2, 0x49, 0x6d, 0x8b, 0xd1, 0x25,
     0x72, 0xf8, 0xf6, 0x64, 0x86, 0x68, 0x98, 0x16, 0xd4, 0xa4, 0x5c, 0xcc, 0x5d, 0x65, 0xb6, 0x92,
     0x6c, 0x70, 0x48, 0x50, 0xfd, 0xed, 0xb9, 0xda, 0x5e, 0x15, 0x46, 0x57, 0xa7, 0x8d, 0x9d, 0x84,
     0x90, 0xd8, 0xab, 0x00, 0x8c, 0xbc, 0xd3, 0x0a, 0xf7, 0xe4, 0x58, 0x05, 0xb8, 0xb3, 0x45, 0x06,
     0xd0, 0x2c, 0x1e, 0x8f, 0xca, 0x3f, 0x0f, 0x02, 0xc1, 0xaf, 0xbd, 0x03, 0x01, 0x13, 0x8a, 0x6b,
     0x3a, 0x91, 0x11, 0x41, 0x4f, 0x67, 0xdc, 0xea, 0x97, 0xf2, 0xcf, 0xce, 0xf0, 0xb4, 0xe6, 0x73,
     0x96, 0xac, 0x74, 0x22, 0xe7, 0xad, 0x35, 0x85, 0xe2, 0xf9, 0x37, 0xe8, 0x1c, 0x75, 0xdf, 0x6e,
     0x47, 0xf1, 0x1a, 0x71, 0x1d, 0x29, 0xc5, 0x89, 0x6f, 0xb7, 0x62, 0x0e, 0xaa, 0x18, 0xbe, 0x1b,
     0xfc, 0x56, 0x3e, 0x4b, 0xc6, 0xd2, 0x79, 0x20, 0x9a, 0xdb, 0xc0, 0xfe, 0x78, 0xcd, 0x5a, 0xf4,
     0x1f, 0xdd, 0xa8, 0x33, 0x88, 0x07, 0xc7, 0x31, 0xb1, 0x12, 0x10, 0x59, 0x27, 0x80, 0xec, 0x5f,
     0x60, 0x51, 0x7f, 0xa9, 0x19, 0xb5, 0x4a, 0x0d, 0x2d, 0xe5, 0x7a, 0x9f, 0x93, 0xc9, 0x9c, 0xef,
     0xa0, 0xe0, 0x3b, 0x4d, 0xae, 0x2a, 0xf5, 0xb0, 0xc8, 0xeb, 0xbb, 0x3c, 0x83, 0x53, 0x99, 0x61,
     0x17, 0x2b, 0x04, 0x7e, 0xba, 0x77, 0xd6, 0x26, 0xe1, 0x69, 0x14, 0x63, 0x55, 0x21, 0x0c, 0x7d]"

definition sbox :: "byte \<Rightarrow> byte" where
  "sbox b = sbox_table ! unat b"

definition inv_sbox :: "byte \<Rightarrow> byte" where
  "inv_sbox b = inv_sbox_table ! unat b"

text \<open>Multiplication by the polynomial \<open>x\<close> modulo \<open>x^8 + x^4 + x^3 + x + 1\<close>.\<close>

definition xtime :: "byte \<Rightarrow> byte" where
  "xtime b = push_bit 1 b XOR (if bit b 7 then 0x1b else 0)"

subsection \<open>Round transformations\<close>

definition SubBytes :: "bytes \<Rightarrow> bytes" where
  "SubBytes s = map sbox s"

definition InvSubBytes :: "bytes \<Rightarrow> bytes" where
  "InvSubBytes s = map inv_sbox s"

definition ShiftRows :: "bytes \<Rightarrow> bytes" where
  "ShiftRows s = map ((!) s) [0, 5, 10, 15, 4, 9, 14, 3, 8, 13, 2, 7, 12, 1, 6, 11]"

definition InvShiftRows :: "bytes \<Rightarrow> bytes" where
  "InvShiftRows s = map ((!) s) [0, 13, 10, 7, 4, 1, 14, 11, 8, 5, 2, 15, 12, 9, 6, 3]"

definition mix :: "byte \<Rightarrow> byte \<Rightarrow> byte \<Rightarrow> byte \<Rightarrow> byte" where
  "mix a b c d = xtime a XOR (xtime b XOR b) XOR c XOR d"

fun MixColumns :: "bytes \<Rightarrow> bytes" where
  "MixColumns (a # b # c # d # s) = mix a b c d # mix b c d a # mix c d a b # mix d a b c # MixColumns s"
| "MixColumns s = []"

text \<open>One row of the inverse matrix: \<open>14 a + 11 b + 13 c + 9 d\<close> over the field.\<close>

definition inv_mix :: "byte \<Rightarrow> byte \<Rightarrow> byte \<Rightarrow> byte \<Rightarrow> byte" where
  "inv_mix a b c d =
     (xtime (xtime (xtime a)) XOR xtime (xtime a) XOR xtime a) XOR
     (xtime (xtime (xtime b)) XOR xtime b XOR b) XOR
     (xtime (xtime (xtime c)) XOR xtime (xtime c) XOR c) XOR
     (xtime (xtime (xtime d)) XOR d)"

fun InvMixColumns :: "bytes \<Rightarrow> bytes" where
  "InvMixColumns (a # b # c # d # s) =
     inv_mix a b c d # inv_mix b c d a # inv_mix c d a b # inv_mix d a b c # InvMixColumns s"
| "InvMixColumns s = []"

subsection \<open>Key expansion\<close>

fun rcon :: "nat \<Rightarrow> byte" where
  "rcon 0 = 1"
| "rcon (Suc n) = xtime (rcon n)"

text \<open>The schedule is a list of 4-byte words; each step appends one word.\<close>

definition next_word :: "nat \<Rightarrow> bytes list \<Rightarrow> bytes" where
  "next_word nk ws =
     (let i = length ws; t = ws ! (i - 1) in
      xor_bytes (ws ! (i - nk))
        (if i mod nk = 0
         then xor_bytes (map sbox (rotate1 t)) [rcon (i div nk - 1), 0, 0, 0]
         else if 6 < nk \<and> i mod nk = 4 then map sbox t
         else t))"

fun expand :: "nat \<Rightarrow> nat \<Rightarrow> bytes list \<Rightarrow> bytes list" where
  "expand nk 0 ws = ws"
| "expand nk (Suc n) ws = expand nk n (ws @ [next_word nk ws])"

fun chop4 :: "'a list \<Rightarrow> 'a list list" where
  "chop4 (a # b # c # d # xs) = [a, b, c, d] # chop4 xs"
| "chop4 xs = []"

text \<open>\<open>nk\<close> key words give \<open>nk + 7\<close> round keys of four words each.\<close>

definition round_keys :: "bytes \<Rightarrow> bytes list" where
  "round_keys key =
     (let nk = length key div 4
      in map concat (chop4 (expand nk (4 * (nk + 7) - nk) (chop4 key))))"

subsection \<open>The cipher\<close>

fun aes_rounds :: "bytes list \<Rightarrow> bytes \<Rightarrow> bytes" where
  "aes_rounds [] s = s"
| "aes_rounds [k] s = xor_bytes (ShiftRows (SubBytes s)) k"
| "aes_rounds (k # ks) s = aes_rounds ks (xor_bytes (MixColumns (ShiftRows (SubBytes s))) k)"

fun aes_inv_rounds :: "bytes list \<Rightarrow> bytes \<Rightarrow> bytes" where
  "aes_inv_rounds [] s = s"
| "aes_inv_rounds [k] s = InvSubBytes (InvShiftRows (xor_bytes s k))"
| "aes_inv_rounds (k # ks) s =
     InvSubBytes (InvShiftRows (InvMixColumns (xor_bytes (aes_inv_rounds ks s) k)))"

definition aes_encrypt :: "bytes list \<Rightarrow> bytes \<Rightarrow> bytes" where
  "aes_encrypt ks s = aes_rounds (tl ks) (xor_bytes s (hd ks))"

definition aes_decrypt :: "bytes list \<Rightarrow> bytes \<Rightarrow> bytes" where
  "aes_decrypt ks s = xor_bytes (aes_inv_rounds (tl ks) s) (hd ks)"

record Block =
  block_Encrypt :: "bytes \<Rightarrow> bytes"
  block_Decrypt :: "bytes \<Rightarrow> bytes"

definition aes_BlockSize :: nat where
  "aes_BlockSize = 16"

definition aes_key_size :: "nat \<Rightarrow> bool" where
  "aes_key_size n \<longleftrightarrow> n = 16 \<or> n = 24 \<or> n = 32"

definition aes_block :: "bytes \<Rightarrow> Block" where
  "aes_block key =
     (let ks = round_keys key in \<lparr>block_Encrypt = aes_encrypt ks, block_Decrypt = aes_decrypt ks\<rparr>)"

definition aes_NewCipher :: "bytes \<Rightarrow> Block res" where
  "aes_NewCipher key =
     (if aes_key_size (length key) then Ok (aes_block key)
      else Err (Msg ''crypto/aes: invalid key size''))"

subsection \<open>The contract of a block cipher\<close>

locale block_cipher =
  fixes mk :: "bytes \<Rightarrow> Block"
    and ok :: "bytes \<Rightarrow> bool"
  assumes enc_length: "ok k \<Longrightarrow> length b = 16 \<Longrightarrow> length (block_Encrypt (mk k) b) = 16"
    and dec_enc: "ok k \<Longrightarrow> length b = 16 \<Longrightarrow> block_Decrypt (mk k) (block_Encrypt (mk k) b) = b"

subsection \<open>Each transformation has an inverse\<close>

lemma inv_sbox_sbox: "inv_sbox (sbox b) = b"
proof -
  have "list_all (\<lambda>n. inv_sbox_table ! unat (sbox_table ! n) = word_of_nat n) [0..<256]"
    by (simp add: sbox_table_def inv_sbox_table_def upt_rec)
  moreover have "unat b \<in> set [0..<256]"
    using unsigned_less [of b] by simp
  ultimately have "inv_sbox_table ! unat (sbox_table ! unat b) = word_of_nat (unat b)"
    by (simp only: list_all_iff)
  then show ?thesis by (simp add: sbox_def inv_sbox_def)
qed

lemma InvSubBytes_SubBytes [simp]: "InvSubBytes (SubBytes s) = s"
  by (simp add: InvSubBytes_def SubBytes_def inv_sbox_sbox map_idI)

lemma length_16_conv:
  "length s = 16 \<longleftrightarrow> (\<exists>a b c d e f g h i j k l m n x y. s = [a, b, c, d, e, f, g, h, i, j, k, l, m, n, x, y])"
  by (auto simp: numeral_eq_Suc length_Suc_conv)

lemma InvShiftRows_ShiftRows [simp]: "length s = 16 \<Longrightarrow> InvShiftRows (ShiftRows s) = s"
  by (auto simp: length_16_conv InvShiftRows_def ShiftRows_def)

lemma xtime_xor: "xtime (a XOR b) = xtime a XOR xtime b"
  by (rule byte_eqI) (auto simp: xtime_def bit_simps)

lemma inv_mix_mix:
  "inv_mix (mix a b c d) (mix b c d a) (mix c d a b) (mix d a b c) = a"
  by (simp add: inv_mix_def mix_def xtime_xor xor.assoc xor.commute xor.left_commute)

lemma InvMixColumns_MixColumns_4:
  "InvMixColumns (mix a b c d # mix b c d a # mix c d a b # mix d a b c # s) =
     a # b # c # d # InvMixColumns s"
  by (simp add: inv_mix_mix)

lemma InvMixColumns_MixColumns [simp]: "length s = 16 \<Longrightarrow> InvMixColumns (MixColumns s) = s"
  by (auto simp: length_16_conv InvMixColumns_MixColumns_4 simp del: InvMixColumns.simps(1))

lemma length_rounds [simp]:
  "length (SubBytes s) = length s" "length (ShiftRows s) = 16"
  by (simp_all add: SubBytes_def ShiftRows_def)

lemma length_MixColumns: "length s = 16 \<Longrightarrow> length (MixColumns s) = 16"
  by (auto simp: length_16_conv)

lemma aes_inv_rounds_aes_rounds:
  assumes "length s = 16" and "\<forall>k \<in> set ks. length k = 16"
  shows "aes_inv_rounds ks (aes_rounds ks s) = s \<and> length (aes_rounds ks s) = 16"
  using assms
proof (induction ks s rule: aes_rounds.induct)
  case (3 k k' ks s)
  let ?t = "MixColumns (ShiftRows (SubBytes s))"
  have t: "length ?t = 16" by (simp add: length_MixColumns)
  have "aes_inv_rounds (k' # ks) (aes_rounds (k' # ks) (xor_bytes ?t k)) = xor_bytes ?t k \<and>
      length (aes_rounds (k' # ks) (xor_bytes ?t k)) = 16"
    by (rule "3.IH") (use t "3.prems" in simp_all)
  with t "3.prems" show ?case by simp
qed simp_all

subsection \<open>The key schedule has the right shape\<close>

lemma chop4_lengths: "w \<in> set (chop4 xs) \<Longrightarrow> length w = 4"
  by (induction xs rule: chop4.induct) auto

lemma length_chop4: "length (chop4 xs) = length xs div 4"
  by (induction xs rule: chop4.induct) auto

lemma next_word_length:
  assumes "\<forall>w \<in> set ws. length w = 4" and "0 < nk" and "nk \<le> length ws"
  shows "length (next_word nk ws) = 4"
proof -
  have "ws ! (length ws - nk) \<in> set ws" "ws ! (length ws - 1) \<in> set ws"
    using assms(2,3) by simp_all
  with assms(1) show ?thesis by (simp add: next_word_def Let_def)
qed

lemma expand_shape:
  assumes "\<forall>w \<in> set ws. length w = 4" and "0 < nk" and "nk \<le> length ws"
  shows "(\<forall>w \<in> set (expand nk n ws). length w = 4) \<and> length (expand nk n ws) = length ws + n"
  using assms
proof (induction n arbitrary: ws)
  case (Suc n)
  let ?ws = "ws @ [next_word nk ws]"
  have "\<forall>w \<in> set ?ws. length w = 4" "nk \<le> length ?ws"
    using Suc.prems by (simp_all add: next_word_length)
  from Suc.IH [OF this(1) Suc.prems(2) this(2)] show ?case by simp
qed simp

lemma concat_chop4_length:
  "\<forall>w \<in> set ws. length w = 4 \<Longrightarrow> k \<in> set (map concat (chop4 ws)) \<Longrightarrow> length k = 16"
  by (induction ws rule: chop4.induct) auto

lemma round_keys_shape:
  assumes "aes_key_size (length key)"
  shows "\<forall>k \<in> set (round_keys key). length k = 16" and "length (round_keys key) = length key div 4 + 7"
proof -
  let ?nk = "length key div 4"
  have nk: "0 < ?nk" using assms by (auto simp: aes_key_size_def)
  have "\<forall>w \<in> set (chop4 key). length w = 4" using chop4_lengths by blast
  note expand_shape [OF this nk, unfolded length_chop4, OF order_refl]
  then have *: "(\<forall>w \<in> set (expand ?nk n (chop4 key)). length w = 4) \<and>
      length (expand ?nk n (chop4 key)) = ?nk + n" for n
    by blast
  show "\<forall>k \<in> set (round_keys key). length k = 16"
    unfolding round_keys_def Let_def
    by (intro ballI) (erule concat_chop4_length [OF conjunct1 [OF *]])
  show "length (round_keys key) = length key div 4 + 7"
    by (simp add: round_keys_def Let_def length_chop4 conjunct2 [OF *])
qed

lemma aes_block_correct:
  assumes "aes_key_size (length key)" and "length b = 16"
  shows "length (block_Encrypt (aes_block key) b) = 16"
    and "block_Decrypt (aes_block key) (block_Encrypt (aes_block key) b) = b"
proof -
  obtain k ks where rk: "round_keys key = k # ks"
    using round_keys_shape(2) [OF assms(1)] by (cases "round_keys key") auto
  have len: "length k = 16" "\<forall>k \<in> set ks. length k = 16"
    using round_keys_shape(1) [OF assms(1)] by (simp_all add: rk)
  have "length (xor_bytes b k) = 16" using assms(2) len by simp
  note rounds = aes_inv_rounds_aes_rounds [OF this len(2)]
  show "length (block_Encrypt (aes_block key) b) = 16"
    using rounds by (simp add: aes_block_def aes_encrypt_def rk Let_def)
  show "block_Decrypt (aes_block key) (block_Encrypt (aes_block key) b) = b"
    using rounds assms(2) len by (simp add: aes_block_def aes_encrypt_def aes_decrypt_def rk Let_def)
qed

lemma aes_block_Decrypt_length:
  assumes "aes_key_size (length key)"
  shows "length (block_Decrypt (aes_block key) b) = 16"
proof -
  obtain k k' ks where rk: "round_keys key = k # k' # ks"
    using round_keys_shape(2) [OF assms] by (cases "round_keys key" rule: remdups_adj.cases) auto
  have "length k = 16" using round_keys_shape(1) [OF assms] by (simp add: rk)
  moreover have "length (aes_inv_rounds (k' # ks) b) = 16"
    by (cases ks) (simp_all add: InvSubBytes_def InvShiftRows_def)
  ultimately show ?thesis by (simp add: aes_block_def aes_decrypt_def rk Let_def)
qed

interpretation aes: block_cipher aes_block "\<lambda>key. aes_key_size (length key)"
  by unfold_locales (simp_all add: aes_block_correct)

lemma aes_NewCipher_ok [simp]: "aes_key_size (length key) \<Longrightarrow> aes_NewCipher key = Ok (aes_block key)"
  by (simp add: aes_NewCipher_def)

lemma aes_key_size_32 [simp]: "aes_key_size 32"
  by (simp add: aes_key_size_def)

end
