(* ===== verification/Modes.thy ===== *)
theory Modes
  imports Aes
begin

text \<open>
  The modes of \<^verbatim>\<open>crypto/cipher\<close> the program uses: CBC (\<^verbatim>\<open>NewCBCEncrypter\<close>, \<^verbatim>\<open>NewCBCDecrypter\<close>) and GCM
  (\<^verbatim>\<open>NewGCM\<close>, NIST SP 800-38D, 12-byte nonces and 16-byte tags), over any \<^verbatim>\<open>cipher.Block\<close>, with the panics
  those functions document. \<open>AEAD\<close> is the interface \<^verbatim>\<open>cipher.AEAD\<close> as a record of its two operations.

  The locale \<open>aead\<close> states what the program relies on of an AEAD cipher: sealing succeeds up to a
  maximal length and adds 16 bytes, opening never panics, opening accepts exactly the outputs of
  sealing (for the same key, nonce and additional data), and the bytes before the 16-byte tag
  determine the plaintext. The locale \<open>aead_new\<close> adds the constructor. It is interpreted on AES-GCM; for
  ChaCha20-Poly1305, which is not part of the repository, it is the named hypothesis of the theorems.
\<close>

subsection \<open>CBC\<close>

function cbc_encrypt :: "Block \<Rightarrow> bytes \<Rightarrow> bytes \<Rightarrow> bytes" where
  "cbc_encrypt B prev src =
     (if length src < 16 then []
      else let c = block_Encrypt B (xor_bytes (take 16 src) prev)
           in c @ cbc_encrypt B c (drop 16 src))"
  by pat_completeness auto
termination
  by (relation "measure (\<lambda>(B, prev, src). length src)") auto

function cbc_decrypt :: "Block \<Rightarrow> bytes \<Rightarrow> bytes \<Rightarrow> bytes" where
  "cbc_decrypt B prev src =
     (if length src < 16 then []
      else let c = take 16 src
           in xor_bytes (block_Decrypt B c) prev @ cbc_decrypt B c (drop 16 src))"
  by pat_completeness auto
termination
  by (relation "measure (\<lambda>(B, prev, src). length src)") auto

declare cbc_encrypt.simps [simp del] cbc_decrypt.simps [simp del]

definition CBCEncrypter_CryptBlocks :: "Block \<Rightarrow> bytes \<Rightarrow> bytes \<Rightarrow> bytes res" where
  "CBCEncrypter_CryptBlocks B iv src =
     (if length iv \<noteq> 16 then Panic
      else if length src mod 16 \<noteq> 0 then Panic
      else Ok (cbc_encrypt B iv src))"

definition CBCDecrypter_CryptBlocks :: "Block \<Rightarrow> bytes \<Rightarrow> bytes \<Rightarrow> bytes res" where
  "CBCDecrypter_CryptBlocks B iv src =
     (if length iv \<noteq> 16 then Panic
      else if length src mod 16 \<noteq> 0 then Panic
      else Ok (cbc_decrypt B iv src))"

subsection \<open>The AEAD interface\<close>

text \<open>
  \<^verbatim>\<open>Seal(dst, nonce, plaintext, additionalData)\<close> appends to \<open>dst\<close>; the record's operation returns what
  is appended. \<^verbatim>\<open>Open\<close> is always called with a nil \<open>dst\<close>.
\<close>

record AEAD =
  aead_Seal :: "bytes \<Rightarrow> bytes \<Rightarrow> bytes \<Rightarrow> bytes res"
  aead_Open :: "bytes \<Rightarrow> bytes \<Rightarrow> bytes \<Rightarrow> bytes res"

locale aead =
  fixes mk :: "bytes \<Rightarrow> AEAD"
    and ok :: "bytes \<Rightarrow> bool"
    and maxlen :: nat
  assumes seal_Ok:
      "ok k \<Longrightarrow> length n = 12 \<Longrightarrow> length p \<le> maxlen \<Longrightarrow> \<exists>c. aead_Seal (mk k) n p a = Ok c"
    and seal_length: "ok k \<Longrightarrow> aead_Seal (mk k) n p a = Ok c \<Longrightarrow> length c = length p + 16"
    and open_iff:
      "ok k \<Longrightarrow> length n = 12 \<Longrightarrow> aead_Open (mk k) n c a = Ok p \<longleftrightarrow> aead_Seal (mk k) n p a = Ok c"
    and open_no_panic: "ok k \<Longrightarrow> length n = 12 \<Longrightarrow> aead_Open (mk k) n c a \<noteq> Panic"
    and seal_prefix:
      "ok k \<Longrightarrow> aead_Seal (mk k) n p a = Ok (c @ t) \<Longrightarrow> aead_Seal (mk k) n p' a' = Ok (c @ t') \<Longrightarrow>
       length t = 16 \<Longrightarrow> length t' = 16 \<Longrightarrow> p = p'"
begin

lemma seal_obtain:
  assumes "ok k" "length n = 12" "length p \<le> maxlen"
  obtains c where "aead_Seal (mk k) n p a = Ok c" "length c = length p + 16"
    "aead_Open (mk k) n c a = Ok p"
  using seal_Ok [OF assms] seal_length [OF assms(1)] open_iff [OF assms(1,2)] that by blast

lemma open_length:
  "ok k \<Longrightarrow> length n = 12 \<Longrightarrow> aead_Open (mk k) n c a = Ok p \<Longrightarrow> length c = length p + 16"
  by (simp add: open_iff seal_length)

lemma open_fails:
  assumes "ok k" "length n = 12" "\<And>p. aead_Seal (mk k) n p a \<noteq> Ok c"
  shows "\<exists>e. aead_Open (mk k) n c a = Err e"
  using open_no_panic [OF assms(1,2), of c a] open_iff [OF assms(1,2), of c a] assms(3)
  by (cases "aead_Open (mk k) n c a") auto

lemma open_tag_unique:
  assumes "ok k" "length n = 12" "aead_Seal (mk k) n p a = Ok (c @ t)" "length t = 16"
    "length t' = 16" "t' \<noteq> t"
  shows "\<exists>e. aead_Open (mk k) n (c @ t') a = Err e"
proof (rule open_fails [OF assms(1,2)])
  fix p'
  show "aead_Seal (mk k) n p' a \<noteq> Ok (c @ t')"
    using seal_prefix [OF assms(1,3) _ assms(4,5)] assms(3,6) by fastforce
qed

end

locale aead_new = aead +
  fixes new :: "bytes \<Rightarrow> AEAD res"
  assumes new_Ok: "ok k \<Longrightarrow> new k = Ok (mk k)"

subsection \<open>GCM\<close>

definition gcm_R :: "128 word" where
  "gcm_R = push_bit 120 0xe1"

fun gf_mul_loop :: "nat \<Rightarrow> 128 word \<Rightarrow> 128 word \<Rightarrow> 128 word \<Rightarrow> 128 word" where
  "gf_mul_loop 0 x v z = z"
| "gf_mul_loop (Suc n) x v z =
     gf_mul_loop n x (if bit v 0 then drop_bit 1 v XOR gcm_R else drop_bit 1 v)
       (if bit x n then z XOR v else z)"

definition gf_mul :: "128 word \<Rightarrow> 128 word \<Rightarrow> 128 word" where
  "gf_mul x y = gf_mul_loop 128 x y 0"

definition block_word :: "bytes \<Rightarrow> 128 word" where
  "block_word bs = foldl (\<lambda>acc b. push_bit 8 acc OR ucast b) 0 bs"

definition word_block :: "128 word \<Rightarrow> bytes" where
  "word_block w = map (\<lambda>i. ucast (drop_bit (8 * (15 - i)) w)) [0..<16]"

definition pad16 :: "bytes \<Rightarrow> bytes" where
  "pad16 bs = bs @ replicate ((16 - length bs mod 16) mod 16) 0"

function ghash :: "128 word \<Rightarrow> 128 word \<Rightarrow> bytes \<Rightarrow> 128 word" where
  "ghash h y bs =
     (if bs = [] then y else ghash h (gf_mul (y XOR block_word (take 16 bs)) h) (drop 16 bs))"
  by pat_completeness auto
termination
  by (relation "measure (\<lambda>(h, y, bs). length bs)") auto

declare ghash.simps [simp del]

text \<open>Counter mode: the blocks \<open>nonce || counter\<close>, the 32-bit counter wrapping around.\<close>

function ctr_mode :: "Block \<Rightarrow> bytes \<Rightarrow> 32 word \<Rightarrow> bytes \<Rightarrow> bytes" where
  "ctr_mode B nonce ctr src =
     (if src = [] then []
      else xor_bytes (take 16 src) (block_Encrypt B (nonce @ PutUint32 ctr))
           @ ctr_mode B nonce (ctr + 1) (drop 16 src))"
  by pat_completeness auto
termination
  by (relation "measure (\<lambda>(B, nonce, ctr, src). length src)") auto

declare ctr_mode.simps [simp del]

definition gcm_tag :: "Block \<Rightarrow> bytes \<Rightarrow> bytes \<Rightarrow> bytes \<Rightarrow> bytes" where
  "gcm_tag B nonce aad ct =
     (let h = block_word (block_Encrypt B (replicate 16 0));
          s = ghash h 0 (pad16 aad @ pad16 ct @ PutUint64 (word_of_nat (8 * length aad))
                @ PutUint64 (word_of_nat (8 * length ct)))
      in xor_bytes (block_Encrypt B (nonce @ PutUint32 1)) (word_block s))"

definition gcm_max :: nat where
  "gcm_max = (2 ^ 32 - 2) * 16"

definition gcm_Seal :: "Block \<Rightarrow> bytes \<Rightarrow> bytes \<Rightarrow> bytes \<Rightarrow> bytes res" where
  "gcm_Seal B nonce plaintext aad =
     (if length nonce \<noteq> 12 then Panic
      else if gcm_max < length plaintext then Panic
      else let ct = ctr_mode B nonce 2 plaintext in Ok (ct @ gcm_tag B nonce aad ct))"

definition gcm_Open :: "Block \<Rightarrow> bytes \<Rightarrow> bytes \<Rightarrow> bytes \<Rightarrow> bytes res" where
  "gcm_Open B nonce ciphertext aad =
     (if length nonce \<noteq> 12 then Panic
      else if length ciphertext < 16 then Err (Msg ''cipher: message authentication failed'')
      else if gcm_max + 16 < length ciphertext then Err (Msg ''cipher: message authentication failed'')
      else let ct = take (length ciphertext - 16) ciphertext;
               tag = drop (length ciphertext - 16) ciphertext
           in if tag \<noteq> gcm_tag B nonce aad ct
              then Err (Msg ''cipher: message authentication failed'')
              else Ok (ctr_mode B nonce 2 ct))"

definition gcm_aead :: "Block \<Rightarrow> AEAD" where
  "gcm_aead B = \<lparr>aead_Seal = gcm_Seal B, aead_Open = gcm_Open B\<rparr>"

text \<open>\<^verbatim>\<open>cipher.NewGCM\<close> fails only for blocks that are not 16 bytes long, which an AES block is not.\<close>

definition cipher_NewGCM :: "Block \<Rightarrow> AEAD res" where
  "cipher_NewGCM B = Ok (gcm_aead B)"

definition aes_gcm :: "bytes \<Rightarrow> AEAD" where
  "aes_gcm key = gcm_aead (aes_block key)"

subsection \<open>CBC decryption inverts encryption for every block cipher\<close>

context block_cipher
begin

lemma cbc_encrypt_length:
  assumes "ok k" and "length iv = 16" and "length src mod 16 = 0"
  shows "length (cbc_encrypt (mk k) iv src) = length src"
  using assms(2,3)
proof (induction "length src" arbitrary: iv src rule: less_induct)
  case less
  show ?case
  proof (cases "length src < 16")
    case True
    with less.prems show ?thesis by (simp add: cbc_encrypt.simps)
  next
    case False
    let ?c = "block_Encrypt (mk k) (xor_bytes (take 16 src) iv)"
    have c: "length ?c = 16"
      using False less.prems by (simp add: enc_length assms(1))
    have "length (cbc_encrypt (mk k) ?c (drop 16 src)) = length (drop 16 src)"
      by (rule less.hyps) (use False less.prems c in \<open>auto simp: mod_if\<close>)
    with False c show ?thesis
      by (simp add: cbc_encrypt.simps [of _ _ src] Let_def)
  qed
qed

lemma cbc_decrypt_encrypt:
  assumes "ok k" and "length iv = 16" and "length src mod 16 = 0"
  shows "cbc_decrypt (mk k) iv (cbc_encrypt (mk k) iv src) = src"
  using assms(2,3)
proof (induction "length src" arbitrary: iv src rule: less_induct)
  case less
  show ?case
  proof (cases "length src < 16")
    case True
    with less.prems have "src = []" by simp
    then show ?thesis by (simp add: cbc_encrypt.simps cbc_decrypt.simps)
  next
    case False
    let ?x = "xor_bytes (take 16 src) iv"
    let ?c = "block_Encrypt (mk k) ?x"
    have x: "length ?x = 16" using False less.prems by simp
    have c: "length ?c = 16" using x by (rule enc_length [OF assms(1)])
    have ih: "cbc_decrypt (mk k) ?c (cbc_encrypt (mk k) ?c (drop 16 src)) = drop 16 src"
      by (rule less.hyps) (use False less.prems c in \<open>auto simp: mod_if\<close>)
    have "cbc_decrypt (mk k) iv (?c @ cbc_encrypt (mk k) ?c (drop 16 src)) =
        xor_bytes ?x iv @ drop 16 src"
      by (subst cbc_decrypt.simps) (simp add: c ih dec_enc [OF assms(1) x])
    also have "\<dots> = src"
      using False less.prems by simp
    finally show ?thesis
      using False by (simp add: cbc_encrypt.simps [of _ _ src] Let_def)
  qed
qed

lemma ctr_mode_length:
  assumes "ok k" and "length nonce = 12"
  shows "length (ctr_mode (mk k) nonce ctr src) = length src"
proof (induction "length src" arbitrary: ctr src rule: less_induct)
  case less
  have e: "length (block_Encrypt (mk k) (nonce @ PutUint32 ctr)) = 16"
    using assms by (simp add: enc_length)
  show ?case
  proof (cases "src = []")
    case False
    then have "length (ctr_mode (mk k) nonce (ctr + 1) (drop 16 src)) = length (drop 16 src)"
      by (intro less.hyps) simp
    with False e show ?thesis by (simp add: ctr_mode.simps [of _ _ _ src])
  qed (simp add: ctr_mode.simps)
qed

lemma ctr_mode_involution:
  assumes "ok k" and "length nonce = 12"
  shows "ctr_mode (mk k) nonce ctr (ctr_mode (mk k) nonce ctr src) = src"
proof (induction "length src" arbitrary: ctr src rule: less_induct)
  case less
  let ?e = "block_Encrypt (mk k) (nonce @ PutUint32 ctr)"
  have e: "length ?e = 16" using assms by (simp add: enc_length)
  show ?case
  proof (cases "src = []")
    case False
    let ?x = "xor_bytes (take 16 src) ?e" and ?r = "ctr_mode (mk k) nonce (ctr + 1) (drop 16 src)"
    have r: "length ?r = length src - 16" by (simp add: ctr_mode_length [OF assms])
    have split: "take 16 (?x @ ?r) = ?x" "drop 16 (?x @ ?r) = ?r"
      using e r by (auto simp: min_def)
    have ih: "ctr_mode (mk k) nonce (ctr + 1) ?r = drop 16 src"
      using False by (intro less.hyps) simp
    have x: "xor_bytes ?x ?e = take 16 src"
      using e by (intro xor_bytes_cancel) simp
    have "length ?x \<noteq> 0" using False e by simp
    then have ne: "?x @ ?r \<noteq> []" by (metis append_is_Nil_conv list.size(3))
    have "ctr_mode (mk k) nonce ctr src = ?x @ ?r"
      using False by (subst ctr_mode.simps) simp
    moreover have "ctr_mode (mk k) nonce ctr (?x @ ?r) = src"
      by (subst ctr_mode.simps) (simp only: ne if_False split ih x append_take_drop_id)
    ultimately show ?thesis by simp
  qed (simp add: ctr_mode.simps)
qed

end

subsection \<open>AES-GCM satisfies the AEAD contract\<close>

lemma length_word_block [simp]: "length (word_block w) = 16"
  by (simp add: word_block_def)

context block_cipher
begin

lemma gcm_tag_length:
  "ok k \<Longrightarrow> length nonce = 12 \<Longrightarrow> length (gcm_tag (mk k) nonce aad ct) = 16"
  by (simp add: gcm_tag_def Let_def enc_length)

lemma gcm_open_iff:
  assumes "ok k" and "length n = 12"
  shows "gcm_Open (mk k) n c a = Ok p \<longleftrightarrow> gcm_Seal (mk k) n p a = Ok c"
proof
  assume "gcm_Seal (mk k) n p a = Ok c"
  then have max: "\<not> gcm_max < length p"
    and c: "c = ctr_mode (mk k) n 2 p @ gcm_tag (mk k) n a (ctr_mode (mk k) n 2 p)"
    using assms by (auto simp: gcm_Seal_def Let_def split: if_splits)
  note lens = ctr_mode_length [OF assms] gcm_tag_length [OF assms]
  have "length c = length p + 16" by (simp add: c lens)
  with max show "gcm_Open (mk k) n c a = Ok p"
    using assms by (simp add: gcm_Open_def Let_def c lens ctr_mode_involution)
next
  assume op: "gcm_Open (mk k) n c a = Ok p"
  let ?ct = "take (length c - 16) c"
  have "16 \<le> length c" "length c \<le> gcm_max + 16" "drop (length c - 16) c = gcm_tag (mk k) n a ?ct"
    and p: "p = ctr_mode (mk k) n 2 ?ct"
    using op assms by (auto simp: gcm_Open_def Let_def split: if_splits)
  moreover have "c = ?ct @ drop (length c - 16) c" by simp
  moreover have "length p = length c - 16" by (simp add: p ctr_mode_length [OF assms])
  ultimately show "gcm_Seal (mk k) n p a = Ok c"
    using assms by (auto simp: gcm_Seal_def Let_def ctr_mode_involution)
qed

lemma gcm_seal_length:
  "ok k \<Longrightarrow> gcm_Seal (mk k) n p a = Ok c \<Longrightarrow> length c = length p + 16"
  by (auto simp: gcm_Seal_def Let_def ctr_mode_length gcm_tag_length split: if_splits)

lemma gcm_seal_prefix:
  assumes "ok k" "gcm_Seal (mk k) n p a = Ok (c @ t)" "gcm_Seal (mk k) n p' a' = Ok (c @ t')"
    "length t = 16" "length t' = 16"
  shows "p = p'"
proof -
  have n: "length n = 12" using assms(2) by (simp add: gcm_Seal_def split: if_splits)
  have "ctr_mode (mk k) n 2 p = c" "ctr_mode (mk k) n 2 p' = c"
    using assms n gcm_tag_length [OF assms(1) n]
    by (auto simp: gcm_Seal_def Let_def append_eq_append_conv split: if_splits)
  then show ?thesis by (metis ctr_mode_involution [OF assms(1) n])
qed

sublocale gcm: aead "\<lambda>k. gcm_aead (mk k)" ok gcm_max
proof (unfold_locales, goal_cases)
  case (1 k n p a)
  then show ?case by (simp add: gcm_aead_def gcm_Seal_def Let_def)
next
  case (2 k n p a c)
  then show ?case by (simp add: gcm_aead_def gcm_seal_length)
next
  case (3 k n c a p)
  then show ?case by (simp add: gcm_aead_def gcm_open_iff)
next
  case (4 k n c a)
  then show ?case by (simp add: gcm_aead_def gcm_Open_def Let_def)
next
  case (5 k n p a c t p' a' t')
  then show ?case by (simp add: gcm_aead_def) (rule gcm_seal_prefix)
qed

end

definition aes_gcm_New :: "bytes \<Rightarrow> AEAD res" where
  "aes_gcm_New key = and_then (aes_NewCipher key) cipher_NewGCM"

interpretation aes_gcm: aead_new aes_gcm "\<lambda>key. length key = 32" gcm_max aes_gcm_New
proof (unfold_locales, goal_cases)
  case (1 k n p a)
  then show ?case unfolding aes_gcm_def by (intro aes.gcm.seal_Ok) simp_all
next
  case (2 k n p a c)
  then show ?case unfolding aes_gcm_def by (intro aes.gcm.seal_length) simp_all
next
  case (3 k n c a p)
  then show ?case unfolding aes_gcm_def by (intro aes.gcm.open_iff) simp_all
next
  case (4 k n c a)
  then show ?case unfolding aes_gcm_def by (intro aes.gcm.open_no_panic) simp_all
next
  case (5 k n p a c t p' a' t')
  then show ?case
    unfolding aes_gcm_def using aes.gcm.seal_prefix [of k n p a c t p' a' t'] by simp
next
  case (6 k)
  then show ?case by (simp add: aes_gcm_New_def aes_gcm_def cipher_NewGCM_def)
qed

lemma aes_gcm_constructors [simp]:
  "length key = 32 \<Longrightarrow> aes_NewCipher key = Ok (aes_block key)"
  "cipher_NewGCM (aes_block key) = Ok (aes_gcm key)"
  by (simp_all add: cipher_NewGCM_def aes_gcm_def)

end
