(* ===== verification/Format.thy ===== *)
theory Format
  imports Modes
begin

text \<open>
  The wire format constants of \<^verbatim>\<open>src/format.go\<close>.
\<close>

definition VersionAEADv1 :: byte where
  "VersionAEADv1 = 0x01"

definition VersionAEADv2 :: byte where
  "VersionAEADv2 = 0x02"

definition VersionAEADv3 :: byte where
  "VersionAEADv3 = 0x03"

definition AEADKeySize :: nat where
  "AEADKeySize = 32"

definition aeadNonceSize :: nat where
  "aeadNonceSize = 12"

definition aeadTagSize :: nat where
  "aeadTagSize = 16"

definition aeadHeaderSize :: nat where
  "aeadHeaderSize = 1 + aeadNonceSize"

definition aeadMinSize :: nat where
  "aeadMinSize = aeadHeaderSize + aeadTagSize"

definition keyRingMaxKidLen :: nat where
  "keyRingMaxKidLen = 64"

lemmas format_defs =
  VersionAEADv1_def VersionAEADv2_def VersionAEADv3_def AEADKeySize_def aeadNonceSize_def
  aeadTagSize_def aeadHeaderSize_def aeadMinSize_def keyRingMaxKidLen_def

end
