(* ===== verification/RandomSource.thy ===== *)
theory RandomSource
  imports Format
begin

text \<open>
  \<^verbatim>\<open>src/random.go\<close>: the random helpers over the package variable \<^verbatim>\<open>randReader\<close>, which is a reader
  passed in and returned (it can fail, as the tests make it do).
\<close>

definition RandomBytes :: "int \<Rightarrow> reader \<Rightarrow> bytes res \<times> reader" where
  "RandomBytes n rnd =
     (if n \<le> 0 then (Err (Msg ''crypt: RandomBytes n must be positive; got %d''), rnd)
      else read_rand (Wrap ''crypt: random read: %w'') (nat n) rnd)"

definition RandomToken :: "int \<Rightarrow> reader \<Rightarrow> gostring res \<times> reader" where
  "RandomToken n rnd =
     then_do (RandomBytes n rnd) (\<lambda>buf rnd. (Ok (RawURLEncoding_EncodeToString buf), rnd))"

definition RandomHex :: "int \<Rightarrow> reader \<Rightarrow> gostring res \<times> reader" where
  "RandomHex n rnd =
     then_do (RandomBytes n rnd) (\<lambda>buf rnd. (Ok (hex_EncodeToString buf), rnd))"

lemma RandomBytes_Ok_iff:
  "RandomBytes n rnd = (Ok buf, rnd') \<longleftrightarrow>
     0 < n \<and> nat n \<le> length (rd_data rnd) \<and> buf = take (nat n) (rd_data rnd) \<and>
     rnd' = rnd\<lparr>rd_data := drop (nat n) (rd_data rnd)\<rparr>"
  by (auto simp: RandomBytes_def read_rand_Ok)

lemma length_url_encode:
  "length (RawURLEncoding_EncodeToString bs) = (length bs * 4 + 2) div 3"
  by (simp add: RawURLEncoding_EncodeToString_def length_b64_encode)

lemma RandomBytes_fails:
  "\<not> (0 < n \<and> nat n \<le> length (rd_data rnd)) \<Longrightarrow>
     \<exists>e r. RandomBytes n rnd = (Err e, r) \<and> (n > 0 \<or> r = rnd)"
  by (auto simp: RandomBytes_def read_rand_def ReadFull_def)

subsection \<open>All lengths\<close>

text \<open>For every positive length the source can serve, the three helpers return the next \<open>n\<close> bytes of the
  random source and consume exactly those; the token and the hex string decode to these bytes and
  have (4n + 2) div 3 and 2n characters. For other lengths all three fail and read nothing.\<close>

lemma random_helpers:
  "if 0 < n \<and> nat n \<le> length (rd_data rnd)
   then (\<exists>t h. RandomBytes n rnd = (Ok (take (nat n) (rd_data rnd)), rnd\<lparr>rd_data := drop (nat n) (rd_data rnd)\<rparr>) \<and>
     RandomToken n rnd = (Ok t, rnd\<lparr>rd_data := drop (nat n) (rd_data rnd)\<rparr>) \<and>
     RandomHex n rnd = (Ok h, rnd\<lparr>rd_data := drop (nat n) (rd_data rnd)\<rparr>) \<and>
     RawURLEncoding_DecodeString t = Some (take (nat n) (rd_data rnd)) \<and>
     hex_DecodeString h = Some (take (nat n) (rd_data rnd)) \<and>
     length t = (4 * nat n + 2) div 3 \<and> length h = 2 * nat n)
   else \<not> is_ok (fst (RandomBytes n rnd)) \<and> \<not> is_ok (fst (RandomToken n rnd)) \<and> \<not> is_ok (fst (RandomHex n rnd)) \<and>
     (n > 0 \<or> snd (RandomBytes n rnd) = rnd \<and> snd (RandomToken n rnd) = rnd \<and> snd (RandomHex n rnd) = rnd)"
proof (cases "0 < n \<and> nat n \<le> length (rd_data rnd)")
  case True
  then have "RandomBytes n rnd = (Ok (take (nat n) (rd_data rnd)), rnd\<lparr>rd_data := drop (nat n) (rd_data rnd)\<rparr>)"
    by (simp add: RandomBytes_Ok_iff)
  with True show ?thesis
    by (simp add: RandomToken_def RandomHex_def length_url_encode length_hex_encode mult.commute)
next
  case False
  then obtain e r where "RandomBytes n rnd = (Err e, r)" "n > 0 \<or> r = rnd"
    using RandomBytes_fails by blast
  with False show ?thesis by (auto simp: RandomToken_def RandomHex_def)
qed

end
