(* ===== verification/Aead.thy ===== *)
theory Aead
  imports RandomSource
begin

text \<open>
  \<^verbatim>\<open>src/aead.go\<close>: AES-256-GCM sealing and opening with the version 0x01 wire format
  \<open>version || nonce || ciphertext || tag\<close> in unpadded base64url, as package functions and as the
  pre-keyed \<open>Sealer\<close>. The random source is passed through \<open>Seal\<close>; a nil nonce is \<open>None\<close>.
\<close>

subsection \<open>Model\<close>

definition sealWithNonce ::
    "bytes \<Rightarrow> bytes \<Rightarrow> bytes \<Rightarrow> bytes option \<Rightarrow> reader \<Rightarrow> gostring res \<times> reader" where
  "sealWithNonce key plaintext aad nonce rnd =
     (if length key \<noteq> AEADKeySize
      then (Err (Wrap ''%w: AEAD requires %d bytes; got %d'' ErrInvalidKey), rnd)
      else
        then_do (or_err (Wrap ''crypt: aes.NewCipher: %w'') (aes_NewCipher key), rnd) (\<lambda>block rnd.
        then_do (or_err (Wrap ''crypt: cipher.NewGCM: %w'') (cipher_NewGCM block), rnd) (\<lambda>gcm rnd.
        then_do
          (case nonce of
             None \<Rightarrow> read_rand (Wrap ''crypt: random nonce: %w'') aeadNonceSize rnd
           | Some n \<Rightarrow>
               (if length n \<noteq> aeadNonceSize
                then Err (Msg ''crypt: nonce must be %d bytes; got %d'') else Ok n, rnd)) (\<lambda>nonce rnd.
        then_do (aead_Seal gcm nonce plaintext aad, rnd) (\<lambda>ct rnd.
          (Ok (RawURLEncoding_EncodeToString ([VersionAEADv1] @ nonce @ ct)), rnd))))))"

definition Seal :: "bytes \<Rightarrow> bytes \<Rightarrow> bytes \<Rightarrow> reader \<Rightarrow> gostring res \<times> reader" where
  "Seal key plaintext aad rnd = sealWithNonce key plaintext aad None rnd"

definition Open :: "bytes \<Rightarrow> gostring \<Rightarrow> bytes \<Rightarrow> bytes res" where
  "Open key ciphertext aad =
     (if length key \<noteq> AEADKeySize
      then Err (Wrap ''%w: AEAD requires %d bytes; got %d'' ErrInvalidKey)
      else
        and_then (of_option (Wrap ''%w: %v'' ErrInvalidCiphertext)
                   (RawURLEncoding_DecodeString ciphertext)) (\<lambda>raw.
        if length raw < aeadMinSize then Err ErrCiphertextTooShort
        else
          and_then (go_index raw 0) (\<lambda>v.
          if v \<noteq> VersionAEADv1 then Err (Wrap ''%w: 0x%02x'' ErrUnsupportedVersion)
          else
            and_then (or_err (Wrap ''crypt: aes.NewCipher: %w'') (aes_NewCipher key)) (\<lambda>block.
            and_then (or_err (Wrap ''crypt: cipher.NewGCM: %w'') (cipher_NewGCM block)) (\<lambda>gcm.
            and_then (go_slice raw 1 aeadHeaderSize) (\<lambda>nonce.
            and_then (go_slice_from raw aeadHeaderSize) (\<lambda>body.
              or_err (\<lambda>e. Wrap ''%w: %v'' ErrTampered) (aead_Open gcm nonce body aad))))))))"

record Sealer =
  sealer_gcm :: AEAD

definition NewSealer :: "bytes \<Rightarrow> Sealer res" where
  "NewSealer key =
     (if length key \<noteq> AEADKeySize
      then Err (Wrap ''%w: AEAD requires %d bytes; got %d'' ErrInvalidKey)
      else
        and_then (or_err (Wrap ''crypt: aes.NewCipher: %w'') (aes_NewCipher key)) (\<lambda>block.
        and_then (or_err (Wrap ''crypt: cipher.NewGCM: %w'') (cipher_NewGCM block)) (\<lambda>gcm.
          Ok \<lparr>sealer_gcm = gcm\<rparr>)))"

definition Sealer_Seal :: "Sealer \<Rightarrow> bytes \<Rightarrow> bytes \<Rightarrow> reader \<Rightarrow> gostring res \<times> reader" where
  "Sealer_Seal s plaintext aad rnd =
     then_do (read_rand (Wrap ''crypt: random nonce: %w'') aeadNonceSize rnd) (\<lambda>nonce rnd.
     then_do (aead_Seal (sealer_gcm s) nonce plaintext aad, rnd) (\<lambda>ct rnd.
       (Ok (RawURLEncoding_EncodeToString ([VersionAEADv1] @ nonce @ ct)), rnd)))"

definition Sealer_Open :: "Sealer \<Rightarrow> gostring \<Rightarrow> bytes \<Rightarrow> bytes res" where
  "Sealer_Open s ciphertext aad =
     and_then (of_option (Wrap ''%w: %v'' ErrInvalidCiphertext)
                (RawURLEncoding_DecodeString ciphertext)) (\<lambda>raw.
     if length raw < aeadMinSize then Err ErrCiphertextTooShort
     else
       and_then (go_index raw 0) (\<lambda>v.
       if v \<noteq> VersionAEADv1 then Err (Wrap ''%w: 0x%02x'' ErrUnsupportedVersion)
       else
         and_then (go_slice raw 1 aeadHeaderSize) (\<lambda>nonce.
         and_then (go_slice_from raw aeadHeaderSize) (\<lambda>body.
           or_err (\<lambda>e. Wrap ''%w: %v'' ErrTampered) (aead_Open (sealer_gcm s) nonce body aad)))))"

subsection \<open>Specification\<close>

text \<open>
  What the two directions mean, without the checks: \<open>frame\<close> is the binary layout, and \<open>open_spec\<close> the
  decoder's decision table for a version byte and a cipher, in the order the errors are reported.
\<close>

definition frame :: "byte \<Rightarrow> bytes \<Rightarrow> bytes \<Rightarrow> bytes" where
  "frame v nonce body = v # nonce @ body"

definition open_spec :: "byte \<Rightarrow> AEAD \<Rightarrow> gostring \<Rightarrow> bytes \<Rightarrow> bytes res" where
  "open_spec v c ciphertext aad =
     (case RawURLEncoding_DecodeString ciphertext of
        None \<Rightarrow> Err (Wrap ''%w: %v'' ErrInvalidCiphertext)
      | Some raw \<Rightarrow>
          if length raw < 29 then Err ErrCiphertextTooShort
          else if hd raw \<noteq> v then Err (Wrap ''%w: 0x%02x'' ErrUnsupportedVersion)
          else or_err (\<lambda>e. Wrap ''%w: %v'' ErrTampered)
                 (aead_Open c (take 12 (tl raw)) (drop 13 raw) aad))"

subsection \<open>The decoders implement the specification\<close>

lemma frame_decoder:
  "and_then (of_option (Wrap ''%w: %v'' ErrInvalidCiphertext)
       (RawURLEncoding_DecodeString ciphertext)) (\<lambda>raw.
     if length raw < aeadMinSize then Err ErrCiphertextTooShort
     else
       and_then (go_index raw 0) (\<lambda>v.
       if v \<noteq> ver then Err (Wrap ''%w: 0x%02x'' ErrUnsupportedVersion)
       else
         and_then (go_slice raw 1 aeadHeaderSize) (\<lambda>nonce.
         and_then (go_slice_from raw aeadHeaderSize) (\<lambda>body.
           or_err (\<lambda>e. Wrap ''%w: %v'' ErrTampered) (aead_Open c nonce body aad))))) =
   open_spec ver c ciphertext aad"
proof (cases "RawURLEncoding_DecodeString ciphertext")
  case (Some raw)
  show ?thesis
  proof (cases "length raw < 29")
    case False
    then obtain v rest where "raw = v # rest" by (cases raw) auto
    with Some False show ?thesis
      by (simp add: open_spec_def format_defs go_index_def go_slice_def go_slice_from_def)
  qed (simp add: Some open_spec_def format_defs)
qed (simp add: open_spec_def)

lemma Sealer_Open_spec: "Sealer_Open s ciphertext aad = open_spec VersionAEADv1 (sealer_gcm s) ciphertext aad"
  unfolding Sealer_Open_def by (rule frame_decoder)

lemma Open_spec:
  assumes "length key = 32"
  shows "Open key ciphertext aad = open_spec VersionAEADv1 (aes_gcm key) ciphertext aad"
  using assms frame_decoder [of ciphertext VersionAEADv1 "aes_gcm key" aad]
  by (simp add: Open_def AEADKeySize_def cong: if_cong)

lemma NewSealer_Ok: "length key = 32 \<Longrightarrow> NewSealer key = Ok \<lparr>sealer_gcm = aes_gcm key\<rparr>"
  by (simp add: NewSealer_def AEADKeySize_def)

lemma NewSealer_cases:
  "NewSealer key = Ok s \<longleftrightarrow> length key = 32 \<and> s = \<lparr>sealer_gcm = aes_gcm key\<rparr>"
  using NewSealer_Ok [of key] by (cases "length key = 32") (auto simp: NewSealer_def AEADKeySize_def)

subsection \<open>Properties of the specification, for every cipher that meets the contract\<close>

context aead
begin

lemma open_spec_iff:
  assumes "ok k"
  shows "open_spec v (mk k) s a = Ok p \<longleftrightarrow>
    (\<exists>nonce ct. RawURLEncoding_DecodeString s = Some (frame v nonce ct) \<and> length nonce = 12 \<and>
       aead_Seal (mk k) nonce p a = Ok ct)" (is "?l = ?r")
proof
  assume ?l
  then obtain raw where raw: "RawURLEncoding_DecodeString s = Some raw" "29 \<le> length raw" "hd raw = v"
      and op: "aead_Open (mk k) (take 12 (tl raw)) (drop 13 raw) a = Ok p"
    by (auto simp: open_spec_def or_err_eq_Ok split: option.splits if_splits)
  have n: "length (take 12 (tl raw)) = 12" using raw(2) by simp
  have "raw = frame v (take 12 (tl raw)) (drop 13 raw)"
    using raw(2,3) by (cases raw) (auto simp: frame_def)
  moreover have "aead_Seal (mk k) (take 12 (tl raw)) p a = Ok (drop 13 raw)"
    using op open_iff [OF assms n] by simp
  ultimately show ?r using raw(1) n by metis
next
  assume ?r
  then obtain nonce ct where s: "RawURLEncoding_DecodeString s = Some (frame v nonce ct)"
      "length nonce = 12" "aead_Seal (mk k) nonce p a = Ok ct" by blast
  then have "length ct = length p + 16" and "aead_Open (mk k) nonce ct a = Ok p"
    by (simp_all add: seal_length [OF assms] open_iff [OF assms])
  with s show ?l by (simp add: open_spec_def frame_def)
qed

lemma open_spec_frame:
  assumes "ok k" "length nonce = 12" "aead_Seal (mk k) nonce p a = Ok ct"
  shows "open_spec v (mk k) (RawURLEncoding_EncodeToString (frame v nonce ct)) a = Ok p"
  unfolding open_spec_iff [OF assms(1)] b64url.dec_enc using assms(2,3) by blast

lemma open_spec_no_panic: "ok k \<Longrightarrow> open_spec v (mk k) s a \<noteq> Panic"
  by (auto simp: open_spec_def or_err_eq_Panic open_no_panic split: option.splits)

lemma open_spec_errors:
  assumes "ok k"
  shows "err_is (open_spec v (mk k) s a) ErrTampered \<longleftrightarrow>
      (\<exists>nonce body. RawURLEncoding_DecodeString s = Some (frame v nonce body) \<and>
        length nonce = 12 \<and> 16 \<le> length body \<and> \<not> (\<exists>p. aead_Seal (mk k) nonce p a = Ok body))"
    and "err_is (open_spec v (mk k) s a) ErrUnsupportedVersion \<longleftrightarrow>
      (\<exists>raw. RawURLEncoding_DecodeString s = Some raw \<and> 29 \<le> length raw \<and> hd raw \<noteq> v)"
    and "err_is (open_spec v (mk k) s a) ErrCiphertextTooShort \<longleftrightarrow>
      (\<exists>raw. RawURLEncoding_DecodeString s = Some raw \<and> length raw < 29)"
    and "err_is (open_spec v (mk k) s a) ErrInvalidCiphertext \<longleftrightarrow> RawURLEncoding_DecodeString s = None"
    and "\<not> err_is (open_spec v (mk k) s a) ErrInvalidKey"
    and "open_spec v (mk k) s a \<noteq> Panic"
proof -
  have split: "(\<exists>nonce body. raw = frame v nonce body \<and> length nonce = 12 \<and> 16 \<le> length body \<and> P nonce body) \<longleftrightarrow>
      29 \<le> length raw \<and> hd raw = v \<and> P (take 12 (tl raw)) (drop 13 raw)" for raw P
  proof (intro iffI)
    assume "29 \<le> length raw \<and> hd raw = v \<and> P (take 12 (tl raw)) (drop 13 raw)"
    moreover from this have "raw = frame v (take 12 (tl raw)) (drop 13 raw)"
      by (cases raw) (auto simp: frame_def)
    ultimately show "\<exists>nonce body. raw = frame v nonce body \<and> length nonce = 12 \<and> 16 \<le> length body \<and> P nonce body"
      by (intro exI [of _ "take 12 (tl raw)"] exI [of _ "drop 13 raw"]) auto
  qed (auto simp: frame_def)
  have tampered: "err_is (or_err (\<lambda>e. Wrap ''%w: %v'' ErrTampered) (aead_Open (mk k) n c a)) e \<longleftrightarrow>
      \<not> (\<exists>p. aead_Seal (mk k) n p a = Ok c) \<and> errors_Is (Wrap ''%w: %v'' ErrTampered) e"
    if "length n = 12" for n c e
    using open_iff [OF assms that, of c a] open_no_panic [OF assms that, of c a]
    by (cases "aead_Open (mk k) n c a") auto
  show "err_is (open_spec v (mk k) s a) ErrTampered \<longleftrightarrow>
      (\<exists>nonce body. RawURLEncoding_DecodeString s = Some (frame v nonce body) \<and>
        length nonce = 12 \<and> 16 \<le> length body \<and> \<not> (\<exists>p. aead_Seal (mk k) nonce p a = Ok body))"
    by (auto simp: open_spec_def tampered split split: option.split)
  show "err_is (open_spec v (mk k) s a) ErrUnsupportedVersion \<longleftrightarrow>
      (\<exists>raw. RawURLEncoding_DecodeString s = Some raw \<and> 29 \<le> length raw \<and> hd raw \<noteq> v)"
    "err_is (open_spec v (mk k) s a) ErrCiphertextTooShort \<longleftrightarrow>
      (\<exists>raw. RawURLEncoding_DecodeString s = Some raw \<and> length raw < 29)"
    "err_is (open_spec v (mk k) s a) ErrInvalidCiphertext \<longleftrightarrow> RawURLEncoding_DecodeString s = None"
    "\<not> err_is (open_spec v (mk k) s a) ErrInvalidKey"
    by (auto simp: open_spec_def tampered split: option.split)
  show "open_spec v (mk k) s a \<noteq> Panic" by (rule open_spec_no_panic [OF assms])
qed

lemma open_spec_tag:
  assumes "ok k" "length nonce = 12" "aead_Seal (mk k) nonce p a = Ok (c @ t)"
    "length t = 16" "length t' = 16" "t' \<noteq> t"
  shows "open_spec v (mk k) (RawURLEncoding_EncodeToString (frame v nonce (c @ t'))) a =
    Err (Wrap ''%w: %v'' ErrTampered)"
  using open_tag_unique [OF assms] assms(2,5) by (auto simp: open_spec_def frame_def)

end

subsection \<open>Sealing\<close>

lemma sealWithNonce_nonce:
  assumes "length key = 32" and "length nonce = 12"
  shows "sealWithNonce key p a (Some nonce) rnd =
    then_do (aead_Seal (aes_gcm key) nonce p a, rnd)
      (\<lambda>ct rnd. (Ok (RawURLEncoding_EncodeToString (frame VersionAEADv1 nonce ct)), rnd))"
  using assms by (simp add: sealWithNonce_def format_defs frame_def)

lemma Seal_eq_Sealer:
  "length key = 32 \<Longrightarrow> Seal key p a rnd = Sealer_Seal \<lparr>sealer_gcm = aes_gcm key\<rparr> p a rnd"
  by (simp add: Seal_def sealWithNonce_def Sealer_Seal_def AEADKeySize_def)

lemma Sealer_Seal_Ok_iff:
  "Sealer_Seal s p a rnd = (Ok c, rnd') \<longleftrightarrow>
     12 \<le> length (rd_data rnd) \<and> rnd' = rnd\<lparr>rd_data := drop 12 (rd_data rnd)\<rparr> \<and>
     (\<exists>ct. aead_Seal (sealer_gcm s) (take 12 (rd_data rnd)) p a = Ok ct \<and>
        c = RawURLEncoding_EncodeToString (frame VersionAEADv1 (take 12 (rd_data rnd)) ct))"
  by (auto simp: Sealer_Seal_def then_do_eq_Ok read_rand_Ok format_defs frame_def)

lemma Seal_key_error:
  "length key \<noteq> 32 \<Longrightarrow>
     Seal key p a rnd = (Err (Wrap ''%w: AEAD requires %d bytes; got %d'' ErrInvalidKey), rnd)"
  by (simp add: Seal_def sealWithNonce_def AEADKeySize_def)

lemma Seal_Ok_iff:
  "Seal key p a rnd = (Ok c, rnd') \<longleftrightarrow>
     length key = 32 \<and> 12 \<le> length (rd_data rnd) \<and> rnd' = rnd\<lparr>rd_data := drop 12 (rd_data rnd)\<rparr> \<and>
     (\<exists>ct. aead_Seal (aes_gcm key) (take 12 (rd_data rnd)) p a = Ok ct \<and>
        c = RawURLEncoding_EncodeToString (frame VersionAEADv1 (take 12 (rd_data rnd)) ct))"
  by (cases "length key = 32") (simp_all add: Seal_eq_Sealer Sealer_Seal_Ok_iff Seal_key_error)

lemma Open_key_error:
  "length key \<noteq> 32 \<Longrightarrow>
     Open key s a = Err (Wrap ''%w: AEAD requires %d bytes; got %d'' ErrInvalidKey)"
  by (simp add: Open_def AEADKeySize_def)

lemma Open_Ok_iff:
  "Open key s a = Ok p \<longleftrightarrow>
     length key = 32 \<and>
     (\<exists>nonce ct. RawURLEncoding_DecodeString s = Some (frame VersionAEADv1 nonce ct) \<and>
        length nonce = 12 \<and> aead_Seal (aes_gcm key) nonce p a = Ok ct)"
  by (cases "length key = 32") (simp_all add: Open_spec Open_key_error aes_gcm.open_spec_iff)

lemma Seal_Open:
  assumes "Seal key p a rnd = (Ok c, rnd')"
  shows "Open key c a = Ok p"
proof -
  have "length (take 12 (rd_data rnd)) = 12" using assms by (simp add: Seal_Ok_iff)
  with assms show ?thesis by (auto simp: Seal_Ok_iff Open_spec aes_gcm.open_spec_frame)
qed

lemma Seal_returns:
  assumes "length key = 32" "length p \<le> gcm_max" "12 \<le> length (rd_data rnd)"
  shows "\<exists>c. Seal key p a rnd = (Ok c, rnd\<lparr>rd_data := drop 12 (rd_data rnd)\<rparr>)"
proof -
  have "length (take 12 (rd_data rnd)) = 12" using assms(3) by simp
  from aes_gcm.seal_Ok [OF assms(1) this assms(2)] assms show ?thesis
    by (auto simp: Seal_Ok_iff)
qed

text \<open>Beyond the size GCM can encrypt the standard library panics, after the nonce was drawn.\<close>

lemma Seal_too_long:
  assumes "length key = 32" and "gcm_max < length p" and "12 \<le> length (rd_data rnd)"
  shows "Seal key p a rnd = (Panic, rnd\<lparr>rd_data := drop 12 (rd_data rnd)\<rparr>)"
  using assms
  by (simp add: Seal_def sealWithNonce_def read_rand_enough AEADKeySize_def aeadNonceSize_def aes_gcm_def gcm_aead_def gcm_Seal_def)

text \<open>The same for a \<^verbatim>\<open>Sealer\<close> in the hands of a client.\<close>

lemma Sealer_Seal_Open:
  assumes "NewSealer key = Ok s" and "Sealer_Seal s p a rnd = (Ok c, rnd')"
  shows "Sealer_Open s c a = Ok p"
proof -
  have s: "s = \<lparr>sealer_gcm = aes_gcm key\<rparr>" "length key = 32" using assms(1) by (simp_all add: NewSealer_cases)
  then have "Seal key p a rnd = (Ok c, rnd')" using assms(2) by (simp add: Seal_eq_Sealer)
  from Seal_Open [OF this] s show ?thesis by (simp add: Sealer_Open_spec Open_spec)
qed

lemma Sealer_Seal_returns:
  assumes "NewSealer key = Ok s" and "length p \<le> gcm_max" and "12 \<le> length (rd_data rnd)"
  shows "\<exists>c. Sealer_Seal s p a rnd = (Ok c, rnd\<lparr>rd_data := drop 12 (rd_data rnd)\<rparr>) \<and> Sealer_Open s c a = Ok p"
proof -
  have s: "s = \<lparr>sealer_gcm = aes_gcm key\<rparr>" "length key = 32" using assms(1) by (simp_all add: NewSealer_cases)
  from Seal_returns [OF s(2) assms(2,3), of a] obtain c
    where "Sealer_Seal s p a rnd = (Ok c, rnd\<lparr>rd_data := drop 12 (rd_data rnd)\<rparr>)"
    using s by (auto simp: Seal_eq_Sealer)
  with Sealer_Seal_Open [OF assms(1) this] show ?thesis by blast
qed

lemma Seal_length:
  assumes "Seal key p a rnd = (Ok c, rnd')"
  shows "length c = ((29 + length p) * 4 + 2) div 3"
proof -
  obtain ct where "length key = 32" "12 \<le> length (rd_data rnd)"
      "aead_Seal (aes_gcm key) (take 12 (rd_data rnd)) p a = Ok ct"
      "c = RawURLEncoding_EncodeToString (frame VersionAEADv1 (take 12 (rd_data rnd)) ct)"
    using assms by (auto simp: Seal_Ok_iff)
  moreover from this have "length ct = length p + 16" by (intro aes_gcm.seal_length) auto
  ultimately show ?thesis by (simp add: length_url_encode frame_def add.commute)
qed

lemma Open_no_panic: "Open key s a \<noteq> Panic"
  by (cases "length key = 32") (simp_all add: Open_spec Open_key_error aes_gcm.open_spec_no_panic)

text \<open>\<^verbatim>\<open>Open\<close> reads its text argument only through the decoder.\<close>

lemma Open_decodes:
  "RawURLEncoding_DecodeString s = RawURLEncoding_DecodeString s' \<Longrightarrow> Open key s a = Open key s' a"
  by (simp add: Open_def)

lemma Seal_decodes:
  assumes "Seal key p a rnd = (Ok c, rnd')"
  shows "\<exists>raw. RawURLEncoding_DecodeString c = Some raw \<and> 29 \<le> length raw \<and> raw ! 0 = 0x01"
proof -
  obtain ct where "length key = 32" "12 \<le> length (rd_data rnd)"
      "aead_Seal (aes_gcm key) (take 12 (rd_data rnd)) p a = Ok ct"
      "c = RawURLEncoding_EncodeToString (frame VersionAEADv1 (take 12 (rd_data rnd)) ct)"
    using assms by (auto simp: Seal_Ok_iff)
  moreover from this have "length ct = length p + 16" by (intro aes_gcm.seal_length) auto
  ultimately show ?thesis by (simp add: frame_def VersionAEADv1_def)
qed

lemma sealWithNonce_Ok_iff:
  "sealWithNonce key p a (Some nonce) rnd = (Ok c, rnd') \<longleftrightarrow>
     length key = 32 \<and> length nonce = 12 \<and> rnd' = rnd \<and>
     (\<exists>ct. aead_Seal (aes_gcm key) nonce p a = Ok ct \<and>
        c = RawURLEncoding_EncodeToString (frame VersionAEADv1 nonce ct))"
  by (cases "length key = 32") (auto simp: sealWithNonce_def then_do_eq_Ok format_defs frame_def split: if_splits)

lemma sealWithNonce_frame:
  assumes "length key = 32" "length nonce = 12" "length p \<le> gcm_max"
  shows "\<exists>c m t. sealWithNonce key p a (Some nonce) rnd = (Ok c, rnd) \<and>
    RawURLEncoding_DecodeString c = Some (m @ t) \<and> length t = 16"
proof -
  obtain ct where ct: "aead_Seal (aes_gcm key) nonce p a = Ok ct" "length ct = length p + 16"
    using aes_gcm.seal_obtain [OF assms] by metis
  have "frame VersionAEADv1 nonce ct = frame VersionAEADv1 nonce (take (length p) ct) @ drop (length p) ct"
    by (simp add: frame_def)
  with ct assms show ?thesis
    unfolding sealWithNonce_Ok_iff by (metis b64url.dec_enc add_diff_cancel_left' length_drop)
qed

lemma sealed_tag_unique:
  assumes "sealWithNonce key p a (Some nonce) rnd = (Ok c, rnd')"
    and "RawURLEncoding_DecodeString c = Some (m @ t)" and "length t = 16"
    and "length t' = 16" and "t' \<noteq> t"
  shows "Open key (RawURLEncoding_EncodeToString (m @ t')) a = Err (Wrap ''%w: %v'' ErrTampered)"
proof -
  obtain ct where key: "length key = 32" and n: "length nonce = 12"
      and ct: "aead_Seal (aes_gcm key) nonce p a = Ok ct" and raw: "m @ t = frame VersionAEADv1 nonce ct"
    using assms(1,2) by (auto simp: sealWithNonce_Ok_iff)
  have "16 \<le> length ct" using aes_gcm.seal_length [OF key ct] by simp
  then have split: "take (length ct - 16) ct @ drop (length ct - 16) ct = ct"
      "length (drop (length ct - 16) ct) = 16" by simp_all
  have "m @ t = (frame VersionAEADv1 nonce (take (length ct - 16) ct)) @ drop (length ct - 16) ct"
    by (simp add: raw frame_def)
  then have m: "m = frame VersionAEADv1 nonce (take (length ct - 16) ct)" "t = drop (length ct - 16) ct"
    using assms(3) split(2) append_eq_append_conv by metis+
  have "aead_Seal (aes_gcm key) nonce p a = Ok (take (length ct - 16) ct @ t)"
    using ct m(2) split(1) by simp
  from aes_gcm.open_spec_tag [OF key n this assms(3-5)] show ?thesis
    by (simp add: Open_spec [OF key] m(1) frame_def)
qed

lemma frame_not_Nil: "frame v n ct \<noteq> []"
  by (simp add: frame_def)

lemma sealed_last_char:
  assumes "Seal key p a rnd = (Ok c, rnd')" and "length p mod 3 = 2"
  shows "\<exists>m b. RawURLEncoding_DecodeString c = Some (m @ [b]) \<and> (\<forall>x v. b64_index url_alphabet x 0 = Some v \<longrightarrow>
    Open key (butlast c @ [x]) a = (if drop_bit 4 v = take_bit 2 b then Ok p else Err (Wrap ''%w: %v'' ErrTampered)))"
proof -
  let ?n = "take 12 (rd_data rnd)"
  obtain ct where key: "length key = 32" and n: "length ?n = 12"
      and ct: "aead_Seal (aes_gcm key) ?n p a = Ok ct"
      and c: "c = RawURLEncoding_EncodeToString (frame VersionAEADv1 ?n ct)"
    using assms(1) by (auto simp: Seal_Ok_iff)
  have len: "length ct = length p + 16" using aes_gcm.seal_length [OF key ct] .
  obtain m b where mb: "frame VersionAEADv1 ?n ct = m @ [b]"
    using append_butlast_last_id [of "frame VersionAEADv1 ?n ct"] by (metis frame_not_Nil)
  have lm: "length m = 28 + length p" using arg_cong [OF mb, of length] len n by (simp add: frame_def)
  then have dvd: "3 dvd length m" using assms(2) by presburger
  obtain w t where w: "m = w @ t" "length t = 15"
  proof
    show "m = take (length m - 15) m @ drop (length m - 15) m" by simp
  qed (use lm in simp)
  have snn: "sealWithNonce key p a (Some ?n) rnd = (Ok c, rnd)"
    using key n ct c by (auto simp: sealWithNonce_Ok_iff)
  have dec: "RawURLEncoding_DecodeString c = Some (w @ (t @ [b]))" by (simp add: c mb w)
  show ?thesis
  proof (intro exI [of _ m] exI [of _ b] conjI allI impI)
    show "RawURLEncoding_DecodeString c = Some (m @ [b])" by (simp add: c mb)
  next
    fix x v assume xv: "b64_index url_alphabet x 0 = Some v"
    let ?b = "push_bit 2 (drop_bit 2 b) OR drop_bit 4 v"
    have "RawURLEncoding_DecodeString (butlast c @ [x]) = Some (m @ [?b])"
      using b64_replace_last [OF alphabet_wf(1-4) dvd xv, of b]
      by (simp add: c mb RawURLEncoding_EncodeToString_def RawURLEncoding_DecodeString_def)
    then have op: "Open key (butlast c @ [x]) a = Open key (RawURLEncoding_EncodeToString (w @ (t @ [?b]))) a"
      by (intro Open_decodes) (simp add: w)
    have "unat v < 64" using b64_index_bound [OF xv] by (simp add: alphabet_wf)
    note eq = low_bits_replaced [OF this, of b]
    show "Open key (butlast c @ [x]) a =
        (if drop_bit 4 v = take_bit 2 b then Ok p else Err (Wrap ''%w: %v'' ErrTampered))"
    proof (cases "?b = b")
      case True
      then have "Open key (butlast c @ [x]) a = Open key c a"
        unfolding op by (intro Open_decodes) (simp add: dec)
      with True eq Seal_Open [OF assms(1)] show ?thesis by simp
    next
      case False
      then have "Open key (RawURLEncoding_EncodeToString (w @ (t @ [?b]))) a = Err (Wrap ''%w: %v'' ErrTampered)"
        by (intro sealed_tag_unique [OF snn dec]) (simp_all add: w)
      with False eq show ?thesis by (simp add: op)
    qed
  qed
qed

subsection \<open>Properties\<close>

text \<open>Property C1: sealing a plaintext of admissible length with a 32-byte key returns (it needs 12 random
  bytes and consumes exactly those), opening the result with the same key and associated data gives
  the plaintext back, and the ciphertext has the length of 29 + |plaintext| bytes in unpadded base64.\<close>

theorem seal_open_roundtrip:
  assumes "length key = 32" and "length p \<le> gcm_max" and "12 \<le> length (rd_data rnd)"
  shows "\<exists>c. Seal key p a rnd = (Ok c, rnd\<lparr>rd_data := drop 12 (rd_data rnd)\<rparr>) \<and>
    Open key c a = Ok p \<and> length c = ((29 + length p) * 4 + 2) div 3"
proof -
  obtain c where c: "Seal key p a rnd = (Ok c, rnd\<lparr>rd_data := drop 12 (rd_data rnd)\<rparr>)"
    using Seal_returns [OF assms] by blast
  then show ?thesis using Seal_Open [OF c] Seal_length [OF c] by blast
qed

lemma seal_open_roundtrip_witness:
  "\<exists>c. Seal (replicate 32 7) [1, 2, 3] [4] \<lparr>rd_data = replicate 12 9, rd_end = EOF\<rparr> =
       (Ok c, \<lparr>rd_data = [], rd_end = EOF\<rparr>) \<and>
     Open (replicate 32 7) c [4] = Ok [1, 2, 3] \<and> length c = 43"
  using seal_open_roundtrip [of "replicate 32 7" "[1, 2, 3]" "\<lparr>rd_data = replicate 12 9, rd_end = EOF\<rparr>" "[4]"]
  by (simp add: gcm_max_def)

text \<open>Property C2: \<^verbatim>\<open>Open\<close> returns a plaintext exactly for the strings that decode to what sealing that plaintext
  under the same key and associated data, with some nonce, produces. Nothing else is accepted.\<close>

theorem open_accepts_exactly:
  "Open key s a = Ok p \<longleftrightarrow>
     (\<exists>nonce c. sealWithNonce key p a (Some nonce) rnd = (Ok c, rnd) \<and>
        RawURLEncoding_DecodeString s = RawURLEncoding_DecodeString c)"
proof (cases "length key = 32")
  case True
  show ?thesis unfolding Open_Ok_iff sealWithNonce_Ok_iff using True by (metis b64url.dec_enc)
qed (simp add: Open_Ok_iff sealWithNonce_Ok_iff)

text \<open>Property C14: \<^verbatim>\<open>Open\<close> reports \<open>ErrTampered\<close> exactly when the key has the right length, the text decodes to a
  frame with version byte 0x01 and at least 29 bytes, and no plaintext seals to its body under its
  nonce. The other three error classes are those of the guards before it, and no input makes it panic.\<close>

theorem open_error_classes:
  "(err_is (Open key s a) ErrTampered \<longleftrightarrow>
     length key = 32 \<and> (\<exists>nonce body. RawURLEncoding_DecodeString s = Some (frame VersionAEADv1 nonce body) \<and>
       length nonce = 12 \<and> 16 \<le> length body \<and> \<not> (\<exists>p. aead_Seal (aes_gcm key) nonce p a = Ok body))) \<and>
   (err_is (Open key s a) ErrUnsupportedVersion \<longleftrightarrow>
     length key = 32 \<and> (\<exists>raw. RawURLEncoding_DecodeString s = Some raw \<and> 29 \<le> length raw \<and> hd raw \<noteq> 0x01)) \<and>
   (err_is (Open key s a) ErrCiphertextTooShort \<longleftrightarrow>
     length key = 32 \<and> (\<exists>raw. RawURLEncoding_DecodeString s = Some raw \<and> length raw < 29)) \<and>
   (err_is (Open key s a) ErrInvalidCiphertext \<longleftrightarrow> length key = 32 \<and> RawURLEncoding_DecodeString s = None) \<and>
   (err_is (Open key s a) ErrInvalidKey \<longleftrightarrow> length key \<noteq> 32) \<and>
   Open key s a \<noteq> Panic"
proof (cases "length key = 32")
  case True
  show ?thesis
    using aes_gcm.open_spec_errors [OF True, of VersionAEADv1 s a] True
    by (simp add: Open_spec) (simp add: VersionAEADv1_def)
qed (simp add: Open_key_error)

text \<open>Replacing the 16 tag bytes of a sealed message by any others makes \<^verbatim>\<open>Open\<close> report
  \<open>ErrTampered\<close>: no second tag is accepted for the same nonce, ciphertext and associated data.\<close>

lemma tampered_tag_rejected:
  assumes "sealWithNonce key p a (Some nonce) rnd = (Ok c, rnd')"
    and "RawURLEncoding_DecodeString c = Some (m @ t)" and "length t = 16"
    and "length t' = 16" and "t' \<noteq> t"
  shows "Open key (RawURLEncoding_EncodeToString (m @ t')) a = Err (Wrap ''%w: %v'' ErrTampered)"
  by (rule sealed_tag_unique [OF assms])

text \<open>A \<open>Sealer\<close> made from a key seals and opens as the package functions do with that key, on every
  branch, errors included; and \<^verbatim>\<open>NewSealer\<close> fails exactly for keys that are not 32 bytes.\<close>

lemma sealer_equivalent:
  "case NewSealer key of
     Ok s \<Rightarrow> (\<forall>p a rnd c. Sealer_Seal s p a rnd = Seal key p a rnd \<and> Sealer_Open s c a = Open key c a)
   | Err e \<Rightarrow> length key \<noteq> 32 \<and> errors_Is e ErrInvalidKey
   | Panic \<Rightarrow> False"
proof (cases "length key = 32")
  case True
  then show ?thesis by (simp add: NewSealer_Ok Seal_eq_Sealer Open_spec Sealer_Open_spec)
next
  case False
  then show ?thesis by (simp add: NewSealer_def AEADKeySize_def)
qed

text \<open>Property C15: the tag protects the decoded bytes, not the text. For a sealed message whose data is one byte
  past a multiple of three, exactly 16 of the 64 possible last characters open to the plaintext (the decoder
  ignores the four spare bits) and the other 48 are reported as \<open>ErrTampered\<close>; a line feed appended to the text
  is ignored as well.\<close>

theorem sealed_text_malleable:
  assumes "Seal key p a rnd = (Ok c, rnd')" and "length p mod 3 = 2"
  shows "length (filter (\<lambda>x. Open key (butlast c @ [x]) a = Ok p) url_alphabet) = 16 \<and>
    length (filter (\<lambda>x. Open key (butlast c @ [x]) a = Err (Wrap ''%w: %v'' ErrTampered)) url_alphabet) = 48 \<and>
    Open key (c @ [10]) a = Ok p"
proof -
  obtain b where b: "\<forall>x v. b64_index url_alphabet x 0 = Some v \<longrightarrow> Open key (butlast c @ [x]) a =
      (if drop_bit 4 v = take_bit 2 b then Ok p else Err (Wrap ''%w: %v'' ErrTampered))"
    using sealed_last_char [OF assms] by blast
  let ?S = "\<lambda>v. drop_bit 4 (word_of_nat v :: byte) = take_bit 2 b"
  have idx: "b64_index url_alphabet (url_alphabet ! v) 0 = Some (word_of_nat v)" if "v < 64" for v
    using b64_index_nth [OF alphabet_wf(1), of v 0] that by (simp add: alphabet_wf)
  have al: "url_alphabet = map ((!) url_alphabet) [0..<64]"
    using map_nth [of url_alphabet] by (simp add: alphabet_wf)
  have out: "Open key (butlast c @ [url_alphabet ! v]) a =
      (if ?S v then Ok p else Err (Wrap ''%w: %v'' ErrTampered))" if "v < 64" for v
    using b idx [OF that] by blast
  have count: "length (filter P url_alphabet) = length (filter (\<lambda>v. P (url_alphabet ! v)) [0..<64])" for P
    by (subst al) (simp add: filter_map comp_def)
  have yes: "length (filter (\<lambda>x. Open key (butlast c @ [x]) a = Ok p) url_alphabet) = 16"
    unfolding count spare_bits_count [of b, symmetric] by (intro arg_cong [of _ _ length] filter_cong) (auto simp: out)
  have "length (filter (\<lambda>x. Open key (butlast c @ [x]) a = Err (Wrap ''%w: %v'' ErrTampered)) url_alphabet)
      = length (filter (\<lambda>v. \<not> ?S v) [0..<64])"
    unfolding count by (intro arg_cong [of _ _ length] filter_cong) (auto simp: out)
  also have "\<dots> = 48" using sum_length_filter_compl [of ?S "[0..<64]"] spare_bits_count [of b] by simp
  finally show ?thesis
    using yes Seal_Open [OF assms(1)] Open_decodes [OF RawURLEncoding_line_feed] by simp
qed

lemma sealed_text_malleable_witness:
  "\<exists>c. Seal (replicate 32 7) [1, 2] [4] \<lparr>rd_data = replicate 12 9, rd_end = EOF\<rparr> = (Ok c, \<lparr>rd_data = [], rd_end = EOF\<rparr>) \<and>
     length (filter (\<lambda>x. Open (replicate 32 7) (butlast c @ [x]) [4] = Ok [1, 2]) url_alphabet) = 16"
proof -
  obtain c where c: "Seal (replicate 32 7) [1, 2] [4] \<lparr>rd_data = replicate 12 9, rd_end = EOF\<rparr> =
      (Ok c, \<lparr>rd_data = [], rd_end = EOF\<rparr>)"
    using Seal_returns [of "replicate 32 7" "[1, 2]" "\<lparr>rd_data = replicate 12 9, rd_end = EOF\<rparr>" "[4]"]
    by (auto simp: gcm_max_def)
  with sealed_text_malleable [OF c] show ?thesis by simp
qed

end
