(* ===== verification/KeyRing.thy ===== *)
theory KeyRing
  imports Aead
begin

text \<open>
  \<^verbatim>\<open>src/keyring.go\<close>: key rotation. The ring is a record with the active key id and the two maps of the
  struct; \<^verbatim>\<open>Add\<close>, \<^verbatim>\<open>Remove\<close> and \<^verbatim>\<open>SetActive\<close> return the changed ring. Go iterates a map in an unspecified
  order, so the operations that iterate take that order as the argument \<open>order\<close>: any enumeration of
  the ring's key ids (\<open>valid_order\<close>).

  The theory proves the ring's invariant, that the ring refines a plain map from key ids to raw keys,
  and that a ciphertext stays readable through every history of operations that keeps its key.
\<close>

subsection \<open>Model\<close>

record KeyRing =
  kr_active :: gostring
  kr_keys :: "gostring \<rightharpoonup> AEAD"
  kr_rawKeys :: "gostring \<rightharpoonup> bytes"

definition validKid :: "gostring \<Rightarrow> unit res" where
  "validKid kid =
     (if length kid = 0 then Err (Msg ''crypt: kid must be non-empty'')
      else if keyRingMaxKidLen < length kid
      then Err (Msg ''crypt: kid length %d exceeds limit %d'')
      else Ok ())"

definition NewKeyRing :: "gostring \<Rightarrow> bytes \<Rightarrow> KeyRing res" where
  "NewKeyRing activeKid activeKey =
     and_then (validKid activeKid) (\<lambda>_.
     if length activeKey \<noteq> AEADKeySize
     then Err (Wrap ''%w: KeyRing requires %d bytes; got %d'' ErrInvalidKey)
     else
       and_then (or_err (Wrap ''crypt: aes.NewCipher: %w'') (aes_NewCipher activeKey)) (\<lambda>block.
       and_then (or_err (Wrap ''crypt: cipher.NewGCM: %w'') (cipher_NewGCM block)) (\<lambda>gcm.
         Ok \<lparr>kr_active = activeKid,
             kr_keys = [activeKid \<mapsto> gcm],
             kr_rawKeys = [activeKid \<mapsto> activeKey]\<rparr>)))"

definition KeyRing_Add :: "KeyRing \<Rightarrow> gostring \<Rightarrow> bytes \<Rightarrow> unit res \<times> KeyRing" where
  "KeyRing_Add r kid key =
     then_do (validKid kid, r) (\<lambda>_ r.
     if kr_keys r kid \<noteq> None then (Err (Msg ''crypt: KeyRing already has kid %q''), r)
     else if length key \<noteq> AEADKeySize
     then (Err (Wrap ''%w: KeyRing requires %d bytes; got %d'' ErrInvalidKey), r)
     else
       then_do (or_err (Wrap ''crypt: aes.NewCipher: %w'') (aes_NewCipher key), r) (\<lambda>block r.
       then_do (or_err (Wrap ''crypt: cipher.NewGCM: %w'') (cipher_NewGCM block), r) (\<lambda>gcm r.
         (Ok (), r\<lparr>kr_keys := (kr_keys r)(kid \<mapsto> gcm),
                   kr_rawKeys := (kr_rawKeys r)(kid \<mapsto> key)\<rparr>))))"

definition KeyRing_Remove :: "KeyRing \<Rightarrow> gostring \<Rightarrow> unit res \<times> KeyRing" where
  "KeyRing_Remove r kid =
     (if kid = kr_active r then (Err (Msg ''crypt: cannot remove active kid %q''), r)
      else if kr_keys r kid = None then (Err (Msg ''crypt: KeyRing has no kid %q''), r)
      else (Ok (), r\<lparr>kr_keys := (kr_keys r)(kid := None),
                     kr_rawKeys := (kr_rawKeys r)(kid := None)\<rparr>))"

definition KeyRing_ActiveKid :: "KeyRing \<Rightarrow> gostring" where
  "KeyRing_ActiveKid r = kr_active r"

definition KeyRing_SetActive :: "KeyRing \<Rightarrow> gostring \<Rightarrow> unit res \<times> KeyRing" where
  "KeyRing_SetActive r kid =
     (if kr_keys r kid = None then (Err (Msg ''crypt: KeyRing has no kid %q''), r)
      else (Ok (), r\<lparr>kr_active := kid\<rparr>))"

text \<open>A missing map entry is a nil \<^verbatim>\<open>cipher.AEAD\<close>, and a method call on it panics.\<close>

definition KeyRing_Seal :: "KeyRing \<Rightarrow> bytes \<Rightarrow> bytes \<Rightarrow> reader \<Rightarrow> gostring res \<times> reader" where
  "KeyRing_Seal r plaintext aad rnd =
     (let gcm = kr_keys r (kr_active r); kidBytes = kr_active r in
      then_do (read_rand (Wrap ''crypt: random nonce: %w'') aeadNonceSize rnd) (\<lambda>nonce rnd.
      then_do (case gcm of None \<Rightarrow> Panic | Some g \<Rightarrow> aead_Seal g nonce plaintext aad, rnd) (\<lambda>ct rnd.
        (Ok (RawURLEncoding_EncodeToString
          ([VersionAEADv3] @ [word_of_nat (length kidBytes)] @ kidBytes @ nonce @ ct)), rnd))))"

definition kidsActiveFirst :: "KeyRing \<Rightarrow> gostring list \<Rightarrow> gostring list" where
  "kidsActiveFirst r order = kr_active r # filter (\<lambda>kid. kid \<noteq> kr_active r) order"

definition openV1WithAEAD :: "AEAD option \<Rightarrow> bytes \<Rightarrow> bytes \<Rightarrow> bytes res" where
  "openV1WithAEAD gcm raw aad =
     (if length raw < aeadMinSize then Err ErrCiphertextTooShort
      else
        and_then (go_index raw 0) (\<lambda>v.
        if v \<noteq> VersionAEADv1 then Err ErrUnsupportedVersion
        else
          and_then (go_slice raw 1 aeadHeaderSize) (\<lambda>nonce.
          and_then (go_slice_from raw aeadHeaderSize) (\<lambda>body.
            case gcm of None \<Rightarrow> Panic | Some g \<Rightarrow> aead_Open g nonce body aad))))"

fun openV1_loop :: "KeyRing \<Rightarrow> bytes \<Rightarrow> bytes \<Rightarrow> gostring list \<Rightarrow> bytes res" where
  "openV1_loop r raw aad [] = Err (Wrap ''%w: no key in ring opens this v1 ciphertext'' ErrTampered)"
| "openV1_loop r raw aad (kid # kids) =
     (case openV1WithAEAD (kr_keys r kid) raw aad of
        Ok pt \<Rightarrow> Ok pt
      | Err e \<Rightarrow> openV1_loop r raw aad kids
      | Panic \<Rightarrow> Panic)"

definition openV3 :: "KeyRing \<Rightarrow> bytes \<Rightarrow> bytes \<Rightarrow> bytes res" where
  "openV3 r raw aad =
     (if length raw < 2 then Err ErrCiphertextTooShort
      else
        and_then (go_index raw 1) (\<lambda>b.
        let kidLen = unat b in
        if kidLen < 1 \<or> keyRingMaxKidLen < kidLen
        then Err (Wrap ''%w: invalid kid length %d'' ErrInvalidCiphertext)
        else if length raw < 2 + kidLen + aeadNonceSize + aeadTagSize then Err ErrCiphertextTooShort
        else
          and_then (go_slice raw 2 (2 + kidLen)) (\<lambda>kid.
          case kr_keys r kid of
            None \<Rightarrow> Err (Wrap ''%w: no key for kid %q in ring'' ErrTampered)
          | Some gcm \<Rightarrow>
              and_then (go_slice raw (2 + kidLen) (2 + kidLen + aeadNonceSize)) (\<lambda>nonce.
              and_then (go_slice_from raw (2 + kidLen + aeadNonceSize)) (\<lambda>body.
                or_err (\<lambda>e. Wrap ''%w: %v'' ErrTampered) (aead_Open gcm nonce body aad))))))"

definition KeyRing_Open :: "KeyRing \<Rightarrow> gostring list \<Rightarrow> gostring \<Rightarrow> bytes \<Rightarrow> bytes res" where
  "KeyRing_Open r order ciphertext aad =
     and_then (of_option (Wrap ''%w: %v'' ErrInvalidCiphertext)
                (RawURLEncoding_DecodeString ciphertext)) (\<lambda>raw.
     if length raw < aeadMinSize then Err ErrCiphertextTooShort
     else
       and_then (go_index raw 0) (\<lambda>v.
       if v = VersionAEADv1 then openV1_loop r raw aad (kidsActiveFirst r order)
       else if v = VersionAEADv3 then openV3 r raw aad
       else Err (Wrap ''%w: 0x%02x'' ErrUnsupportedVersion)))"

subsection \<open>Invariant, iteration order, histories\<close>

text \<open>
  The invariant: the active id has a key, both maps have the same finitely many ids, every id is valid
  and every cipher is AES-GCM under the 32-byte raw key stored for it.
\<close>

definition ring_wf :: "KeyRing \<Rightarrow> bool" where
  "ring_wf r \<longleftrightarrow>
     kr_active r \<in> dom (kr_keys r) \<and> finite (dom (kr_keys r)) \<and>
     (\<forall>kid. kr_keys r kid = map_option aes_gcm (kr_rawKeys r kid)) \<and>
     (\<forall>kid key. kr_rawKeys r kid = Some key \<longrightarrow> validKid kid = Ok () \<and> length key = 32)"

definition valid_order :: "KeyRing \<Rightarrow> gostring list \<Rightarrow> bool" where
  "valid_order r order \<longleftrightarrow> distinct order \<and> set order = dom (kr_keys r)"

datatype ring_op = OpAdd gostring bytes | OpRemove gostring | OpSetActive gostring

fun ring_exec :: "KeyRing \<Rightarrow> ring_op \<Rightarrow> unit res \<times> KeyRing" where
  "ring_exec r (OpAdd kid key) = KeyRing_Add r kid key"
| "ring_exec r (OpRemove kid) = KeyRing_Remove r kid"
| "ring_exec r (OpSetActive kid) = KeyRing_SetActive r kid"

fun ring_run :: "KeyRing \<Rightarrow> ring_op list \<Rightarrow> KeyRing" where
  "ring_run r [] = r"
| "ring_run r (op # ops) = ring_run (snd (ring_exec r op)) ops"

inductive ring_reachable :: "KeyRing \<Rightarrow> bool" where
  new: "NewKeyRing kid key = Ok r \<Longrightarrow> ring_reachable r"
| step: "ring_reachable r \<Longrightarrow> ring_exec r op = (res, r') \<Longrightarrow> ring_reachable r'"

subsection \<open>Abstract specification\<close>

text \<open>The ring as its clients see it: an active id and a map from ids to raw keys.\<close>

record ring_spec =
  sp_active :: gostring
  sp_keys :: "gostring \<rightharpoonup> bytes"

definition ring_abs :: "KeyRing \<Rightarrow> ring_spec" where
  "ring_abs r = \<lparr>sp_active = kr_active r, sp_keys = kr_rawKeys r\<rparr>"

fun spec_exec :: "ring_spec \<Rightarrow> ring_op \<Rightarrow> bool \<times> ring_spec" where
  "spec_exec s (OpAdd kid key) =
     (if 1 \<le> length kid \<and> length kid \<le> 64 \<and> kid \<notin> dom (sp_keys s) \<and> length key = 32
      then (True, s\<lparr>sp_keys := (sp_keys s)(kid \<mapsto> key)\<rparr>) else (False, s))"
| "spec_exec s (OpRemove kid) =
     (if kid \<noteq> sp_active s \<and> kid \<in> dom (sp_keys s)
      then (True, s\<lparr>sp_keys := (sp_keys s)(kid := None)\<rparr>) else (False, s))"
| "spec_exec s (OpSetActive kid) =
     (if kid \<in> dom (sp_keys s) then (True, s\<lparr>sp_active := kid\<rparr>) else (False, s))"

subsection \<open>The operations keep the invariant and refine the specification\<close>

lemma validKid_iff: "validKid kid = Ok () \<longleftrightarrow> 1 \<le> length kid \<and> length kid \<le> 64"
  by (auto simp: validKid_def keyRingMaxKidLen_def Suc_le_eq)

lemma validKid_cases: "validKid kid = Ok () \<or> (\<exists>e. validKid kid = Err e)"
  by (simp add: validKid_def)

lemma ring_wf_keys:
  assumes "ring_wf r"
  shows "kr_keys r kid = map_option aes_gcm (kr_rawKeys r kid)" and "dom (kr_keys r) = dom (kr_rawKeys r)"
    and "kr_rawKeys r kid = Some key \<Longrightarrow> length key = 32"
    and "kr_rawKeys r kid = Some key \<Longrightarrow> validKid kid = Ok ()"
    and "kr_keys r (kr_active r) \<noteq> None"
  using assms by (auto simp: ring_wf_def dom_def)

lemma NewKeyRing_Ok_iff:
  "NewKeyRing kid key = Ok r \<longleftrightarrow> validKid kid = Ok () \<and> length key = 32 \<and>
     r = \<lparr>kr_active = kid, kr_keys = [kid \<mapsto> aes_gcm key], kr_rawKeys = [kid \<mapsto> key]\<rparr>"
  using validKid_cases [of kid]
  by (cases "length key = 32") (auto simp: NewKeyRing_def AEADKeySize_def)

lemma NewKeyRing_wf: "NewKeyRing kid key = Ok r \<Longrightarrow> ring_wf r"
  by (auto simp: NewKeyRing_Ok_iff ring_wf_def)

lemma KeyRing_Add_Ok:
  "validKid kid = Ok () \<Longrightarrow> kr_keys r kid = None \<Longrightarrow> length key = 32 \<Longrightarrow>
     KeyRing_Add r kid key = (Ok (), r\<lparr>kr_keys := (kr_keys r)(kid \<mapsto> aes_gcm key),
                                       kr_rawKeys := (kr_rawKeys r)(kid \<mapsto> key)\<rparr>)"
  by (simp add: KeyRing_Add_def AEADKeySize_def)

lemma KeyRing_Add_refused:
  "\<not> (validKid kid = Ok () \<and> kr_keys r kid = None \<and> length key = 32) \<Longrightarrow>
     \<exists>e. KeyRing_Add r kid key = (Err e, r)"
  using validKid_cases [of kid] by (auto simp: KeyRing_Add_def AEADKeySize_def)

lemma ring_exec_refines:
  assumes "ring_wf r"
  shows "spec_exec (ring_abs r) op = (is_ok (fst (ring_exec r op)), ring_abs (snd (ring_exec r op)))"
proof (cases op)
  case (OpAdd kid key)
  have none: "kid \<notin> dom (kr_rawKeys r) \<longleftrightarrow> kr_keys r kid = None"
    using ring_wf_keys(1) [OF assms] by (auto simp: dom_def)
  show ?thesis
  proof (cases "validKid kid = Ok () \<and> kr_keys r kid = None \<and> length key = 32")
    case True
    then show ?thesis using none by (auto simp: OpAdd KeyRing_Add_Ok ring_abs_def validKid_iff)
  next
    case False
    then obtain e where "KeyRing_Add r kid key = (Err e, r)" using KeyRing_Add_refused by blast
    with False show ?thesis using none by (auto simp: OpAdd ring_abs_def validKid_iff)
  qed
next
  case (OpRemove kid)
  then show ?thesis
    using ring_wf_keys(1) [OF assms, of kid] by (auto simp: KeyRing_Remove_def ring_abs_def dom_def)
next
  case (OpSetActive kid)
  then show ?thesis
    using ring_wf_keys(1) [OF assms, of kid] by (auto simp: KeyRing_SetActive_def ring_abs_def dom_def)
qed

lemma ring_exec_wf:
  assumes "ring_wf r"
  shows "ring_wf (snd (ring_exec r op))"
proof (cases op)
  case (OpAdd kid key)
  show ?thesis
  proof (cases "validKid kid = Ok () \<and> kr_keys r kid = None \<and> length key = 32")
    case True
    with assms show ?thesis by (auto simp: OpAdd KeyRing_Add_Ok ring_wf_def)
  next
    case False
    then obtain e where "KeyRing_Add r kid key = (Err e, r)" using KeyRing_Add_refused by blast
    with assms show ?thesis by (simp add: OpAdd)
  qed
next
  case (OpRemove kid)
  with assms show ?thesis by (auto simp: KeyRing_Remove_def ring_wf_def split: if_splits)
next
  case (OpSetActive kid)
  with assms show ?thesis by (auto simp: KeyRing_SetActive_def ring_wf_def)
qed

lemma ring_run_wf: "ring_wf r \<Longrightarrow> ring_wf (ring_run r ops)"
  by (induction ops arbitrary: r) (simp_all add: ring_exec_wf)

lemma ring_reachable_wf: "ring_reachable r \<Longrightarrow> ring_wf r"
proof (induction rule: ring_reachable.induct)
  case (new kid key r)
  then show ?case by (rule NewKeyRing_wf)
next
  case (step r op res r')
  then show ?case using ring_exec_wf [of r op] by simp
qed

text \<open>Only removing an id unbinds it: no other operation changes the key stored for an id.\<close>

lemma ring_exec_keeps_key:
  assumes "kr_keys r kid = Some c" and "op \<noteq> OpRemove kid"
  shows "kr_keys (snd (ring_exec r op)) kid = Some c"
proof (cases op)
  case (OpAdd kid' key)
  show ?thesis
  proof (cases "validKid kid' = Ok () \<and> kr_keys r kid' = None \<and> length key = 32")
    case True
    with assms show ?thesis by (auto simp: OpAdd KeyRing_Add_Ok)
  next
    case False
    then obtain e where "KeyRing_Add r kid' key = (Err e, r)" using KeyRing_Add_refused by blast
    with assms show ?thesis by (simp add: OpAdd)
  qed
qed (use assms in \<open>auto simp: KeyRing_Remove_def KeyRing_SetActive_def\<close>)

lemma ring_run_keeps_key:
  "kr_keys r kid = Some c \<Longrightarrow> OpRemove kid \<notin> set ops \<Longrightarrow> kr_keys (ring_run r ops) kid = Some c"
  by (induction ops arbitrary: r) (auto simp: ring_exec_keeps_key)

subsection \<open>Version 0x03 ciphertexts\<close>

definition frame3 :: "gostring \<Rightarrow> bytes \<Rightarrow> bytes \<Rightarrow> bytes" where
  "frame3 kid nonce body = VersionAEADv3 # word_of_nat (length kid) # kid @ nonce @ body"

lemma unat_kid_length: "validKid kid = Ok () \<Longrightarrow> unat (word_of_nat (length kid) :: byte) = length kid"
  by (simp add: validKid_iff unat_of_nat)

lemma openV3_frame3:
  assumes "validKid kid = Ok ()" and "length nonce = 12" and "16 \<le> length body"
  shows "openV3 r (frame3 kid nonce body) aad =
    (case kr_keys r kid of
       None \<Rightarrow> Err (Wrap ''%w: no key for kid %q in ring'' ErrTampered)
     | Some gcm \<Rightarrow> or_err (\<lambda>e. Wrap ''%w: %v'' ErrTampered) (aead_Open gcm nonce body aad))"
proof -
  let ?raw = "frame3 kid nonce body"
  define k where "k = length kid"
  have k: "1 \<le> k" "k \<le> 64" using assms(1) by (simp_all add: validKid_iff k_def)
  have len: "length ?raw = k + (14 + length body)" by (simp add: frame3_def k_def assms(2))
  have idx: "go_index ?raw 1 = Ok (word_of_nat k)" by (simp add: go_index_def frame3_def k_def)
  have slices: "go_slice ?raw 2 (2 + k) = Ok kid" "go_slice ?raw (2 + k) (2 + k + 12) = Ok nonce"
    "go_slice_from ?raw (2 + k + 12) = Ok body"
    using assms(2) by (simp_all add: frame3_def go_slice_def go_slice_from_def drop_Cons' k_def)
  have unat: "unat (word_of_nat k :: byte) = k" using unat_kid_length [OF assms(1)] by (simp add: k_def)
  show ?thesis
    unfolding openV3_def idx len and_then.simps Let_def unat aeadNonceSize_def aeadTagSize_def
      keyRingMaxKidLen_def slices
    using k assms(3) by simp
qed

lemma KeyRing_Open_frame3:
  assumes "validKid kid = Ok ()" and "length nonce = 12" and "16 \<le> length body"
    and "RawURLEncoding_DecodeString s = Some (frame3 kid nonce body)"
  shows "KeyRing_Open r order s aad =
    (case kr_keys r kid of
       None \<Rightarrow> Err (Wrap ''%w: no key for kid %q in ring'' ErrTampered)
     | Some gcm \<Rightarrow> or_err (\<lambda>e. Wrap ''%w: %v'' ErrTampered) (aead_Open gcm nonce body aad))"
proof -
  have "KeyRing_Open r order s aad = openV3 r (frame3 kid nonce body) aad"
    using assms by (simp add: KeyRing_Open_def format_defs go_index_def) (simp add: frame3_def format_defs)
  then show ?thesis by (simp only: openV3_frame3 [OF assms(1-3)])
qed

lemma KeyRing_Seal_Ok:
  assumes "ring_wf r" and "KeyRing_Seal r p a rnd = (Ok c, rnd')"
  obtains key ct where "kr_rawKeys r (kr_active r) = Some key" "kr_keys r (kr_active r) = Some (aes_gcm key)"
    "length key = 32" "validKid (kr_active r) = Ok ()" "12 \<le> length (rd_data rnd)"
    "aead_Seal (aes_gcm key) (take 12 (rd_data rnd)) p a = Ok ct" "length ct = length p + 16"
    "RawURLEncoding_DecodeString c = Some (frame3 (kr_active r) (take 12 (rd_data rnd)) ct)"
    "rnd' = rnd\<lparr>rd_data := drop 12 (rd_data rnd)\<rparr>"
proof -
  obtain key where key: "kr_rawKeys r (kr_active r) = Some key"
      "kr_keys r (kr_active r) = Some (aes_gcm key)"
    using ring_wf_keys(1,5) [OF assms(1)] by force
  note wf = ring_wf_keys(3,4) [OF assms(1) key(1)]
  obtain ct where ct: "12 \<le> length (rd_data rnd)" "rnd' = rnd\<lparr>rd_data := drop 12 (rd_data rnd)\<rparr>"
      "aead_Seal (aes_gcm key) (take 12 (rd_data rnd)) p a = Ok ct"
      "c = RawURLEncoding_EncodeToString (frame3 (kr_active r) (take 12 (rd_data rnd)) ct)"
    using assms(2) key(2)
    by (auto simp: KeyRing_Seal_def then_do_eq_Ok read_rand_Ok format_defs frame3_def Let_def)
  show thesis
    by (rule that) (use key wf ct aes_gcm.seal_length [OF wf(1) ct(3)] in simp_all)
qed

lemma KeyRing_Seal_returns:
  assumes "ring_wf r" and "length p \<le> gcm_max" and "12 \<le> length (rd_data rnd)"
  shows "\<exists>c. KeyRing_Seal r p a rnd = (Ok c, rnd\<lparr>rd_data := drop 12 (rd_data rnd)\<rparr>)"
proof -
  obtain key where key: "kr_rawKeys r (kr_active r) = Some key"
      "kr_keys r (kr_active r) = Some (aes_gcm key)"
    using ring_wf_keys(1,5) [OF assms(1)] by force
  have "length (take 12 (rd_data rnd)) = 12" using assms(3) by simp
  then obtain ct where "aead_Seal (aes_gcm key) (take 12 (rd_data rnd)) p a = Ok ct"
    using aes_gcm.seal_Ok [OF ring_wf_keys(3) [OF assms(1) key(1)] _ assms(2)] by blast
  with key(2) assms(3) show ?thesis
    by (simp add: KeyRing_Seal_def Let_def read_rand_enough aeadNonceSize_def)
qed

lemma KeyRing_Seal_Open:
  assumes "ring_wf r" and "KeyRing_Seal r p a rnd = (Ok c, rnd')"
    and "kr_keys r' (kr_active r) = kr_keys r (kr_active r)"
  shows "KeyRing_Open r' order c a = Ok p"
proof -
  let ?n = "take 12 (rd_data rnd)"
  obtain key ct where k: "kr_keys r (kr_active r) = Some (aes_gcm key)" "length key = 32"
      "validKid (kr_active r) = Ok ()" "12 \<le> length (rd_data rnd)"
      "aead_Seal (aes_gcm key) ?n p a = Ok ct" "length ct = length p + 16"
      "RawURLEncoding_DecodeString c = Some (frame3 (kr_active r) ?n ct)"
    using KeyRing_Seal_Ok [OF assms(1,2)] by metis
  have n: "length ?n = 12" using k(4) by simp
  have "aead_Open (aes_gcm key) ?n ct a = Ok p" using aes_gcm.open_iff [OF k(2) n] k(5) by simp
  then show ?thesis
    using KeyRing_Open_frame3 [OF k(3) n _ k(7)] k(1,6) assms(3) by simp
qed

subsection \<open>Version 0x01 ciphertexts\<close>

lemma openV1WithAEAD_eq:
  "29 \<le> length raw \<Longrightarrow> raw ! 0 = VersionAEADv1 \<Longrightarrow>
     openV1WithAEAD (Some g) raw aad = aead_Open g (take 12 (tl raw)) (drop 13 raw) aad"
  by (cases raw) (simp_all add: openV1WithAEAD_def format_defs go_index_def go_slice_def go_slice_from_def)

lemma openV1_loop_Cons:
  assumes "ring_wf r" and "29 \<le> length raw" and "raw ! 0 = VersionAEADv1" and "kid \<in> dom (kr_keys r)"
  obtains key where "kr_rawKeys r kid = Some key"
    "aead_Open (aes_gcm key) (take 12 (tl raw)) (drop 13 raw) aad \<noteq> Panic"
    "\<And>kids. openV1_loop r raw aad (kid # kids) =
      (case aead_Open (aes_gcm key) (take 12 (tl raw)) (drop 13 raw) aad of
         Ok pt \<Rightarrow> Ok pt | Err e \<Rightarrow> openV1_loop r raw aad kids | Panic \<Rightarrow> Panic)"
proof -
  obtain key where key: "kr_rawKeys r kid = Some key" "kr_keys r kid = Some (aes_gcm key)"
    using assms(4) ring_wf_keys(1) [OF assms(1), of kid] by (auto simp: dom_def)
  have "aead_Open (aes_gcm key) (take 12 (tl raw)) (drop 13 raw) aad \<noteq> Panic"
    by (rule aes_gcm.open_no_panic [OF ring_wf_keys(3) [OF assms(1) key(1)]])
      (use assms(2) in simp)
  then show thesis
    by (rule that [OF key(1)]) (simp add: key(2) openV1WithAEAD_eq assms)
qed

text \<open>
  The loop succeeds exactly when some key of the ring opens the ciphertext, returns what one of them
  returns, and otherwise reports \<open>ErrTampered\<close>.
\<close>

lemma openV1_loop_outcome:
  assumes "ring_wf r" and "29 \<le> length raw" and "raw ! 0 = VersionAEADv1"
    and "set kids \<subseteq> dom (kr_keys r)"
  shows "(\<exists>p. openV1_loop r raw aad kids = Ok p \<and> (\<exists>kid \<in> set kids. \<exists>key. kr_rawKeys r kid = Some key \<and>
            aead_Open (aes_gcm key) (take 12 (tl raw)) (drop 13 raw) aad = Ok p)) \<or>
         (openV1_loop r raw aad kids = Err (Wrap ''%w: no key in ring opens this v1 ciphertext'' ErrTampered) \<and>
          (\<forall>kid \<in> set kids. \<forall>key. kr_rawKeys r kid = Some key \<longrightarrow>
            \<not> is_ok (aead_Open (aes_gcm key) (take 12 (tl raw)) (drop 13 raw) aad)))"
  using assms(4)
proof (induction kids)
  case (Cons kid kids)
  then have kid: "kid \<in> dom (kr_keys r)" by simp
  obtain key where key: "kr_rawKeys r kid = Some key"
      "aead_Open (aes_gcm key) (take 12 (tl raw)) (drop 13 raw) aad \<noteq> Panic"
      "openV1_loop r raw aad (kid # kids) =
        (case aead_Open (aes_gcm key) (take 12 (tl raw)) (drop 13 raw) aad of
           Ok pt \<Rightarrow> Ok pt | Err e \<Rightarrow> openV1_loop r raw aad kids | Panic \<Rightarrow> Panic)"
    using openV1_loop_Cons [OF assms(1-3) kid] by metis
  show ?case
  proof (cases "aead_Open (aes_gcm key) (take 12 (tl raw)) (drop 13 raw) aad")
    case (Ok p)
    with key show ?thesis by auto
  next
    case (Err e)
    with key Cons show ?thesis by (simp add: ex_disj_distrib)
  qed (use key in simp)
qed simp

lemma set_kidsActiveFirst:
  "ring_wf r \<Longrightarrow> valid_order r order \<Longrightarrow> set (kidsActiveFirst r order) = dom (kr_keys r)"
  by (auto simp: kidsActiveFirst_def valid_order_def ring_wf_def)

lemma KeyRing_Open_v1:
  assumes "RawURLEncoding_DecodeString s = Some raw" "29 \<le> length raw" "raw ! 0 = VersionAEADv1"
  shows "KeyRing_Open r order s aad = openV1_loop r raw aad (kidsActiveFirst r order)"
  using assms by (cases raw) (simp_all add: KeyRing_Open_def format_defs go_index_def)

lemma Open_v1:
  assumes "RawURLEncoding_DecodeString s = Some raw" "29 \<le> length raw" "raw ! 0 = VersionAEADv1"
    "length key = 32"
  shows "Open key s aad = or_err (\<lambda>e. Wrap ''%w: %v'' ErrTampered)
     (aead_Open (aes_gcm key) (take 12 (tl raw)) (drop 13 raw) aad)"
  using assms by (cases raw) (simp_all add: Open_spec open_spec_def)

subsection \<open>Opening never panics\<close>

lemma openV3_no_panic:
  assumes "ring_wf r" and "29 \<le> length raw"
  shows "openV3 r raw aad \<noteq> Panic"
proof -
  have np: "aead_Open g n c aad \<noteq> Panic" if "kr_keys r kid = Some g" "length n = 12" for g n c kid
    using that ring_wf_keys(1,3) [OF assms(1)] aes_gcm.open_no_panic by fastforce
  show ?thesis
    using assms(2)
    by (auto simp: openV3_def go_simps Let_def go_index_def go_slice_def go_slice_from_def format_defs
        np split: option.splits)
qed

lemma KeyRing_Open_no_panic:
  assumes "ring_wf r" and "valid_order r order"
  shows "KeyRing_Open r order s aad \<noteq> Panic"
proof -
  have "openV1_loop r raw aad (kidsActiveFirst r order) \<noteq> Panic"
    if "29 \<le> length raw" "raw ! 0 = VersionAEADv1" for raw
    using openV1_loop_outcome [OF assms(1) that, of "kidsActiveFirst r order" aad]
    by (auto simp: set_kidsActiveFirst [OF assms])
  with openV3_no_panic [OF assms(1)] show ?thesis
    by (auto simp: KeyRing_Open_def go_simps go_index_def format_defs)
qed

lemma ring_exec_refused: "\<not> is_ok (fst (ring_exec r op)) \<Longrightarrow> snd (ring_exec r op) = r"
proof (cases op)
  case (OpAdd kid key)
  assume "\<not> is_ok (fst (ring_exec r op))"
  then have "\<not> (validKid kid = Ok () \<and> kr_keys r kid = None \<and> length key = 32)"
    using KeyRing_Add_Ok [of kid r key] by (auto simp: OpAdd)
  then show ?thesis using KeyRing_Add_refused [of kid r key] by (auto simp: OpAdd)
qed (auto simp: KeyRing_Remove_def KeyRing_SetActive_def)

lemma KeyRing_Seal_removed:
  assumes "ring_wf r" and "KeyRing_Seal r p a rnd = (Ok c, rnd')"
    and "kr_keys r' (kr_active r) = None"
  shows "KeyRing_Open r' order c a' = Err (Wrap ''%w: no key for kid %q in ring'' ErrTampered)"
proof -
  let ?n = "take 12 (rd_data rnd)"
  obtain key ct where k: "validKid (kr_active r) = Ok ()" "12 \<le> length (rd_data rnd)"
      "length ct = length p + 16"
      "RawURLEncoding_DecodeString c = Some (frame3 (kr_active r) ?n ct)"
    using KeyRing_Seal_Ok [OF assms(1,2)] by metis
  then show ?thesis using KeyRing_Open_frame3 [OF k(1) _ _ k(4)] assms(3) by simp
qed

lemma KeyRing_Open_v1_outcome:
  assumes "ring_wf r" and "valid_order r order"
    and "RawURLEncoding_DecodeString s = Some raw" and "29 \<le> length raw" and "raw ! 0 = VersionAEADv1"
  shows "is_ok (KeyRing_Open r order s a) \<longleftrightarrow>
      (\<exists>kid key. kr_rawKeys r kid = Some key \<and> is_ok (Open key s a))"
    and "KeyRing_Open r order s a = Ok p \<Longrightarrow>
      \<exists>kid key. kr_rawKeys r kid = Some key \<and> Open key s a = Ok p"
proof -
  let ?open = "\<lambda>key. aead_Open (aes_gcm key) (take 12 (tl raw)) (drop 13 raw) a"
  note kids = set_kidsActiveFirst [OF assms(1,2)] ring_wf_keys(2) [OF assms(1)]
  have op: "Open key s a = Ok q \<longleftrightarrow> ?open key = Ok q" if "kr_rawKeys r kid = Some key" for kid key q
    using Open_v1 [OF assms(3-5) ring_wf_keys(3) [OF assms(1) that], of a] by (simp add: or_err_eq_Ok)
  have dom: "kid \<in> set (kidsActiveFirst r order)" if "kr_rawKeys r kid = Some key" for kid key
    using that kids by auto
  have "set (kidsActiveFirst r order) \<subseteq> dom (kr_keys r)" using kids(1) by simp
  note loop = openV1_loop_outcome [OF assms(1,4,5) this, of a, folded KeyRing_Open_v1 [OF assms(3-5), of r order a]]
  consider q kid key where "KeyRing_Open r order s a = Ok q" "kr_rawKeys r kid = Some key" "Open key s a = Ok q"
    | e where "KeyRing_Open r order s a = Err e" "\<And>kid key. kr_rawKeys r kid = Some key \<Longrightarrow> \<not> is_ok (Open key s a)"
    using loop op dom unfolding is_ok_iff by blast
  note cases = this
  show "is_ok (KeyRing_Open r order s a) \<longleftrightarrow>
      (\<exists>kid key. kr_rawKeys r kid = Some key \<and> is_ok (Open key s a))"
    by (rule cases) (auto simp: is_ok_iff)
  show "KeyRing_Open r order s a = Ok p \<Longrightarrow>
      \<exists>kid key. kr_rawKeys r kid = Some key \<and> Open key s a = Ok p"
    by (rule cases) auto
qed

text \<open>On a reachable ring no ciphertext, however malformed, and no map order makes \<^verbatim>\<open>Open\<close> panic: no
  nil cipher is called and no slice is out of range.\<close>

lemma ring_open_never_panics:
  assumes "ring_reachable r" and "valid_order r order"
  shows "KeyRing_Open r order s a \<noteq> Panic"
  by (rule KeyRing_Open_no_panic [OF ring_reachable_wf [OF assms(1)] assms(2)])

subsection \<open>Properties\<close>

text \<open>Property C8: every ring that \<^verbatim>\<open>NewKeyRing\<close> and any sequence of \<^verbatim>\<open>Add\<close>, \<^verbatim>\<open>Remove\<close> and \<^verbatim>\<open>SetActive\<close> calls can
  produce satisfies the invariant: the active id has a key, both maps hold the same finitely many
  valid ids, and each cipher is AES-256-GCM under the raw key stored beside it.\<close>

theorem reachable_ring_wf:
  assumes "ring_reachable r"
  shows "ring_wf r"
  by (rule ring_reachable_wf [OF assms])

definition demo_ring :: KeyRing where
  "demo_ring = \<lparr>kr_active = lit ''b'',
     kr_keys = [lit ''a'' \<mapsto> aes_gcm (replicate 32 1), lit ''b'' \<mapsto> aes_gcm (replicate 32 2)],
     kr_rawKeys = [lit ''a'' \<mapsto> replicate 32 1, lit ''b'' \<mapsto> replicate 32 2]\<rparr>"

lemma demo_ring_reachable: "ring_reachable demo_ring"
proof -
  let ?r = "\<lparr>kr_active = lit ''a'', kr_keys = [lit ''a'' \<mapsto> aes_gcm (replicate 32 1)],
    kr_rawKeys = [lit ''a'' \<mapsto> replicate 32 1]\<rparr>"
  have 1: "ring_reachable ?r"
    by (rule ring_reachable.new [of "lit ''a''" "replicate 32 1"])
      (simp add: NewKeyRing_Ok_iff validKid_iff lit_def)
  have 2: "ring_exec ?r (OpAdd (lit ''b'') (replicate 32 2)) = (Ok (), demo_ring\<lparr>kr_active := lit ''a''\<rparr>)"
    by (simp add: KeyRing_Add_Ok validKid_iff lit_def demo_ring_def)
  have 3: "ring_exec (demo_ring\<lparr>kr_active := lit ''a''\<rparr>) (OpSetActive (lit ''b'')) = (Ok (), demo_ring)"
    by (simp add: KeyRing_SetActive_def demo_ring_def lit_def)
  show ?thesis by (rule ring_reachable.step [OF ring_reachable.step [OF 1 2] 3])
qed

lemma reachable_ring_wf_witness: "ring_wf demo_ring"
  by (rule reachable_ring_wf [OF demo_ring_reachable])

text \<open>Property C9: the ring refines an active id with a plain map from ids to raw keys: on every reachable ring each
  operation succeeds exactly when the abstract operation does and leads to the abstract successor
  state; a refused operation leaves the ring unchanged.\<close>

theorem ring_refines_map:
  assumes "ring_reachable r"
  shows "spec_exec (ring_abs r) op = (is_ok (fst (ring_exec r op)), ring_abs (snd (ring_exec r op))) \<and>
    (is_ok (fst (ring_exec r op)) \<or> snd (ring_exec r op) = r)"
  using ring_exec_refines [OF ring_reachable_wf [OF assms]] ring_exec_refused by blast+

lemma ring_refines_map_witness:
  "spec_exec (ring_abs demo_ring) (OpRemove (lit ''a'')) = (True, ring_abs (snd (ring_exec demo_ring (OpRemove (lit ''a''))))) \<and>
   ring_exec demo_ring (OpRemove (lit ''b'')) = (Err (Msg ''crypt: cannot remove active kid %q''), demo_ring)"
proof -
  have "is_ok (fst (ring_exec demo_ring (OpRemove (lit ''a''))))"
    "ring_exec demo_ring (OpRemove (lit ''b'')) = (Err (Msg ''crypt: cannot remove active kid %q''), demo_ring)"
    by (simp_all add: KeyRing_Remove_def demo_ring_def lit_def)
  then show ?thesis
    using ring_refines_map [OF demo_ring_reachable, of "OpRemove (lit ''a'')"] by simp
qed

text \<open>Property C3: key rotation keeps data readable. What a reachable ring sealed under its active key is opened by
  the ring after any further operations, whichever key is active then, provided none of them removes
  the id it was sealed under.\<close>

theorem rotation_keeps_readable:
  assumes "ring_reachable r" and "length p \<le> gcm_max" and "12 \<le> length (rd_data rnd)"
    and "OpRemove (kr_active r) \<notin> set ops"
  shows "\<exists>c. KeyRing_Seal r p a rnd = (Ok c, rnd\<lparr>rd_data := drop 12 (rd_data rnd)\<rparr>) \<and>
    KeyRing_Open (ring_run r ops) order c a = Ok p"
proof -
  note wf = ring_reachable_wf [OF assms(1)]
  obtain c where c: "KeyRing_Seal r p a rnd = (Ok c, rnd\<lparr>rd_data := drop 12 (rd_data rnd)\<rparr>)"
    using KeyRing_Seal_returns [OF wf assms(2,3)] by blast
  obtain g where g: "kr_keys r (kr_active r) = Some g" using ring_wf_keys(5) [OF wf] by blast
  have "kr_keys (ring_run r ops) (kr_active r) = kr_keys r (kr_active r)"
    using ring_run_keeps_key [OF g assms(4)] g by simp
  with c show ?thesis using KeyRing_Seal_Open [OF wf c] by blast
qed

lemma rotation_keeps_readable_witness:
  "\<exists>c. fst (KeyRing_Seal demo_ring [1] [] \<lparr>rd_data = replicate 12 0, rd_end = EOF\<rparr>) = Ok c \<and>
     KeyRing_Open (ring_run demo_ring [OpSetActive (lit ''a''), OpAdd (lit ''c'') (replicate 32 3)]) [] c [] = Ok [1]"
proof -
  have "OpRemove (kr_active demo_ring) \<notin> set [OpSetActive (lit ''a''), OpAdd (lit ''c'') (replicate 32 3)]"
    by simp
  from rotation_keeps_readable [OF demo_ring_reachable _ _ this, of "[1]" "\<lparr>rd_data = replicate 12 0, rd_end = EOF\<rparr>" "[]" "[]"]
  show ?thesis by (auto simp: gcm_max_def)
qed

text \<open>Removing a key makes its ciphertexts unreadable: after a successful \<^verbatim>\<open>Remove\<close> of the id a message was
  sealed under, opening it fails with \<open>ErrTampered\<close>.\<close>

lemma removal_makes_unreadable:
  assumes "ring_reachable r" and "KeyRing_Seal r p a rnd = (Ok c, rnd')"
    and "KeyRing_Remove r' (kr_active r) = (Ok (), r'')"
  shows "KeyRing_Open r'' order c a' = Err (Wrap ''%w: no key for kid %q in ring'' ErrTampered)"
proof -
  have "kr_keys r'' (kr_active r) = None"
    using assms(3) by (auto simp: KeyRing_Remove_def split: if_splits)
  then show ?thesis by (rule KeyRing_Seal_removed [OF ring_reachable_wf [OF assms(1)] assms(2)])
qed

text \<open>Property C19: a ciphertext without key id (version 0x01) is opened exactly when some key of the ring opens it,
  whatever order Go iterates the map in, and the plaintext is one that \<^verbatim>\<open>Open\<close> gives under a key of
  the ring. (The comment above the type says only the active key is tried.)\<close>

theorem ring_v1_fallback:
  assumes "ring_reachable r" and "valid_order r order"
    and "RawURLEncoding_DecodeString s = Some raw" and "29 \<le> length raw" and "raw ! 0 = 0x01"
  shows "(is_ok (KeyRing_Open r order s a) \<longleftrightarrow>
      (\<exists>kid key. kr_rawKeys r kid = Some key \<and> is_ok (Open key s a))) \<and>
    (KeyRing_Open r order s a = Ok p \<longrightarrow>
      (\<exists>kid key. kr_rawKeys r kid = Some key \<and> Open key s a = Ok p))"
proof -
  have v1: "raw ! 0 = VersionAEADv1" using assms(5) by (simp add: VersionAEADv1_def)
  note out = KeyRing_Open_v1_outcome [OF ring_reachable_wf [OF assms(1)] assms(2-4) v1]
  show ?thesis using out by blast
qed

lemma ring_v1_fallback_witness:
  "\<exists>c. fst (Seal (replicate 32 1) [1] [] \<lparr>rd_data = replicate 12 0, rd_end = EOF\<rparr>) = Ok c \<and>
     is_ok (KeyRing_Open demo_ring [lit ''a'', lit ''b''] c [])"
proof -
  let ?rnd = "\<lparr>rd_data = replicate 12 0, rd_end = EOF\<rparr>"
  obtain c where c: "Seal (replicate 32 1) [1] [] ?rnd = (Ok c, ?rnd\<lparr>rd_data := []\<rparr>)"
    using Seal_returns [of "replicate 32 1" "[1]" ?rnd "[]"] by (auto simp: gcm_max_def)
  obtain raw where raw: "RawURLEncoding_DecodeString c = Some raw" "29 \<le> length raw" "raw ! 0 = 0x01"
    using Seal_decodes [OF c] by auto
  have order: "valid_order demo_ring [lit ''a'', lit ''b'']"
    by (auto simp: valid_order_def demo_ring_def lit_def)
  have "kr_rawKeys demo_ring (lit ''a'') = Some (replicate 32 1)" by (simp add: demo_ring_def lit_def)
  moreover have "is_ok (Open (replicate 32 1) c [])" using Seal_Open [OF c] by simp
  ultimately show ?thesis
    using ring_v1_fallback [OF demo_ring_reachable order raw, of "[]"] c by auto
qed

end
