(* ===== verification/Cbc.thy ===== *)
theory Cbc
  imports Aead
begin

text \<open>
  \<^verbatim>\<open>src/cbc.go\<close>: AES-CBC with PKCS#7 padding, \<open>hex(IV || ciphertext)\<close> on the wire, and the deprecated
  string-typed API over it. Padding is modelled for any block size, since \<^verbatim>\<open>pad\<close> and \<^verbatim>\<open>unpad\<close> take one.
\<close>

subsection \<open>Model\<close>

definition validCBCKeyLen :: "nat \<Rightarrow> bool" where
  "validCBCKeyLen n \<longleftrightarrow> n = 16 \<or> n = 24 \<or> n = 32"

text \<open>\<^verbatim>\<open>byte(padLen)\<close> truncates to eight bits; \<^verbatim>\<open>bufLen % size\<close> panics for size zero.\<close>

definition pad :: "bytes \<Rightarrow> nat \<Rightarrow> bytes res" where
  "pad buf sz =
     (if sz = 0 then Panic
      else let bufLen = length buf; padLen = sz - bufLen mod sz
           in Ok (buf @ map (\<lambda>i. word_of_nat padLen) [0..<padLen]))"

definition unpad :: "bytes \<Rightarrow> nat \<Rightarrow> bytes res" where
  "unpad buf sz =
     (if length buf = 0 then Err ErrInvalidPadding
      else if sz = 0 then Panic
      else if length buf mod sz \<noteq> 0 then Err ErrInvalidPadding
      else
        and_then (go_index buf (length buf - 1)) (\<lambda>b.
          let p = unat b in
          if p = 0 \<or> sz < p \<or> length buf < p then Err ErrInvalidPadding
          else if \<not> list_all (\<lambda>i. unat (buf ! i) = p) [length buf - p..<length buf]
          then Err ErrInvalidPadding
          else go_slice buf 0 (length buf - p)))"

definition EncryptCBC :: "bytes \<Rightarrow> bytes \<Rightarrow> reader \<Rightarrow> gostring res \<times> reader" where
  "EncryptCBC key plaintext rnd =
     (if \<not> validCBCKeyLen (length key)
      then (Err (Wrap ''%w: CBC requires 16, 24, or 32 bytes; got %d'' ErrInvalidKey), rnd)
      else
        then_do (pad plaintext aes_BlockSize, rnd) (\<lambda>plain rnd.
        then_do (or_err (Wrap ''crypt: aes.NewCipher: %w'') (aes_NewCipher key), rnd) (\<lambda>block rnd.
        then_do (read_rand (Wrap ''crypt: random IV: %w'') aes_BlockSize rnd) (\<lambda>iv rnd.
        then_do (CBCEncrypter_CryptBlocks block iv plain, rnd) (\<lambda>ct rnd.
          (Ok (hex_EncodeToString (iv @ ct)), rnd))))))"

definition DecryptCBC :: "bytes \<Rightarrow> gostring \<Rightarrow> bytes res" where
  "DecryptCBC key ciphertext =
     (if \<not> validCBCKeyLen (length key)
      then Err (Wrap ''%w: CBC requires 16, 24, or 32 bytes; got %d'' ErrInvalidKey)
      else
        and_then (of_option (Wrap ''%w: %v'' ErrInvalidCiphertext) (hex_DecodeString ciphertext)) (\<lambda>raw.
        if length raw < aes_BlockSize then Err ErrCiphertextTooShort
        else
          and_then (or_err (Wrap ''crypt: aes.NewCipher: %w'') (aes_NewCipher key)) (\<lambda>block.
          and_then (go_slice raw 0 aes_BlockSize) (\<lambda>iv.
          and_then (go_slice_from raw aes_BlockSize) (\<lambda>body.
          if length body mod aes_BlockSize \<noteq> 0 then Err ErrCiphertextNotBlockAligned
          else
            and_then (CBCDecrypter_CryptBlocks block iv body) (\<lambda>body.
              unpad body aes_BlockSize))))))"

text \<open>The deprecated API of v0.x.\<close>

record Cipher =
  cipher_key :: bytes

definition New :: "gostring \<Rightarrow> Cipher res" where
  "New key =
     (if \<not> validCBCKeyLen (length key)
      then Err (Wrap ''%w: CBC requires 16, 24, or 32 bytes; got %d'' ErrInvalidKey)
      else Ok \<lparr>cipher_key = key\<rparr>)"

definition Cipher_Encrypt :: "Cipher \<Rightarrow> gostring \<Rightarrow> reader \<Rightarrow> gostring res \<times> reader" where
  "Cipher_Encrypt c plaintext rnd = EncryptCBC (cipher_key c) plaintext rnd"

definition Cipher_Decrypt :: "Cipher \<Rightarrow> gostring \<Rightarrow> gostring res" where
  "Cipher_Decrypt c ciphertext = and_then (DecryptCBC (cipher_key c) ciphertext) (\<lambda>out. Ok out)"

definition EncryptWithKey :: "gostring \<Rightarrow> gostring \<Rightarrow> reader \<Rightarrow> gostring res \<times> reader" where
  "EncryptWithKey key plaintext rnd = EncryptCBC key plaintext rnd"

definition DecryptWithKey :: "gostring \<Rightarrow> gostring \<Rightarrow> gostring res" where
  "DecryptWithKey key ciphertext = and_then (DecryptCBC key ciphertext) (\<lambda>out. Ok out)"

subsection \<open>Padding\<close>

lemma pad_eq:
  "0 < sz \<Longrightarrow>
     pad buf sz = Ok (buf @ replicate (sz - length buf mod sz) (word_of_nat (sz - length buf mod sz)))"
  by (simp add: pad_def Let_def map_replicate_const)

lemma unat_pad_byte: "n < 256 \<Longrightarrow> unat (word_of_nat n :: byte) = n"
  by (simp add: unat_of_nat)

lemma unat_eq_pad_byte: "p < 256 \<Longrightarrow> unat (b :: byte) = p \<longleftrightarrow> b = word_of_nat p"
  by (auto simp: unat_pad_byte)

lemma tail_replicate_iff:
  fixes buf :: bytes
  assumes "p < 256" and "p \<le> length buf"
  shows "list_all (\<lambda>i. unat (buf ! i) = p) [length buf - p..<length buf] \<longleftrightarrow>
    drop (length buf - p) buf = replicate p (word_of_nat p)"
proof -
  have "list_all (\<lambda>i. unat (buf ! i) = p) [length buf - p..<length buf] \<longleftrightarrow>
      list_all (\<lambda>b. b = word_of_nat p) (map ((!) buf) [length buf - p..<length buf])"
    using assms by (simp add: list_all_iff unat_eq_pad_byte)
  also have "map ((!) buf) [length buf - p..<length buf] = drop (length buf - p) buf"
    by (rule nth_equalityI) simp_all
  also have "list_all (\<lambda>b. b = word_of_nat p) (drop (length buf - p) buf) \<longleftrightarrow>
      drop (length buf - p) buf = replicate p (word_of_nat p)"
    using assms(2) by (auto simp: list_all_iff intro: replicate_eqI)
  finally show ?thesis .
qed

lemma pad_length_unique:
  assumes "0 < p" "p \<le> sz" "(n + p) mod sz = 0"
  shows "sz - n mod sz = (p :: nat)"
proof -
  have "(n mod sz + p) mod sz = 0" using assms(3) by (simp add: mod_simps)
  moreover have "n mod sz < sz" using assms by simp
  ultimately have "n mod sz + p = sz"
    using assms(1,2) by (cases "n mod sz + p < sz") (simp_all add: le_mod_geq)
  then show ?thesis by simp
qed

lemma pad_length_bounds: "0 < sz \<Longrightarrow> 0 < sz - n mod sz \<and> sz - n mod sz \<le> (sz :: nat)"
  by simp

lemma padded_length: "0 < sz \<Longrightarrow> (n + (sz - n mod sz)) mod sz = (0 :: nat)"
  by (metis add_diff_inverse_nat less_imp_not_less mod_less_divisor mod_self mod_add_left_eq)

lemma unpad_iff_pad:
  assumes "0 < sz" and "sz < 256"
  shows "unpad q sz = Ok buf \<longleftrightarrow> pad buf sz = Ok q"
proof
  assume "unpad q sz = Ok buf"
  then obtain p where p: "0 < p" "p \<le> sz" "p \<le> length q" "length q mod sz = 0"
      "drop (length q - p) q = replicate p (word_of_nat p)" "buf = take (length q - p) q"
    using assms
    by (auto simp: unpad_def go_simps Let_def go_slice_def tail_replicate_iff split: if_splits)
  have "q = buf @ replicate p (word_of_nat p)"
    unfolding p(6) p(5) [symmetric] by simp
  moreover have "sz - length buf mod sz = p"
    using p by (intro pad_length_unique) simp_all
  ultimately show "pad buf sz = Ok q" using assms by (simp add: pad_eq)
next
  assume "pad buf sz = Ok q"
  define p where "p = sz - length buf mod sz"
  have q: "q = buf @ replicate p (word_of_nat p)"
    using \<open>pad buf sz = Ok q\<close> assms by (simp add: pad_eq p_def)
  have p: "0 < p" "p \<le> sz" using pad_length_bounds [OF assms(1)] by (simp_all add: p_def)
  have "length q = length buf + p" by (simp add: q)
  then have "length q mod sz = 0" by (simp only: p_def padded_length [OF assms(1)])
  moreover have "last q = word_of_nat p" using p by (simp add: q)
  then have "unat (q ! (length q - 1)) = p"
    using p assms(2) by (simp add: q last_conv_nth unat_pad_byte)
  ultimately show "unpad q sz = Ok buf"
    using p assms tail_replicate_iff [of p q]
    by (simp add: unpad_def Let_def go_index_def go_slice_def) (simp add: q)
qed

lemma unpad_no_panic: "0 < sz \<Longrightarrow> unpad q sz \<noteq> Panic"
  by (auto simp: unpad_def go_simps Let_def go_index_def go_slice_def)

subsection \<open>Encryption and decryption\<close>

lemma valid_aes_key: "validCBCKeyLen n \<longleftrightarrow> aes_key_size n"
  by (simp add: validCBCKeyLen_def aes_key_size_def)

text \<open>Decryption as a decision table, in the order the errors are reported.\<close>

definition decrypt_spec :: "bytes \<Rightarrow> gostring \<Rightarrow> bytes res" where
  "decrypt_spec key ciphertext =
     (case hex_DecodeString ciphertext of
        None \<Rightarrow> Err (Wrap ''%w: %v'' ErrInvalidCiphertext)
      | Some raw \<Rightarrow>
          if length raw < 16 then Err ErrCiphertextTooShort
          else if length raw mod 16 \<noteq> 0 then Err ErrCiphertextNotBlockAligned
          else unpad (cbc_decrypt (aes_block key) (take 16 raw) (drop 16 raw)) 16)"

lemma DecryptCBC_spec:
  assumes "aes_key_size (length key)"
  shows "DecryptCBC key ciphertext = decrypt_spec key ciphertext"
proof (cases "hex_DecodeString ciphertext")
  case (Some raw)
  have "(length raw - 16) mod 16 = length raw mod 16" if "16 \<le> length raw"
    using that by (simp add: le_mod_geq)
  with Some assms show ?thesis
    by (simp add: DecryptCBC_def decrypt_spec_def valid_aes_key aes_BlockSize_def go_slice_def
        go_slice_from_def CBCDecrypter_CryptBlocks_def)
qed (simp add: DecryptCBC_def decrypt_spec_def assms valid_aes_key)

lemma DecryptCBC_key_error:
  "\<not> aes_key_size (length key) \<Longrightarrow>
     DecryptCBC key s = Err (Wrap ''%w: CBC requires 16, 24, or 32 bytes; got %d'' ErrInvalidKey)"
  by (simp add: DecryptCBC_def valid_aes_key)

lemma EncryptCBC_Ok_iff:
  "EncryptCBC key p rnd = (Ok c, rnd') \<longleftrightarrow>
     aes_key_size (length key) \<and> 16 \<le> length (rd_data rnd) \<and>
     rnd' = rnd\<lparr>rd_data := drop 16 (rd_data rnd)\<rparr> \<and>
     (\<exists>plain. pad p 16 = Ok plain \<and>
        c = hex_EncodeToString (take 16 (rd_data rnd)
              @ cbc_encrypt (aes_block key) (take 16 (rd_data rnd)) plain))"
proof -
  have "length plain mod 16 = 0" if "pad p 16 = Ok plain" for plain
    using that padded_length [of 16 "length p"] by (auto simp: pad_eq)
  then show ?thesis
    by (auto simp: EncryptCBC_def valid_aes_key aes_BlockSize_def then_do_eq_Ok read_rand_Ok
        CBCEncrypter_CryptBlocks_def)
qed

lemma EncryptCBC_DecryptCBC:
  assumes "EncryptCBC key p rnd = (Ok c, rnd')"
  shows "DecryptCBC key c = Ok p"
proof -
  let ?iv = "take 16 (rd_data rnd)"
  obtain plain where key: "aes_key_size (length key)" and iv: "length ?iv = 16"
      and plain: "pad p 16 = Ok plain"
      and c: "c = hex_EncodeToString (?iv @ cbc_encrypt (aes_block key) ?iv plain)"
    using assms by (auto simp: EncryptCBC_Ok_iff)
  have len: "length plain mod 16 = 0"
    using plain padded_length [of 16 "length p"] by (auto simp: pad_eq)
  have up: "unpad plain 16 = Ok p" using plain by (simp add: unpad_iff_pad)
  note cbc = aes.cbc_encrypt_length [OF key iv len] aes.cbc_decrypt_encrypt [OF key iv len]
  show ?thesis
    using iv len by (simp add: DecryptCBC_spec [OF key] c decrypt_spec_def cbc up)
qed

lemma EncryptCBC_returns:
  assumes "aes_key_size (length key)" and "16 \<le> length (rd_data rnd)"
  shows "\<exists>c. EncryptCBC key p rnd = (Ok c, rnd\<lparr>rd_data := drop 16 (rd_data rnd)\<rparr>) \<and>
    length c = 2 * (16 + (length p + (16 - length p mod 16)))"
proof -
  let ?iv = "take 16 (rd_data rnd)"
  let ?plain = "p @ replicate (16 - length p mod 16) (word_of_nat (16 - length p mod 16))"
  have "length ?iv = 16" using assms(2) by simp
  moreover have "length ?plain mod 16 = 0" using padded_length [of 16 "length p"] by simp
  ultimately have "length (cbc_encrypt (aes_block key) ?iv ?plain) = length ?plain"
    by (rule aes.cbc_encrypt_length [OF assms(1)])
  then show ?thesis
    using assms by (simp add: EncryptCBC_Ok_iff pad_eq)
qed

subsection \<open>CBC does not authenticate\<close>

lemma unpad_prefix:
  assumes "length x = 16" "length x' = 16" "16 \<le> length rest" "unpad (x @ rest) 16 = Ok p"
  shows "take 16 p = x \<and> unpad (x' @ rest) 16 = Ok (x' @ drop 16 p)"
proof -
  define n where "n = 16 - length p mod 16"
  have "x @ rest = p @ replicate n (word_of_nat n)"
    using assms(4) by (simp add: unpad_iff_pad pad_eq n_def)
  moreover have "n \<le> 16" by (simp add: n_def)
  ultimately have p: "16 \<le> length p" "x = take 16 p" "rest = drop 16 p @ replicate n (word_of_nat n)"
    using assms(1,3) by (auto simp: append_eq_append_conv_if dest: arg_cong [of _ _ length] split: if_splits)
  have "length (x' @ drop 16 p) = length p" using p(1) assms(2) by simp
  then have "pad (x' @ drop 16 p) 16 = Ok (x' @ rest)"
    by (simp only: pad_eq zero_less_numeral p(3) n_def append_assoc)
  with p(2) show ?thesis by (simp add: unpad_iff_pad)
qed

lemma DecryptCBC_iv_xor:
  assumes "aes_key_size (length key)" and "length iv = 16" and "length d = 16" and "32 \<le> length body"
    and "DecryptCBC key (hex_EncodeToString (iv @ body)) = Ok p"
  shows "DecryptCBC key (hex_EncodeToString (xor_bytes iv d @ body)) = Ok (xor_bytes (take 16 p) d @ drop 16 p)"
proof -
  let ?D = "block_Decrypt (aes_block key) (take 16 body)"
  let ?rest = "cbc_decrypt (aes_block key) (take 16 body) (drop 16 body)"
  note D = aes_block_Decrypt_length [OF assms(1)]
  have split: "cbc_decrypt (aes_block key) v body = xor_bytes ?D v @ ?rest" for v
    using assms(4) by (subst cbc_decrypt.simps) (simp add: Let_def)
  have rest: "16 \<le> length ?rest"
    using assms(4) by (subst cbc_decrypt.simps) (simp add: Let_def D)
  have al: "length body mod 16 = 0" and up: "unpad (xor_bytes ?D iv @ ?rest) 16 = Ok p"
    using assms(2,5) by (auto simp: DecryptCBC_spec [OF assms(1)] decrypt_spec_def split split: if_splits)
  have "take 16 p = xor_bytes ?D iv \<and>
      unpad (xor_bytes ?D (xor_bytes iv d) @ ?rest) 16 = Ok (xor_bytes ?D (xor_bytes iv d) @ drop 16 p)"
    by (rule unpad_prefix) (use D assms(2,3) rest up in simp_all)
  then show ?thesis
    using al assms(2,3) by (simp add: DecryptCBC_spec [OF assms(1)] decrypt_spec_def split xor_bytes_assoc)
qed

lemma EncryptCBC_body:
  assumes "aes_key_size (length key)" and "16 \<le> length (rd_data rnd)"
  shows "\<exists>c body. EncryptCBC key p rnd = (Ok c, rnd\<lparr>rd_data := drop 16 (rd_data rnd)\<rparr>) \<and>
    c = hex_EncodeToString (take 16 (rd_data rnd) @ body) \<and>
    length body = length p + (16 - length p mod 16)"
proof -
  obtain c where c: "EncryptCBC key p rnd = (Ok c, rnd\<lparr>rd_data := drop 16 (rd_data rnd)\<rparr>)"
      "length c = 2 * (16 + (length p + (16 - length p mod 16)))"
    using EncryptCBC_returns [OF assms] by blast
  then obtain body where body: "c = hex_EncodeToString (take 16 (rd_data rnd) @ body)"
    by (auto simp: EncryptCBC_Ok_iff)
  with c(2) assms(2) have "length body = length p + (16 - length p mod 16)"
    by (simp add: length_hex_encode)
  with c(1) body show ?thesis by blast
qed

lemma DecryptCBC_no_panic: "DecryptCBC key s \<noteq> Panic"
  by (cases "aes_key_size (length key)")
    (auto simp: DecryptCBC_spec DecryptCBC_key_error decrypt_spec_def unpad_no_panic split: option.split)

lemma aes_key_size_iff: "n \<in> {16, 24, 32} \<longleftrightarrow> aes_key_size n"
  by (simp add: aes_key_size_def)

lemma unpad_err: "0 < sz \<Longrightarrow> unpad q sz = Err e \<Longrightarrow> e = ErrInvalidPadding"
  by (auto simp: unpad_def go_simps Let_def go_index_def go_slice_def split: if_splits)

lemma unpad_err_is:
  "err_is (unpad q 16) e \<longleftrightarrow> \<not> (\<exists>p. pad p 16 = Ok q) \<and> e = ErrInvalidPadding"
proof (cases "unpad q 16")
  case (Ok p)
  then have "pad p 16 = Ok q" using unpad_iff_pad [of 16 q p] by simp
  with Ok show ?thesis by auto
next
  case (Err e')
  then have "e' = ErrInvalidPadding" using unpad_err [of 16] by simp
  moreover have "\<not> (\<exists>p. pad p 16 = Ok q)" using Err unpad_iff_pad [of 16 q] by auto
  ultimately show ?thesis using Err by auto
qed (use unpad_no_panic [of 16 q] in simp)

lemma DecryptCBC_errors:
  "err_is (DecryptCBC key s) ErrInvalidKey \<longleftrightarrow> \<not> aes_key_size (length key)"
  "err_is (DecryptCBC key s) ErrInvalidCiphertext \<longleftrightarrow>
     aes_key_size (length key) \<and> hex_DecodeString s = None"
  "err_is (DecryptCBC key s) ErrCiphertextTooShort \<longleftrightarrow>
     aes_key_size (length key) \<and> (\<exists>raw. hex_DecodeString s = Some raw \<and> length raw < 16)"
  "err_is (DecryptCBC key s) ErrCiphertextNotBlockAligned \<longleftrightarrow>
     aes_key_size (length key) \<and>
     (\<exists>raw. hex_DecodeString s = Some raw \<and> 16 \<le> length raw \<and> length raw mod 16 \<noteq> 0)"
  "err_is (DecryptCBC key s) ErrInvalidPadding \<longleftrightarrow>
     aes_key_size (length key) \<and>
     (\<exists>raw. hex_DecodeString s = Some raw \<and> 16 \<le> length raw \<and> length raw mod 16 = 0 \<and>
        \<not> (\<exists>p. pad p 16 = Ok (cbc_decrypt (aes_block key) (take 16 raw) (drop 16 raw))))"
proof -
  have none: "DecryptCBC key s = Err (Wrap ''%w: %v'' ErrInvalidCiphertext)"
    if "aes_key_size (length key)" "hex_DecodeString s = None"
    using that by (simp add: DecryptCBC_spec decrypt_spec_def)
  have some: "DecryptCBC key s =
      (if length raw < 16 then Err ErrCiphertextTooShort
       else if length raw mod 16 \<noteq> 0 then Err ErrCiphertextNotBlockAligned
       else unpad (cbc_decrypt (aes_block key) (take 16 raw) (drop 16 raw)) 16)"
    if "aes_key_size (length key)" "hex_DecodeString s = Some raw" for raw
    using that by (simp add: DecryptCBC_spec decrypt_spec_def)
  consider "\<not> aes_key_size (length key)" | "aes_key_size (length key)" "hex_DecodeString s = None"
    | raw where "aes_key_size (length key)" "hex_DecodeString s = Some raw" by force
  note cases = this
  show "err_is (DecryptCBC key s) ErrInvalidKey \<longleftrightarrow> \<not> aes_key_size (length key)"
    by (rule cases) (simp_all add: DecryptCBC_key_error none some unpad_err_is)
  show "err_is (DecryptCBC key s) ErrInvalidCiphertext \<longleftrightarrow>
     aes_key_size (length key) \<and> hex_DecodeString s = None"
    by (rule cases) (simp_all add: DecryptCBC_key_error none some unpad_err_is)
  show "err_is (DecryptCBC key s) ErrCiphertextTooShort \<longleftrightarrow>
     aes_key_size (length key) \<and> (\<exists>raw. hex_DecodeString s = Some raw \<and> length raw < 16)"
    by (rule cases) (simp_all add: DecryptCBC_key_error none some unpad_err_is)
  show "err_is (DecryptCBC key s) ErrCiphertextNotBlockAligned \<longleftrightarrow>
     aes_key_size (length key) \<and>
     (\<exists>raw. hex_DecodeString s = Some raw \<and> 16 \<le> length raw \<and> length raw mod 16 \<noteq> 0)"
    by (rule cases) (simp_all add: DecryptCBC_key_error none some unpad_err_is linorder_not_less)
  show "err_is (DecryptCBC key s) ErrInvalidPadding \<longleftrightarrow>
     aes_key_size (length key) \<and>
     (\<exists>raw. hex_DecodeString s = Some raw \<and> 16 \<le> length raw \<and> length raw mod 16 = 0 \<and>
        \<not> (\<exists>p. pad p 16 = Ok (cbc_decrypt (aes_block key) (take 16 raw) (drop 16 raw))))"
    by (rule cases) (simp_all add: DecryptCBC_key_error none some unpad_err_is linorder_not_less)
qed

subsection \<open>Properties\<close>

text \<open>Property C18: \<^verbatim>\<open>unpad\<close> and \<^verbatim>\<open>pad\<close> are inverse for every block size a byte can count: a padded buffer
  unpads to \<open>buf\<close> exactly when it is what \<^verbatim>\<open>pad\<close> makes of \<open>buf\<close>. So no malformed padding is accepted.\<close>

theorem unpad_exactly_pad:
  assumes "0 < sz" and "sz < 256"
  shows "unpad q sz = Ok buf \<longleftrightarrow> pad buf sz = Ok q"
  by (rule unpad_iff_pad [OF assms])

lemma unpad_exactly_pad_witness: "unpad [1, 2, 3, 5, 5, 5, 5, 5] 8 = Ok [1, 2, 3]"
  using unpad_exactly_pad [of 8 "[1, 2, 3, 5, 5, 5, 5, 5]" "[1, 2, 3]"]
  by (simp add: pad_def upt_rec)

text \<open>Property C29: for each of the three AES key sizes, CBC encryption returns (it consumes the 16 random bytes of
  the IV), decryption gives the plaintext back, and the ciphertext has 2 * (16 + padded length)
  characters.\<close>

theorem cbc_roundtrip:
  assumes "length key \<in> {16, 24, 32}" and "16 \<le> length (rd_data rnd)"
  shows "\<exists>c. EncryptCBC key p rnd = (Ok c, rnd\<lparr>rd_data := drop 16 (rd_data rnd)\<rparr>) \<and>
    DecryptCBC key c = Ok p \<and> length c = 2 * (16 + (length p + (16 - length p mod 16)))"
proof -
  have "aes_key_size (length key)" using assms(1) by (simp add: aes_key_size_def)
  from EncryptCBC_returns [OF this assms(2)] show ?thesis using EncryptCBC_DecryptCBC by blast
qed

lemma cbc_roundtrip_witness:
  "\<exists>c. EncryptCBC (replicate 24 3) [7] \<lparr>rd_data = replicate 16 0, rd_end = EOF\<rparr> =
       (Ok c, \<lparr>rd_data = [], rd_end = EOF\<rparr>) \<and>
     DecryptCBC (replicate 24 3) c = Ok [7] \<and> length c = 64"
  using cbc_roundtrip [of "replicate 24 3" "\<lparr>rd_data = replicate 16 0, rd_end = EOF\<rparr>" "[7]"] by simp

text \<open>Property C31: CBC is not authenticated. Whoever changes the IV of a ciphertext of at least two blocks by \<open>d\<close>
  changes the first plaintext block by \<open>d\<close>, and decryption reports no error. (The comment of \<^verbatim>\<open>EncryptCBC\<close>, \<^verbatim>\<open>FAQ.md\<close> and a
  test in \<^verbatim>\<open>comprehensive_test.go\<close> expect tampering to be rejected in all but one of 256 cases and to give garbage
  there; for the IV of such a ciphertext it is never rejected.)\<close>

theorem cbc_iv_malleable:
  assumes "length key \<in> {16, 24, 32}" and "length iv = 16" and "length d = 16" and "32 \<le> length body"
    and "DecryptCBC key (hex_EncodeToString (iv @ body)) = Ok p"
  shows "DecryptCBC key (hex_EncodeToString (xor_bytes iv d @ body)) =
    Ok (xor_bytes (take 16 p) d @ drop 16 p)"
proof -
  have "aes_key_size (length key)" using assms(1) by (simp add: aes_key_size_def)
  from DecryptCBC_iv_xor [OF this assms(2-5)] show ?thesis .
qed

lemma cbc_iv_malleable_witness:
  "\<exists>c. DecryptCBC (replicate 16 0) (hex_EncodeToString (replicate 16 0 @ c)) = Ok (replicate 16 0) \<and>
     DecryptCBC (replicate 16 0) (hex_EncodeToString (replicate 16 1 @ c)) = Ok (replicate 16 1)"
proof -
  let ?key = "replicate 16 (0 :: byte)" and ?rnd = "\<lparr>rd_data = replicate 16 0, rd_end = EOF\<rparr>"
  have key: "aes_key_size (length ?key)" by (simp add: aes_key_size_def)
  obtain c body where c: "EncryptCBC ?key (replicate 16 0) ?rnd = (Ok c, ?rnd\<lparr>rd_data := []\<rparr>)"
      "c = hex_EncodeToString (replicate 16 0 @ body)" "length body = 32"
    using EncryptCBC_body [OF key, of ?rnd "replicate 16 0"] by auto
  then have dec: "DecryptCBC ?key (hex_EncodeToString (replicate 16 0 @ body)) = Ok (replicate 16 0)"
    using EncryptCBC_DecryptCBC by blast
  then show ?thesis
    using cbc_iv_malleable [of ?key "replicate 16 0" "replicate 16 1" body "replicate 16 0"] c(3)
    by (intro exI [of _ body]) (simp add: xor_bytes_def)
qed

text \<open>Property C30: which error \<^verbatim>\<open>DecryptCBC\<close> reports, for every input: a wrong key length, text that is not
  hexadecimal, fewer than 16 bytes, a length that is not a multiple of 16, and otherwise
  \<open>ErrInvalidPadding\<close> exactly when the decrypted blocks are not the padding of any plaintext.
  No input makes it panic.\<close>

theorem decrypt_cbc_errors:
  "(err_is (DecryptCBC key s) ErrInvalidKey \<longleftrightarrow> length key \<notin> {16, 24, 32}) \<and>
   (err_is (DecryptCBC key s) ErrInvalidCiphertext \<longleftrightarrow>
     length key \<in> {16, 24, 32} \<and> hex_DecodeString s = None) \<and>
   (err_is (DecryptCBC key s) ErrCiphertextTooShort \<longleftrightarrow>
     length key \<in> {16, 24, 32} \<and> (\<exists>raw. hex_DecodeString s = Some raw \<and> length raw < 16)) \<and>
   (err_is (DecryptCBC key s) ErrCiphertextNotBlockAligned \<longleftrightarrow>
     length key \<in> {16, 24, 32} \<and>
     (\<exists>raw. hex_DecodeString s = Some raw \<and> 16 \<le> length raw \<and> length raw mod 16 \<noteq> 0)) \<and>
   (err_is (DecryptCBC key s) ErrInvalidPadding \<longleftrightarrow>
     length key \<in> {16, 24, 32} \<and>
     (\<exists>raw. hex_DecodeString s = Some raw \<and> 16 \<le> length raw \<and> length raw mod 16 = 0 \<and>
        \<not> (\<exists>p. pad p 16 = Ok (cbc_decrypt (aes_block key) (take 16 raw) (drop 16 raw))))) \<and>
   DecryptCBC key s \<noteq> Panic"
  by (simp only: DecryptCBC_errors aes_key_size_iff DecryptCBC_no_panic not_False_eq_True simp_thms)

end
