(* ===== verification/OpenAuto.thy ===== *)
theory OpenAuto
  imports Cbc
begin

text \<open>
  \<^verbatim>\<open>src/auto.go\<close>: format detection for mixed AES-GCM and AES-CBC data. Both detectors are modelled on the
  standard library decoders, so the claim that a CBC ciphertext is never taken for an AEAD one is a
  theorem about the two alphabets.
\<close>

subsection \<open>Model\<close>

definition isLikelyAEAD :: "gostring \<Rightarrow> bool" where
  "isLikelyAEAD ciphertext =
     (case RawURLEncoding_DecodeString ciphertext of
        None \<Rightarrow> False
      | Some raw \<Rightarrow> if length raw < aeadMinSize then False else raw ! 0 = VersionAEADv1)"

definition isLikelyCBC :: "gostring \<Rightarrow> bool" where
  "isLikelyCBC ciphertext =
     (case hex_DecodeString ciphertext of
        None \<Rightarrow> False
      | Some raw \<Rightarrow>
          if length raw < 16 then False
          else let body = drop 16 raw in length body mod 16 = 0 \<and> 0 < length body)"

definition OpenAuto :: "bytes \<Rightarrow> gostring \<Rightarrow> bytes \<Rightarrow> bytes res" where
  "OpenAuto key ciphertext aad =
     (let cbc =
        (if isLikelyCBC ciphertext
         then (case DecryptCBC key ciphertext of
                 Ok pt \<Rightarrow> Ok pt | Err e \<Rightarrow> Err ErrUnknownFormat | Panic \<Rightarrow> Panic)
         else Err ErrUnknownFormat)
      in if isLikelyAEAD ciphertext
         then (case Open key ciphertext aad of Ok pt \<Rightarrow> Ok pt | Err e \<Rightarrow> cbc | Panic \<Rightarrow> Panic)
         else cbc)"

subsection \<open>Hexadecimal text is never taken for base64url version 0x01\<close>

lemma hextable_sextet:
  assumes "c \<in> set hextable"
  shows "c \<noteq> 10 \<and> c \<noteq> 13 \<and> (\<exists>s. b64_index url_alphabet c 0 = Some s \<and> bit s 4)"
proof -
  have "list_all (\<lambda>c. c \<noteq> 10 \<and> c \<noteq> 13 \<and>
      (case b64_index url_alphabet c 0 of None \<Rightarrow> False | Some s \<Rightarrow> bit s 4)) hextable"
    by (simp add: hextable_def url_alphabet_def lit_def)
  with assms show ?thesis by (auto simp: list_all_iff split: option.splits)
qed

lemma hex_EncodeToString_head:
  "bs \<noteq> [] \<Longrightarrow> \<exists>c s. hex_EncodeToString bs = c # s \<and> c \<in> set hextable"
proof -
  assume "bs \<noteq> []"
  then obtain b bs' where bs: "bs = b # bs'" by (cases bs) auto
  have "unat (drop_bit 4 b) < 16" by (rule unat_nibble; simp add: bit_simps)
  then have "hextable ! unat (drop_bit 4 b) \<in> set hextable"
    by (intro nth_mem) (simp add: hextable_def lit_def)
  with bs show ?thesis by simp
qed

lemma b64_join_head:
  "b64_join (s # ss) = Some raw \<Longrightarrow> \<exists>t rest. raw = (push_bit 2 s OR drop_bit 4 t) # rest"
  by (cases "s # ss" rule: b64_join.cases) auto

text \<open>Its first six bits are those of a digit or a letter from a to f, so bit 6 of the first byte is set.\<close>

lemma hex_first_byte:
  assumes "RawURLEncoding_DecodeString (hex_EncodeToString bs) = Some raw" and "raw \<noteq> []"
  shows "bit (hd raw) 6"
proof (cases "bs = []")
  case True
  then show ?thesis
    using assms by (simp add: RawURLEncoding_DecodeString_def b64_decode_def b64_skip_def)
next
  case False
  then obtain c s where hex: "hex_EncodeToString bs = c # s" and "c \<in> set hextable"
    using hex_EncodeToString_head by blast
  then obtain x where c: "c \<noteq> 10" "c \<noteq> 13" and x: "b64_index url_alphabet c 0 = Some x" "bit x 4"
    using hextable_sextet by blast
  obtain ss where "b64_join (x # ss) = Some raw"
    using assms(1) c x(1)
    by (auto simp: hex RawURLEncoding_DecodeString_def b64_decode_def b64_skip_def bind_eq_Some_conv)
  then obtain t rest where "raw = (push_bit 2 x OR drop_bit 4 t) # rest"
    using b64_join_head by blast
  then show ?thesis using x(2) by (simp add: bit_simps)
qed

lemma hex_not_AEAD: "\<not> isLikelyAEAD (hex_EncodeToString bs)"
proof (cases "RawURLEncoding_DecodeString (hex_EncodeToString bs)")
  case (Some raw)
  then show ?thesis
    using hex_first_byte [OF Some] by (cases raw) (auto simp: isLikelyAEAD_def format_defs)
qed (simp add: isLikelyAEAD_def)

subsection \<open>Detection of the package's own output\<close>

lemma Seal_isLikelyAEAD:
  assumes "Seal key p a rnd = (Ok c, rnd')"
  shows "isLikelyAEAD c"
proof -
  obtain ct where "length key = 32" "12 \<le> length (rd_data rnd)"
      "aead_Seal (aes_gcm key) (take 12 (rd_data rnd)) p a = Ok ct"
      "c = RawURLEncoding_EncodeToString (frame VersionAEADv1 (take 12 (rd_data rnd)) ct)"
    using assms by (auto simp: Seal_Ok_iff)
  moreover from this have "length ct = length p + 16" by (intro aes_gcm.seal_length) auto
  ultimately show ?thesis by (simp add: isLikelyAEAD_def frame_def format_defs)
qed

lemma EncryptCBC_isLikelyCBC:
  assumes "EncryptCBC key p rnd = (Ok c, rnd')"
  shows "isLikelyCBC c \<and> \<not> isLikelyAEAD c"
proof -
  let ?iv = "take 16 (rd_data rnd)"
  obtain plain where key: "aes_key_size (length key)" and iv: "length ?iv = 16"
      and plain: "pad p 16 = Ok plain"
      and c: "c = hex_EncodeToString (?iv @ cbc_encrypt (aes_block key) ?iv plain)"
    using assms by (auto simp: EncryptCBC_Ok_iff)
  have "length plain mod 16 = 0" "0 < length plain"
    using plain padded_length [of 16 "length p"] by (auto simp: pad_eq)
  with iv show ?thesis
    using aes.cbc_encrypt_length [OF key iv, of plain]
    by (simp add: c isLikelyCBC_def hex_not_AEAD del: length_greater_0_conv)
qed

subsection \<open>The detectors accept every input their decoder opens\<close>

lemma not_AEAD_not_Open: "\<not> isLikelyAEAD s \<Longrightarrow> \<not> is_ok (Open key s a)"
proof (rule notI)
  assume no: "\<not> isLikelyAEAD s" and "is_ok (Open key s a)"
  then obtain p where "Open key s a = Ok p" by (auto simp: is_ok_iff)
  then obtain nonce ct where dec: "length key = 32"
      "RawURLEncoding_DecodeString s = Some (frame VersionAEADv1 nonce ct)" "length nonce = 12"
      "aead_Seal (aes_gcm key) nonce p a = Ok ct"
    by (auto simp: Open_Ok_iff)
  then have "16 \<le> length ct" using aes_gcm.seal_length by fastforce
  with dec no show False by (simp add: isLikelyAEAD_def frame_def format_defs)
qed

lemma cbc_decrypt_Nil: "cbc_decrypt b v [] = []"
  by (simp add: cbc_decrypt.simps)

lemma not_CBC_not_Decrypt: "\<not> isLikelyCBC s \<Longrightarrow> \<not> is_ok (DecryptCBC key s)"
proof (rule notI)
  assume no: "\<not> isLikelyCBC s" and "is_ok (DecryptCBC key s)"
  then obtain p where ok: "DecryptCBC key s = Ok p" by (auto simp: is_ok_iff)
  then have key: "aes_key_size (length key)" using DecryptCBC_key_error [of key s] by fastforce
  with ok obtain raw where raw: "hex_DecodeString s = Some raw" "16 \<le> length raw" "length raw mod 16 = 0"
      "unpad (cbc_decrypt (aes_block key) (take 16 raw) (drop 16 raw)) 16 = Ok p"
    by (auto simp: DecryptCBC_spec decrypt_spec_def split: option.splits if_splits)
  have "drop 16 raw \<noteq> []"
  proof
    assume "drop 16 raw = []"
    with raw(4) show False by (simp add: unpad_def cbc_decrypt_Nil)
  qed
  moreover have "(length raw - 16) mod 16 = 0" using raw(2,3) by (simp add: le_mod_geq)
  ultimately show False using no raw(1,2) by (auto simp: isLikelyCBC_def)
qed

lemma OpenAuto_eq:
  "OpenAuto key s a =
     (if is_ok (Open key s a) then Open key s a
      else if is_ok (DecryptCBC key s) then DecryptCBC key s
      else Err ErrUnknownFormat)"
proof -
  have "is_ok (Open key s a) \<longrightarrow> isLikelyAEAD s" and "is_ok (DecryptCBC key s) \<longrightarrow> isLikelyCBC s"
    using not_AEAD_not_Open [of s key a] not_CBC_not_Decrypt [of s key] by blast+
  then show ?thesis
    using Open_no_panic [of key s a] DecryptCBC_no_panic [of key s]
    by (cases "Open key s a"; cases "DecryptCBC key s"; simp add: OpenAuto_def Let_def)
qed

lemma EncryptCBC_not_Open: "EncryptCBC key p rnd = (Ok c, rnd') \<Longrightarrow> \<not> is_ok (Open key' c a)"
  using EncryptCBC_isLikelyCBC not_AEAD_not_Open by blast

text \<open>
  Lowercase hexadecimal text is never taken for an AEAD ciphertext, so a CBC ciphertext always reaches the CBC
  decoder and never costs a trial AES-GCM decryption.
\<close>

lemma hex_never_detected_as_aead:
  "\<not> isLikelyAEAD (hex_EncodeToString bs) \<and> \<not> is_ok (Open key (hex_EncodeToString bs) a)"
  by (simp_all add: hex_not_AEAD not_AEAD_not_Open)

text \<open>Mixed data stays readable.\<close>

lemma open_auto_reads_both:
  "(Seal key p a rnd = (Ok c, rnd') \<longrightarrow> OpenAuto key c a = Ok p) \<and>
   (EncryptCBC key p rnd = (Ok c, rnd') \<longrightarrow> OpenAuto key c b = Ok p)"
  by (simp_all add: OpenAuto_eq Seal_Open EncryptCBC_DecryptCBC EncryptCBC_not_Open)

subsection \<open>Properties\<close>

text \<open>Property C17: \<^verbatim>\<open>OpenAuto\<close> is AES-GCM opening, and CBC decryption where that fails, with every failure reported
  as \<open>ErrUnknownFormat\<close>: the two detectors never keep a decryptable input from its decoder.\<close>

theorem open_auto_is_open_or_decrypt:
  "OpenAuto key s a =
     (if is_ok (Open key s a) then Open key s a
      else if is_ok (DecryptCBC key s) then DecryptCBC key s
      else Err ErrUnknownFormat)"
  by (rule OpenAuto_eq)

end
