(* ===== verification/AeadChaCha20.thy ===== *)
theory AeadChaCha20
  imports Aead
begin

text \<open>
  \<^verbatim>\<open>src/aead_chacha20.go\<close>: the same framing with version byte 0x02 over ChaCha20-Poly1305. The cipher
  comes from \<^verbatim>\<open>golang.org/x/crypto/chacha20poly1305\<close>, which is not in the repository: its constructor
  \<open>chacha_New\<close> is an argument of the definitions, and the theorems assume of it the contract
  \<open>aead_new\<close> for 32-byte keys.
\<close>

subsection \<open>Model\<close>

definition sealChaCha20WithNonce ::
    "(bytes \<Rightarrow> AEAD res) \<Rightarrow> bytes \<Rightarrow> bytes \<Rightarrow> bytes \<Rightarrow> bytes option \<Rightarrow> reader \<Rightarrow> gostring res \<times> reader" where
  "sealChaCha20WithNonce chacha_New key plaintext aad nonce rnd =
     (if length key \<noteq> AEADKeySize
      then (Err (Wrap ''%w: ChaCha20 requires %d bytes; got %d'' ErrInvalidKey), rnd)
      else
        then_do (or_err (Wrap ''crypt: chacha20poly1305.New: %w'') (chacha_New key), rnd) (\<lambda>c rnd.
        then_do
          (case nonce of
             None \<Rightarrow> read_rand (Wrap ''crypt: random nonce: %w'') aeadNonceSize rnd
           | Some n \<Rightarrow>
               (if length n \<noteq> aeadNonceSize
                then Err (Msg ''crypt: nonce must be %d bytes; got %d'') else Ok n, rnd)) (\<lambda>nonce rnd.
        then_do (aead_Seal c nonce plaintext aad, rnd) (\<lambda>ct rnd.
          (Ok (RawURLEncoding_EncodeToString ([VersionAEADv2] @ nonce @ ct)), rnd)))))"

definition SealChaCha20 ::
    "(bytes \<Rightarrow> AEAD res) \<Rightarrow> bytes \<Rightarrow> bytes \<Rightarrow> bytes \<Rightarrow> reader \<Rightarrow> gostring res \<times> reader" where
  "SealChaCha20 chacha_New key plaintext aad rnd =
     sealChaCha20WithNonce chacha_New key plaintext aad None rnd"

definition OpenChaCha20 :: "(bytes \<Rightarrow> AEAD res) \<Rightarrow> bytes \<Rightarrow> gostring \<Rightarrow> bytes \<Rightarrow> bytes res" where
  "OpenChaCha20 chacha_New key ciphertext aad =
     (if length key \<noteq> AEADKeySize
      then Err (Wrap ''%w: ChaCha20 requires %d bytes; got %d'' ErrInvalidKey)
      else
        and_then (of_option (Wrap ''%w: %v'' ErrInvalidCiphertext)
                   (RawURLEncoding_DecodeString ciphertext)) (\<lambda>raw.
        if length raw < aeadMinSize then Err ErrCiphertextTooShort
        else
          and_then (go_index raw 0) (\<lambda>v.
          if v \<noteq> VersionAEADv2 then Err (Wrap ''%w: 0x%02x'' ErrUnsupportedVersion)
          else
            and_then (or_err (Wrap ''crypt: chacha20poly1305.New: %w'') (chacha_New key)) (\<lambda>c.
            and_then (go_slice raw 1 aeadHeaderSize) (\<lambda>nonce.
            and_then (go_slice_from raw aeadHeaderSize) (\<lambda>body.
              or_err (\<lambda>e. Wrap ''%w: %v'' ErrTampered) (aead_Open c nonce body aad)))))))"

subsection \<open>The decoder implements the specification\<close>

context aead_new
begin

lemma OpenChaCha20_spec:
  assumes "ok key" and "length key = 32"
  shows "OpenChaCha20 new key ciphertext aad = open_spec VersionAEADv2 (mk key) ciphertext aad"
  using assms frame_decoder [of ciphertext VersionAEADv2 "mk key" aad]
  by (simp add: OpenChaCha20_def AEADKeySize_def new_Ok cong: if_cong)

lemma SealChaCha20_Ok_iff:
  assumes "ok key" and "length key = 32"
  shows "SealChaCha20 new key p a rnd = (Ok c, rnd') \<longleftrightarrow>
     12 \<le> length (rd_data rnd) \<and> rnd' = rnd\<lparr>rd_data := drop 12 (rd_data rnd)\<rparr> \<and>
     (\<exists>ct. aead_Seal (mk key) (take 12 (rd_data rnd)) p a = Ok ct \<and>
        c = RawURLEncoding_EncodeToString (frame VersionAEADv2 (take 12 (rd_data rnd)) ct))"
  using assms
  by (auto simp: SealChaCha20_def sealChaCha20WithNonce_def then_do_eq_Ok read_rand_Ok format_defs
      frame_def new_Ok)

lemma OpenChaCha20_no_panic: "ok key \<Longrightarrow> length key = 32 \<Longrightarrow> OpenChaCha20 new key s a \<noteq> Panic"
  by (simp add: OpenChaCha20_spec open_spec_no_panic)

lemma SealChaCha20_length:
  assumes "ok key" and "length key = 32" and "SealChaCha20 new key p a rnd = (Ok c, rnd')"
  shows "length c = ((29 + length p) * 4 + 2) div 3"
proof -
  obtain ct where "12 \<le> length (rd_data rnd)" "aead_Seal (mk key) (take 12 (rd_data rnd)) p a = Ok ct"
      "c = RawURLEncoding_EncodeToString (frame VersionAEADv2 (take 12 (rd_data rnd)) ct)"
    using assms(3) by (auto simp: SealChaCha20_Ok_iff [OF assms(1,2)])
  moreover from seal_length [OF assms(1) this(2)] have "length ct = length p + 16" .
  ultimately show ?thesis by (simp add: length_url_encode frame_def add.commute)
qed

lemma SealChaCha20_OpenChaCha20:
  assumes "ok key" and "length key = 32" and "length p \<le> maxlen" and "12 \<le> length (rd_data rnd)"
  shows "\<exists>c. SealChaCha20 new key p a rnd = (Ok c, rnd\<lparr>rd_data := drop 12 (rd_data rnd)\<rparr>) \<and>
     OpenChaCha20 new key c a = Ok p \<and>
     open_spec VersionAEADv1 d c b = Err (Wrap ''%w: 0x%02x'' ErrUnsupportedVersion)"
proof -
  let ?n = "take 12 (rd_data rnd)"
  have n: "length ?n = 12" using assms(4) by simp
  obtain ct where ct: "aead_Seal (mk key) ?n p a = Ok ct" "length ct = length p + 16"
    using seal_obtain [OF assms(1) n assms(3)] by metis
  let ?c = "RawURLEncoding_EncodeToString (frame VersionAEADv2 ?n ct)"
  have "OpenChaCha20 new key ?c a = Ok p"
    unfolding OpenChaCha20_spec [OF assms(1,2)] by (rule open_spec_frame [OF assms(1) n ct(1)])
  moreover have "open_spec VersionAEADv1 d ?c b = Err (Wrap ''%w: 0x%02x'' ErrUnsupportedVersion)"
    using n ct(2) by (simp add: open_spec_def frame_def format_defs)
  ultimately show ?thesis
    unfolding SealChaCha20_Ok_iff [OF assms(1,2)] using ct(1) assms(4) by blast
qed

end

subsection \<open>Properties\<close>

text \<open>Property C32: with any cipher that meets the AEAD contract behind \<^verbatim>\<open>chacha20poly1305.New\<close>, sealing a
  plaintext of admissible length returns, opening gives the plaintext back, and the AES-GCM entry
  point \<^verbatim>\<open>Open\<close> refuses the ciphertext by its version byte, whatever key and associated data it is
  called with.\<close>

theorem chacha_roundtrip_separation:
  assumes "aead_new mk ok maxlen chacha_New" and "ok key" and "length key = 32"
    and "length p \<le> maxlen" and "12 \<le> length (rd_data rnd)" and "length key' = 32"
  shows "\<exists>c. SealChaCha20 chacha_New key p a rnd = (Ok c, rnd\<lparr>rd_data := drop 12 (rd_data rnd)\<rparr>) \<and>
    OpenChaCha20 chacha_New key c a = Ok p \<and>
    Open key' c a' = Err (Wrap ''%w: 0x%02x'' ErrUnsupportedVersion)"
  using aead_new.SealChaCha20_OpenChaCha20 [OF assms(1-5), of a "aes_gcm key'" a']
  by (simp add: Open_spec [OF assms(6)])

lemma chacha_roundtrip_separation_witness:
  "\<exists>c. SealChaCha20 aes_gcm_New (replicate 32 1) [5] [] \<lparr>rd_data = replicate 13 2, rd_end = EOF\<rparr> =
       (Ok c, \<lparr>rd_data = [2], rd_end = EOF\<rparr>) \<and>
     OpenChaCha20 aes_gcm_New (replicate 32 1) c [] = Ok [5] \<and>
     Open (replicate 32 1) c [] = Err (Wrap ''%w: 0x%02x'' ErrUnsupportedVersion)"
  using chacha_roundtrip_separation [OF aes_gcm.aead_new_axioms, of "replicate 32 1" "[5]"
      "\<lparr>rd_data = replicate 13 2, rd_end = EOF\<rparr>" "replicate 32 1" "[]" "[]"]
  by (simp add: gcm_max_def)

end
