(* ===== verification/Kms.thy ===== *)
theory Kms
  imports Aead
begin

text \<open>
  \<^verbatim>\<open>src/kms.go\<close>: envelope encryption. The Go interface \<^verbatim>\<open>KMS\<close> is a record of its three functions, so an
  adapter is a value of that type; the sealer's lemmas are proved in the locale \<open>kms\<close> for every adapter
  that keeps the interface's promises, and the in-memory adapter \<open>StaticKMS\<close> interprets it. The context
  argument of the calls carries no data the package reads and is left out; calls on a \<open>StaticKMS\<close> are
  atomic, which theory \<open>KmsLocks\<close> proves of its mutex.

  The sealer also returns the data key buffer as the deferred \<^verbatim>\<open>zeroBytes\<close> leaves it.
\<close>

subsection \<open>The interface and the sealer\<close>

record KMS =
  kms_GenerateDataKey :: "gostring \<Rightarrow> reader \<Rightarrow> (bytes \<times> bytes) res \<times> reader"
  kms_Decrypt :: "gostring \<Rightarrow> bytes \<Rightarrow> bytes res"
  kms_Encrypt :: "gostring \<Rightarrow> bytes \<Rightarrow> reader \<Rightarrow> bytes res \<times> reader"

record EnvelopeSealer =
  es_kms :: KMS
  es_keyID :: gostring

definition NewEnvelopeSealer :: "KMS \<Rightarrow> gostring \<Rightarrow> EnvelopeSealer" where
  "NewEnvelopeSealer kms keyID = \<lparr>es_kms = kms, es_keyID = keyID\<rparr>"

definition versionEnvelopeV1 :: byte where
  "versionEnvelopeV1 = 0x06"

definition zeroBytes :: "bytes \<Rightarrow> bytes" where
  "zeroBytes b = map (\<lambda>_. 0) b"

definition EnvelopeSealer_Seal ::
    "EnvelopeSealer \<Rightarrow> bytes \<Rightarrow> bytes \<Rightarrow> reader \<Rightarrow> (gostring res \<times> bytes) \<times> reader" where
  "EnvelopeSealer_Seal e plaintext aad rnd =
     (case kms_GenerateDataKey (es_kms e) (es_keyID e) rnd of
        (Err err, rnd) \<Rightarrow> ((Err (Wrap ''crypt: kms.GenerateDataKey: %w'' err), []), rnd)
      | (Panic, rnd) \<Rightarrow> ((Panic, []), rnd)
      | (Ok (dek, wrapped), rnd) \<Rightarrow>
          let (result, rnd) =
            then_do (Seal dek plaintext aad rnd) (\<lambda>inner rnd.
            then_do (of_option (Wrap ''crypt: re-decode inner: %w'' (Msg ''illegal base64 data at input byte %d''))
                       (RawURLEncoding_DecodeString inner), rnd) (\<lambda>innerRaw rnd.
              (Ok (RawURLEncoding_EncodeToString
                ([versionEnvelopeV1] @ PutUint32 (word_of_nat (length wrapped)) @ wrapped @ innerRaw)), rnd)))
          in ((result, zeroBytes dek), rnd))"

text \<open>
  The bound check widens to 64 bits, the two slice bounds \<^verbatim>\<open>5+wrappedLen\<close> are computed in \<^verbatim>\<open>uint32\<close>.
\<close>

definition EnvelopeSealer_Open :: "EnvelopeSealer \<Rightarrow> gostring \<Rightarrow> bytes \<Rightarrow> bytes res \<times> bytes" where
  "EnvelopeSealer_Open e ciphertext aad =
     (case and_then (of_option (Wrap ''%w: %v'' ErrInvalidCiphertext)
                      (RawURLEncoding_DecodeString ciphertext)) (\<lambda>raw.
           if length raw < 1 + 4 then Err ErrCiphertextTooShort
           else
             and_then (go_index raw 0) (\<lambda>v.
             if v \<noteq> versionEnvelopeV1 then Err (Wrap ''%w: 0x%02x'' ErrUnsupportedVersion)
             else
               and_then (go_slice raw 1 5) (\<lambda>lenField.
               let wrappedLen = Uint32 lenField in
               if 5 + unat wrappedLen > length raw then Err ErrCiphertextTooShort
               else
                 and_then (go_slice raw 5 (unat (5 + wrappedLen))) (\<lambda>wrapped.
                 and_then (go_slice_from raw (unat (5 + wrappedLen))) (\<lambda>inner.
                 and_then (or_err (Wrap ''crypt: kms.Decrypt: %w'')
                            (kms_Decrypt (es_kms e) (es_keyID e) wrapped)) (\<lambda>dek.
                   Ok (dek, inner))))))) of
        Err err \<Rightarrow> (Err err, [])
      | Panic \<Rightarrow> (Panic, [])
      | Ok (dek, inner) \<Rightarrow>
          (Open dek (RawURLEncoding_EncodeToString inner) aad, zeroBytes dek))"

subsection \<open>The in-memory adapter\<close>

record StaticKMS =
  keks :: "gostring \<rightharpoonup> bytes"

definition NewStaticKMS :: StaticKMS where
  "NewStaticKMS = \<lparr>keks = Map.empty\<rparr>"

definition StaticKMS_AddKey :: "StaticKMS \<Rightarrow> gostring \<Rightarrow> bytes \<Rightarrow> unit res \<times> StaticKMS" where
  "StaticKMS_AddKey s keyID key =
     (if length key \<noteq> AEADKeySize
      then (Err (Wrap ''%w: KEK must be %d bytes; got %d'' ErrInvalidKey), s)
      else (Ok (), s\<lparr>keks := (keks s)(keyID \<mapsto> key)\<rparr>))"

definition StaticKMS_lookup :: "StaticKMS \<Rightarrow> gostring \<Rightarrow> bytes res" where
  "StaticKMS_lookup s keyID = of_option (Msg ''static kms: unknown keyID %q'') (keks s keyID)"

definition StaticKMS_GenerateDataKey ::
    "StaticKMS \<Rightarrow> gostring \<Rightarrow> reader \<Rightarrow> (bytes \<times> bytes) res \<times> reader" where
  "StaticKMS_GenerateDataKey s keyID rnd =
     (case StaticKMS_lookup s keyID of
        Err e \<Rightarrow> (Err e, rnd)
      | Panic \<Rightarrow> (Panic, rnd)
      | Ok kek \<Rightarrow>
          (case RandomBytes (int AEADKeySize) rnd of
             (Err e, rnd) \<Rightarrow> (Err e, rnd)
           | (Panic, rnd) \<Rightarrow> (Panic, rnd)
           | (Ok dek, rnd) \<Rightarrow>
               (case Seal kek dek [] rnd of
                  (Err e, rnd) \<Rightarrow> (Err e, rnd)
                | (Panic, rnd) \<Rightarrow> (Panic, rnd)
                | (Ok wrapped, rnd) \<Rightarrow> (Ok (dek, wrapped), rnd))))"

definition StaticKMS_Decrypt :: "StaticKMS \<Rightarrow> gostring \<Rightarrow> bytes \<Rightarrow> bytes res" where
  "StaticKMS_Decrypt s keyID wrapped =
     and_then (StaticKMS_lookup s keyID) (\<lambda>kek. Open kek wrapped [])"

definition StaticKMS_Encrypt :: "StaticKMS \<Rightarrow> gostring \<Rightarrow> bytes \<Rightarrow> reader \<Rightarrow> bytes res \<times> reader" where
  "StaticKMS_Encrypt s keyID plaintext rnd =
     (case StaticKMS_lookup s keyID of
        Err e \<Rightarrow> (Err e, rnd)
      | Panic \<Rightarrow> (Panic, rnd)
      | Ok kek \<Rightarrow> Seal kek plaintext [] rnd)"

definition static_kms :: "StaticKMS \<Rightarrow> KMS" where
  "static_kms s = \<lparr>kms_GenerateDataKey = StaticKMS_GenerateDataKey s, kms_Decrypt = StaticKMS_Decrypt s,
     kms_Encrypt = StaticKMS_Encrypt s\<rparr>"

subsection \<open>The contract of an adapter\<close>

text \<open>
  \<open>ok k keyID\<close>: the adapter made from \<open>k\<close> knows the key \<open>keyID\<close>. A data key is 32 bytes, unwraps again, and its
  wrapped form is short enough for the 32-bit length field; \<open>need\<close> random bytes are enough to make one.
\<close>

locale kms =
  fixes mk :: "'k \<Rightarrow> KMS" and ok :: "'k \<Rightarrow> gostring \<Rightarrow> bool" and need :: nat
  assumes generate_Ok: "ok k keyID \<Longrightarrow> need \<le> length (rd_data rnd) \<Longrightarrow>
      \<exists>dek wrapped. kms_GenerateDataKey (mk k) keyID rnd =
        (Ok (dek, wrapped), rnd\<lparr>rd_data := drop need (rd_data rnd)\<rparr>)"
    and generate_unwraps: "ok k keyID \<Longrightarrow> kms_GenerateDataKey (mk k) keyID rnd = (Ok (dek, wrapped), rnd') \<Longrightarrow>
      length dek = 32 \<and> length wrapped + 5 < 2 ^ 32 \<and> kms_Decrypt (mk k) keyID wrapped = Ok dek"
    and encrypt_unwraps: "ok k keyID \<Longrightarrow> kms_Encrypt (mk k) keyID p rnd = (Ok w, rnd') \<Longrightarrow>
      kms_Decrypt (mk k) keyID w = Ok p"
    and decrypt_no_panic: "kms_Decrypt (mk k) keyID w \<noteq> Panic"

subsection \<open>The frame of an envelope\<close>

definition envelope :: "bytes \<Rightarrow> bytes \<Rightarrow> bytes" where
  "envelope wrapped inner =
     versionEnvelopeV1 # PutUint32 (word_of_nat (length wrapped)) @ wrapped @ inner"

lemma envelope_slices:
  assumes "length wrapped + 5 < 2 ^ 32"
  shows "length (envelope wrapped inner) = 5 + length wrapped + length inner"
    and "go_index (envelope wrapped inner) 0 = Ok versionEnvelopeV1"
    and "go_slice (envelope wrapped inner) 1 5 = Ok (PutUint32 (word_of_nat (length wrapped)))"
    and "unat (word_of_nat (length wrapped) :: 32 word) = length wrapped"
    and "unat (5 + word_of_nat (length wrapped) :: 32 word) = 5 + length wrapped"
    and "go_slice (envelope wrapped inner) 5 (5 + length wrapped) = Ok wrapped"
    and "go_slice_from (envelope wrapped inner) (5 + length wrapped) = Ok inner"
proof -
  have "(5 + word_of_nat (length wrapped) :: 32 word) = word_of_nat (5 + length wrapped)" by simp
  then show "unat (5 + word_of_nat (length wrapped) :: 32 word) = 5 + length wrapped"
    using assms by (simp only: unat_of_nat) simp
  show "unat (word_of_nat (length wrapped) :: 32 word) = length wrapped"
    using assms by (simp add: unat_of_nat)
qed (simp_all add: envelope_def go_index_def go_slice_def go_slice_from_def drop_Cons')

text \<open>For inputs below 4 GiB the 32-bit slice bounds are the ones meant.\<close>

definition unwrap_spec :: "bytes \<Rightarrow> (bytes \<times> bytes) res" where
  "unwrap_spec raw =
     (if length raw < 5 then Err ErrCiphertextTooShort
      else if raw ! 0 \<noteq> versionEnvelopeV1 then Err (Wrap ''%w: 0x%02x'' ErrUnsupportedVersion)
      else let n = unat (Uint32 (take 4 (tl raw))) in
        if length raw < 5 + n then Err ErrCiphertextTooShort
        else if 2 ^ 32 \<le> 5 + n then Panic
        else Ok (take n (drop 5 raw), drop (5 + n) raw))"

lemma word32_plus5:
  "unat (5 + w :: 32 word) = (if 5 + unat w < 2 ^ 32 then 5 + unat w else 5 + unat w - 2 ^ 32)"
  using unat_32_bound [of w] by (simp add: unat_word_ariths le_mod_geq)

lemma EnvelopeSealer_Open_spec:
  "EnvelopeSealer_Open e ciphertext aad =
     (case RawURLEncoding_DecodeString ciphertext of
        None \<Rightarrow> (Err (Wrap ''%w: %v'' ErrInvalidCiphertext), [])
      | Some raw \<Rightarrow>
          (case unwrap_spec raw of
             Err err \<Rightarrow> (Err err, [])
           | Panic \<Rightarrow> (Panic, [])
           | Ok (wrapped, inner) \<Rightarrow>
               (case or_err (Wrap ''crypt: kms.Decrypt: %w'') (kms_Decrypt (es_kms e) (es_keyID e) wrapped) of
                  Err err \<Rightarrow> (Err err, [])
                | Panic \<Rightarrow> (Panic, [])
                | Ok dek \<Rightarrow> (Open dek (RawURLEncoding_EncodeToString inner) aad, zeroBytes dek))))"
proof (cases "RawURLEncoding_DecodeString ciphertext")
  case (Some raw)
  show ?thesis
  proof (cases "length raw < 5 \<or> raw ! 0 \<noteq> versionEnvelopeV1")
    case True
    then show ?thesis
      by (auto simp: EnvelopeSealer_Open_def unwrap_spec_def Some go_index_def)
  next
    case False
    then have len: "5 \<le> length raw" and v: "raw ! 0 = versionEnvelopeV1" by simp_all
    define w where "w = Uint32 (take 4 (tl raw))"
    have field: "go_slice raw 1 5 = Ok (take 4 (tl raw))" using len by (simp add: go_slice_def drop_Suc)
    have idx: "go_index raw 0 = Ok versionEnvelopeV1" using len v by (auto simp: go_index_def)
    have u: "unwrap_spec raw =
        (if length raw < 5 + unat w then Err ErrCiphertextTooShort
         else if 2 ^ 32 \<le> 5 + unat w then Panic
         else Ok (take (unat w) (drop 5 raw), drop (5 + unat w) raw))"
      using len v by (simp add: unwrap_spec_def w_def Let_def)
    have o: "EnvelopeSealer_Open e ciphertext aad =
        (case (if 5 + unat w > length raw then Err ErrCiphertextTooShort
               else
                 and_then (go_slice raw 5 (unat (5 + w))) (\<lambda>wrapped.
                 and_then (go_slice_from raw (unat (5 + w))) (\<lambda>inner.
                 and_then (or_err (Wrap ''crypt: kms.Decrypt: %w'')
                            (kms_Decrypt (es_kms e) (es_keyID e) wrapped)) (\<lambda>dek.
                   Ok (dek, inner))))) of
           Err err \<Rightarrow> (Err err, [])
         | Panic \<Rightarrow> (Panic, [])
         | Ok (dek, inner) \<Rightarrow>
             (Open dek (RawURLEncoding_EncodeToString inner) aad, zeroBytes dek))"
      using len by (simp add: EnvelopeSealer_Open_def Some idx field [unfolded One_nat_def] w_def Let_def)
    consider "length raw < 5 + unat w" | "5 + unat w \<le> length raw" "2 ^ 32 \<le> 5 + unat w"
      | "5 + unat w \<le> length raw" "5 + unat w < 2 ^ 32" by linarith
    then show ?thesis
    proof cases
      case 1
      then show ?thesis by (simp add: o u Some)
    next
      case 2
      then have "unat (5 + w) < 5" using unat_32_bound [of w] by (simp add: word32_plus5)
      with 2 show ?thesis by (simp add: o u Some go_slice_backwards)
    next
      case 3
      then have s: "unat (5 + w) = 5 + unat w"
        "go_slice raw 5 (5 + unat w) = Ok (take (unat w) (drop 5 raw))"
        "go_slice_from raw (5 + unat w) = Ok (drop (5 + unat w) raw)"
        by (simp_all add: word32_plus5 go_slice_in go_slice_from_in)
      let ?d = "or_err (Wrap ''crypt: kms.Decrypt: %w'')
        (kms_Decrypt (es_kms e) (es_keyID e) (take (unat w) (drop 5 raw)))"
      from 3 have "\<not> length raw < 5 + unat w" "\<not> 2 ^ 32 \<le> 5 + unat w" by simp_all
      then show ?thesis by (cases ?d) (simp_all only: o u Some s option.case if_False and_then.simps res.case prod.case)
    qed
  qed
qed (simp add: EnvelopeSealer_Open_def)

lemma unwrap_spec_envelope:
  assumes "length wrapped + 5 < 2 ^ 32"
  shows "unwrap_spec (envelope wrapped inner) = Ok (wrapped, inner)"
proof -
  have "take 4 (tl (envelope wrapped inner)) = PutUint32 (word_of_nat (length wrapped))"
    "envelope wrapped inner ! 0 = versionEnvelopeV1"
    "drop 5 (envelope wrapped inner) = wrapped @ inner"
    "drop (5 + length wrapped) (envelope wrapped inner) = inner"
    by (simp_all add: envelope_def drop_Cons')
  then show ?thesis
    using envelope_slices(1) [OF assms, of inner] envelope_slices(4) [OF assms] assms by (simp add: unwrap_spec_def Let_def)
qed

subsection \<open>The sealer over any adapter that keeps the contract\<close>

context kms
begin

lemma envelope_Seal:
  assumes "ok k keyID" and "length p \<le> gcm_max" and "need + 12 \<le> length (rd_data rnd)"
  shows "\<exists>c wrapped inner dek. EnvelopeSealer_Seal (NewEnvelopeSealer (mk k) keyID) p a rnd =
      ((Ok c, replicate 32 0), rnd\<lparr>rd_data := drop (need + 12) (rd_data rnd)\<rparr>) \<and>
    RawURLEncoding_DecodeString c = Some (envelope wrapped inner) \<and>
    length wrapped + 5 < 2 ^ 32 \<and> length dek = 32 \<and> kms_Decrypt (mk k) keyID wrapped = Ok dek \<and>
    Open dek (RawURLEncoding_EncodeToString inner) a = Ok p"
proof -
  obtain dek wrapped where g: "kms_GenerateDataKey (mk k) keyID rnd =
      (Ok (dek, wrapped), rnd\<lparr>rd_data := drop need (rd_data rnd)\<rparr>)"
    using generate_Ok [OF assms(1), of rnd] assms(3) by auto
  note u = generate_unwraps [OF assms(1) g]
  have "12 \<le> length (rd_data (rnd\<lparr>rd_data := drop need (rd_data rnd)\<rparr>))" using assms(3) by simp
  then obtain c where c: "Seal dek p a (rnd\<lparr>rd_data := drop need (rd_data rnd)\<rparr>) =
      (Ok c, rnd\<lparr>rd_data := drop (need + 12) (rd_data rnd)\<rparr>)"
    using Seal_returns [of dek p "rnd\<lparr>rd_data := drop need (rd_data rnd)\<rparr>" a] u assms(2)
    by (auto simp: add.commute)
  obtain inner where inner: "RawURLEncoding_DecodeString c = Some inner" using Seal_decodes [OF c] by blast
  have "Open dek (RawURLEncoding_EncodeToString inner) a = Open dek c a"
    by (rule Open_decodes) (simp add: inner)
  then have op: "Open dek (RawURLEncoding_EncodeToString inner) a = Ok p" using Seal_Open [OF c] by simp
  have "EnvelopeSealer_Seal (NewEnvelopeSealer (mk k) keyID) p a rnd =
      ((Ok (RawURLEncoding_EncodeToString (envelope wrapped inner)), replicate 32 0),
       rnd\<lparr>rd_data := drop (need + 12) (rd_data rnd)\<rparr>)"
    using u by (simp add: EnvelopeSealer_Seal_def NewEnvelopeSealer_def g c inner envelope_def zeroBytes_def
        map_replicate_const)
  with u op show ?thesis using b64url.dec_enc by blast
qed

lemma envelope_Seal_Open:
  assumes "ok k keyID" and "length p \<le> gcm_max" and "need + 12 \<le> length (rd_data rnd)"
  shows "\<exists>c. EnvelopeSealer_Seal (NewEnvelopeSealer (mk k) keyID) p a rnd =
      ((Ok c, replicate 32 0), rnd\<lparr>rd_data := drop (need + 12) (rd_data rnd)\<rparr>) \<and>
    EnvelopeSealer_Open (NewEnvelopeSealer (mk k) keyID) c a = (Ok p, replicate 32 0)"
proof -
  obtain c wrapped inner dek where c: "EnvelopeSealer_Seal (NewEnvelopeSealer (mk k) keyID) p a rnd =
      ((Ok c, replicate 32 0), rnd\<lparr>rd_data := drop (need + 12) (rd_data rnd)\<rparr>)"
    "RawURLEncoding_DecodeString c = Some (envelope wrapped inner)" "length wrapped + 5 < 2 ^ 32"
    "length dek = 32" "kms_Decrypt (mk k) keyID wrapped = Ok dek"
    "Open dek (RawURLEncoding_EncodeToString inner) a = Ok p"
    using envelope_Seal [OF assms] by blast
  then have "EnvelopeSealer_Open (NewEnvelopeSealer (mk k) keyID) c a = (Ok p, replicate 32 0)"
    by (simp add: EnvelopeSealer_Open_spec NewEnvelopeSealer_def unwrap_spec_envelope zeroBytes_def
        map_replicate_const)
  with c(1) show ?thesis by blast
qed

text \<open>The only panic of \<^verbatim>\<open>Open\<close> is the one of the 32-bit slice bound.\<close>

lemma envelope_Open_panic_iff:
  "fst (EnvelopeSealer_Open (NewEnvelopeSealer (mk k) keyID) c a) = Panic \<longleftrightarrow>
     (\<exists>raw. RawURLEncoding_DecodeString c = Some raw \<and> unwrap_spec raw = Panic)"
  using decrypt_no_panic [of k keyID]
  by (auto simp: EnvelopeSealer_Open_spec NewEnvelopeSealer_def or_err_eq_Panic Open_no_panic
      split: option.splits res.splits)

end

lemma unwrap_spec_panic_iff:
  "unwrap_spec raw = Panic \<longleftrightarrow> 5 \<le> length raw \<and> raw ! 0 = versionEnvelopeV1 \<and>
     2 ^ 32 \<le> 5 + unat (Uint32 (take 4 (tl raw))) \<and> 5 + unat (Uint32 (take 4 (tl raw))) \<le> length raw"
  by (auto simp: unwrap_spec_def Let_def)

definition envelope_header :: "nat \<Rightarrow> bytes" where
  "envelope_header n = versionEnvelopeV1 # PutUint32 (word_of_nat n)"

lemma unwrap_spec_wraps: "unwrap_spec (envelope_header (2 ^ 32 - 1) @ replicate (2 ^ 32 - 1) 0) = Panic"
proof -
  let ?raw = "envelope_header (2 ^ 32 - 1) @ replicate (2 ^ 32 - 1) 0"
  have "take 4 (tl ?raw) = PutUint32 (word_of_nat (2 ^ 32 - 1))" "?raw ! 0 = versionEnvelopeV1"
    "length ?raw = 5 + (2 ^ 32 - 1)"
    by (simp_all add: envelope_header_def)
  moreover have "unat (word_of_nat (2 ^ 32 - 1) :: 32 word) = 2 ^ 32 - 1" by (simp add: unat_of_nat)
  ultimately show ?thesis by (simp only: unwrap_spec_panic_iff Uint32_PutUint32) simp
qed

subsection \<open>The in-memory adapter keeps the contract\<close>

definition kek_registered :: "StaticKMS \<Rightarrow> gostring \<Rightarrow> bool" where
  "kek_registered s keyID = (case keks s keyID of None \<Rightarrow> False | Some kek \<Rightarrow> length kek = 32)"

lemma StaticKMS_lookup_registered:
  "kek_registered s keyID \<Longrightarrow> \<exists>kek. StaticKMS_lookup s keyID = Ok kek \<and> length kek = 32"
  by (auto simp: kek_registered_def StaticKMS_lookup_def split: option.splits)

lemma StaticKMS_GenerateDataKey_returns:
  assumes "kek_registered s keyID" and "44 \<le> length (rd_data rnd)"
  shows "\<exists>dek wrapped. StaticKMS_GenerateDataKey s keyID rnd =
    (Ok (dek, wrapped), rnd\<lparr>rd_data := drop 44 (rd_data rnd)\<rparr>)"
proof -
  obtain kek where kek: "StaticKMS_lookup s keyID = Ok kek" "length kek = 32"
    using StaticKMS_lookup_registered [OF assms(1)] by blast
  let ?dek = "take 32 (rd_data rnd)" and ?rnd = "rnd\<lparr>rd_data := drop 32 (rd_data rnd)\<rparr>"
  have "RandomBytes (int AEADKeySize) rnd = (Ok ?dek, ?rnd)"
    using assms(2) by (simp add: RandomBytes_Ok_iff AEADKeySize_def)
  moreover have "12 \<le> length (rd_data ?rnd)" using assms(2) by simp
  then obtain w where "Seal kek ?dek [] ?rnd = (Ok w, rnd\<lparr>rd_data := drop 44 (rd_data rnd)\<rparr>)"
    using Seal_returns [OF kek(2), of ?dek ?rnd "[]"] assms(2) by (auto simp: gcm_max_def add.commute)
  ultimately show ?thesis using kek(1) by (simp add: StaticKMS_GenerateDataKey_def)
qed

lemma StaticKMS_GenerateDataKey_Ok:
  assumes "StaticKMS_GenerateDataKey s keyID rnd = (Ok (dek, wrapped), rnd')"
  obtains kek rnd1 where "StaticKMS_lookup s keyID = Ok kek" "RandomBytes 32 rnd = (Ok dek, rnd1)"
    "Seal kek dek [] rnd1 = (Ok wrapped, rnd')"
  using assms by (auto simp: StaticKMS_GenerateDataKey_def AEADKeySize_def split: prod.splits res.splits)

interpretation static: kms static_kms kek_registered 44
proof (unfold_locales, goal_cases)
  case (1 k keyID rnd)
  then show ?case by (simp add: static_kms_def StaticKMS_GenerateDataKey_returns)
next
  case (2 k keyID rnd dek wrapped rnd')
  then obtain kek rnd1 where g: "StaticKMS_lookup k keyID = Ok kek" "RandomBytes 32 rnd = (Ok dek, rnd1)"
      "Seal kek dek [] rnd1 = (Ok wrapped, rnd')"
    using StaticKMS_GenerateDataKey_Ok by (metis KMS.select_convs(1) static_kms_def)
  then have "length dek = 32" by (auto simp: RandomBytes_Ok_iff)
  with g(1) Seal_Open [OF g(3)] Seal_length [OF g(3)] show ?case
    by (simp add: static_kms_def StaticKMS_Decrypt_def)
next
  case (3 k keyID p rnd w rnd')
  then show ?case
    by (auto simp: static_kms_def StaticKMS_Decrypt_def StaticKMS_Encrypt_def Seal_Open
        split: res.splits)
next
  case (4 k keyID w)
  then show ?case
    by (auto simp: static_kms_def StaticKMS_Decrypt_def StaticKMS_lookup_def go_simps Open_no_panic)
qed

lemma StaticKMS_AddKey_registered:
  "length key = 32 \<Longrightarrow> \<exists>s'. StaticKMS_AddKey s keyID key = (Ok (), s') \<and> kek_registered s' keyID"
  by (simp add: StaticKMS_AddKey_def kek_registered_def AEADKeySize_def)

subsection \<open>The stores a program can build\<close>

inductive kms_reachable :: "StaticKMS \<Rightarrow> bool" where
  kms_new: "kms_reachable NewStaticKMS"
| kms_add: "kms_reachable s \<Longrightarrow> kms_reachable (snd (StaticKMS_AddKey s keyID key))"

lemma kms_reachable_keys: "kms_reachable s \<Longrightarrow> keks s keyID = Some kek \<Longrightarrow> length kek = 32"
  by (induction rule: kms_reachable.induct)
    (auto simp: NewStaticKMS_def StaticKMS_AddKey_def AEADKeySize_def split: if_splits)

lemma kms_reachable_registered: "kms_reachable s \<Longrightarrow> kek_registered s keyID \<longleftrightarrow> keks s keyID \<noteq> None"
  using kms_reachable_keys by (auto simp: kek_registered_def split: option.split)

lemma StaticKMS_unknown:
  assumes "keks s keyID = None"
  shows "StaticKMS_GenerateDataKey s keyID rnd = (Err (Msg ''static kms: unknown keyID %q''), rnd)"
    and "StaticKMS_Decrypt s keyID w = Err (Msg ''static kms: unknown keyID %q'')"
    and "StaticKMS_Encrypt s keyID p rnd = (Err (Msg ''static kms: unknown keyID %q''), rnd)"
  using assms
  by (simp_all add: StaticKMS_GenerateDataKey_def StaticKMS_Decrypt_def StaticKMS_Encrypt_def StaticKMS_lookup_def)

lemma StaticKMS_Encrypt_known:
  assumes "keks s keyID = Some kek" and "length kek = 32" and "12 \<le> length (rd_data rnd)"
  shows "if length p \<le> gcm_max
    then \<exists>c. StaticKMS_Encrypt s keyID p rnd = (Ok c, rnd\<lparr>rd_data := drop 12 (rd_data rnd)\<rparr>) \<and>
      StaticKMS_Decrypt s keyID c = Ok p
    else StaticKMS_Encrypt s keyID p rnd = (Panic, rnd\<lparr>rd_data := drop 12 (rd_data rnd)\<rparr>)"
proof (cases "length p \<le> gcm_max")
  case True
  from Seal_returns [OF assms(2) this assms(3), of "[]"] obtain c where
    "Seal kek p [] rnd = (Ok c, rnd\<lparr>rd_data := drop 12 (rd_data rnd)\<rparr>)" by blast
  with True assms(1) Seal_Open [OF this] show ?thesis
    by (simp add: StaticKMS_Encrypt_def StaticKMS_Decrypt_def StaticKMS_lookup_def)
next
  case False
  with assms show ?thesis by (simp add: StaticKMS_Encrypt_def StaticKMS_lookup_def Seal_too_long)
qed

subsection \<open>Properties\<close>

text \<open>Property C10: with any KMS adapter that keeps the interface's promises, envelope sealing under a known key id
  returns, opening gives the plaintext back, and in both calls the data key buffer is left all zero.\<close>

theorem envelope_roundtrip:
  assumes "kms mk ok need" and "ok k keyID" and "length p \<le> gcm_max"
    and "need + 12 \<le> length (rd_data rnd)"
  shows "\<exists>c. EnvelopeSealer_Seal (NewEnvelopeSealer (mk k) keyID) p a rnd =
      ((Ok c, replicate 32 0), rnd\<lparr>rd_data := drop (need + 12) (rd_data rnd)\<rparr>) \<and>
    EnvelopeSealer_Open (NewEnvelopeSealer (mk k) keyID) c a = (Ok p, replicate 32 0)"
  by (rule kms.envelope_Seal_Open [OF assms])

lemma envelope_roundtrip_witness:
  "\<exists>c. EnvelopeSealer_Seal
      (NewEnvelopeSealer (static_kms (snd (StaticKMS_AddKey NewStaticKMS (lit ''k'') (replicate 32 1)))) (lit ''k''))
      [1, 2] [] \<lparr>rd_data = replicate 56 3, rd_end = EOF\<rparr> = ((Ok c, replicate 32 0), \<lparr>rd_data = [], rd_end = EOF\<rparr>) \<and>
    EnvelopeSealer_Open
      (NewEnvelopeSealer (static_kms (snd (StaticKMS_AddKey NewStaticKMS (lit ''k'') (replicate 32 1)))) (lit ''k''))
      c [] = (Ok [1, 2], replicate 32 0)"
proof -
  let ?s = "snd (StaticKMS_AddKey NewStaticKMS (lit ''k'') (replicate 32 1))"
  have "kek_registered ?s (lit ''k'')"
    using StaticKMS_AddKey_registered [of "replicate 32 1" NewStaticKMS "lit ''k''"] by auto
  from envelope_roundtrip [OF static.kms_axioms this, of "[1, 2]" "\<lparr>rd_data = replicate 56 3, rd_end = EOF\<rparr>" "[]"]
  show ?thesis by (simp add: gcm_max_def)
qed

text \<open>Property C11: \<^verbatim>\<open>EnvelopeSealer.Open\<close> over the in-memory adapter panics exactly for inputs whose length field \<open>n\<close>
  is at least \<open>2^32 - 5\<close> and which really are \<open>5 + n\<close> bytes or longer, where the slice bound
  \<^verbatim>\<open>5+wrappedLen\<close> wraps in \<^verbatim>\<open>uint32\<close>; such inputs exist, and every shorter input returns.\<close>

theorem envelope_open_panics_iff:
  "(fst (EnvelopeSealer_Open (NewEnvelopeSealer (static_kms s) keyID) c a) = Panic \<longleftrightarrow>
     (\<exists>raw. RawURLEncoding_DecodeString c = Some raw \<and> raw ! 0 = 0x06 \<and>
        2 ^ 32 \<le> 5 + unat (Uint32 (take 4 (tl raw))) \<and>
        5 + unat (Uint32 (take 4 (tl raw))) \<le> length raw)) \<and>
   (\<exists>c'. fst (EnvelopeSealer_Open (NewEnvelopeSealer (static_kms s) keyID) c' a) = Panic)"
proof
  note iff = static.envelope_Open_panic_iff [of s keyID] unwrap_spec_panic_iff versionEnvelopeV1_def
  show "fst (EnvelopeSealer_Open (NewEnvelopeSealer (static_kms s) keyID) c a) = Panic \<longleftrightarrow>
     (\<exists>raw. RawURLEncoding_DecodeString c = Some raw \<and> raw ! 0 = 0x06 \<and>
        2 ^ 32 \<le> 5 + unat (Uint32 (take 4 (tl raw))) \<and>
        5 + unat (Uint32 (take 4 (tl raw))) \<le> length raw)"
    unfolding iff by (auto intro: order.trans)
  let ?raw = "envelope_header (2 ^ 32 - 1) @ replicate (2 ^ 32 - 1) 0"
  have "unwrap_spec ?raw = Panic" by (rule unwrap_spec_wraps)
  then show "\<exists>c'. fst (EnvelopeSealer_Open (NewEnvelopeSealer (static_kms s) keyID) c' a) = Panic"
    unfolding static.envelope_Open_panic_iff using b64url.dec_enc by blast
qed

text \<open>Property C12: typing of the key store. In every store built by \<^verbatim>\<open>NewStaticKMS\<close> and \<^verbatim>\<open>AddKey\<close>, accepted or refused, a
  key id is either unknown, and then every operation reports that and reads no randomness, or it stands
  for a 32-byte key. Under a known id and with 44 random bytes at hand, \<^verbatim>\<open>GenerateDataKey\<close> returns a 32-byte
  data key in a wrapping that \<^verbatim>\<open>Decrypt\<close> undoes, and \<^verbatim>\<open>Encrypt\<close> returns a ciphertext that \<^verbatim>\<open>Decrypt\<close> undoes for
  every plaintext GCM can encrypt; for a longer one it panics, as \<^verbatim>\<open>Seal\<close> does. \<^verbatim>\<open>Decrypt\<close> panics on no input.\<close>

theorem kms_keys_typed:
  assumes "kms_reachable s" and "44 \<le> length (rd_data rnd)"
  shows "(case keks s keyID of
      None \<Rightarrow>
        StaticKMS_GenerateDataKey s keyID rnd = (Err (Msg ''static kms: unknown keyID %q''), rnd) \<and>
        StaticKMS_Decrypt s keyID w = Err (Msg ''static kms: unknown keyID %q'') \<and>
        StaticKMS_Encrypt s keyID p rnd = (Err (Msg ''static kms: unknown keyID %q''), rnd)
    | Some kek \<Rightarrow>
        length kek = 32 \<and>
        (\<exists>dek wrapped. StaticKMS_GenerateDataKey s keyID rnd = (Ok (dek, wrapped), rnd\<lparr>rd_data := drop 44 (rd_data rnd)\<rparr>) \<and>
          length dek = 32 \<and> StaticKMS_Decrypt s keyID wrapped = Ok dek) \<and>
        (if length p \<le> gcm_max
         then \<exists>c. StaticKMS_Encrypt s keyID p rnd = (Ok c, rnd\<lparr>rd_data := drop 12 (rd_data rnd)\<rparr>) \<and>
           StaticKMS_Decrypt s keyID c = Ok p
         else StaticKMS_Encrypt s keyID p rnd = (Panic, rnd\<lparr>rd_data := drop 12 (rd_data rnd)\<rparr>))) \<and>
    StaticKMS_Decrypt s keyID w \<noteq> Panic"
proof -
  have d: "StaticKMS_Decrypt s keyID w \<noteq> Panic"
    using static.decrypt_no_panic [of s keyID w] by (simp add: static_kms_def)
  show ?thesis
  proof (cases "keks s keyID")
    case None
    with d show ?thesis by (simp add: StaticKMS_unknown)
  next
    case (Some kek)
    then have reg: "kek_registered s keyID" using kms_reachable_registered [OF assms(1)] by simp
    have kek: "length kek = 32" using kms_reachable_keys [OF assms(1) Some] .
    obtain dek wrapped where g: "StaticKMS_GenerateDataKey s keyID rnd =
        (Ok (dek, wrapped), rnd\<lparr>rd_data := drop 44 (rd_data rnd)\<rparr>)"
      using StaticKMS_GenerateDataKey_returns [OF reg assms(2)] by blast
    have "length dek = 32 \<and> StaticKMS_Decrypt s keyID wrapped = Ok dek"
      using static.generate_unwraps [OF reg, of rnd dek wrapped] g by (simp add: static_kms_def)
    with g d Some kek StaticKMS_Encrypt_known [OF Some kek, of rnd p] assms(2) show ?thesis by simp
  qed
qed

lemma kms_keys_typed_witness:
  "\<exists>dek wrapped c. StaticKMS_GenerateDataKey (snd (StaticKMS_AddKey (snd (StaticKMS_AddKey NewStaticKMS (lit ''a'') (replicate 32 7)))
      (lit ''a'') [1])) (lit ''a'') \<lparr>rd_data = replicate 44 0, rd_end = EOF\<rparr> = (Ok (dek, wrapped), \<lparr>rd_data = [], rd_end = EOF\<rparr>) \<and>
    length dek = 32 \<and>
    StaticKMS_Encrypt (snd (StaticKMS_AddKey (snd (StaticKMS_AddKey NewStaticKMS (lit ''a'') (replicate 32 7)))
      (lit ''a'') [1])) (lit ''a'') [1, 2] \<lparr>rd_data = replicate 44 0, rd_end = EOF\<rparr> =
      (Ok c, \<lparr>rd_data = replicate 32 0, rd_end = EOF\<rparr>)"
proof -
  let ?s = "snd (StaticKMS_AddKey (snd (StaticKMS_AddKey NewStaticKMS (lit ''a'') (replicate 32 7))) (lit ''a'') [1])"
  have "kms_reachable ?s" by (intro kms_reachable.intros)
  moreover have "keks ?s (lit ''a'') = Some (replicate 32 7)"
    by (simp add: StaticKMS_AddKey_def AEADKeySize_def NewStaticKMS_def)
  moreover have "length [1, 2 :: byte] \<le> gcm_max" by (simp add: gcm_max_def)
  ultimately show ?thesis
    using kms_keys_typed [of ?s "\<lparr>rd_data = replicate 44 0, rd_end = EOF\<rparr>" "lit ''a''" "[]" "[1, 2]"] by auto
qed

end
