(* ===== verification/KmsLocks.thy ===== *)
theory KmsLocks
  imports Kms
begin

text \<open>
  \<^verbatim>\<open>src/kms.go\<close>: a \<open>StaticKMS\<close> shared by goroutines, with its \<^verbatim>\<open>sync.RWMutex\<close>. The calls run step by step and
  interleave: taking and releasing the lock, starting and finishing the write to the map, reading the map, drawing
  random bytes, sealing. Touching the map while another goroutine writes it is a fatal error of the Go runtime, so it
  is a stage of its own. The main result is that the calls are atomic, as the other theories take them.
\<close>

subsection \<open>Model\<close>

text \<open>
  \<^verbatim>\<open>RWMutex.Lock\<close> first announces the writer, which makes later readers wait, and then waits for the readers inside to
  leave. \<open>rw_writer\<close> is set from the announcement to the release, \<open>rw_readers\<close> counts the readers inside.
\<close>

record shared_kms =
  sk_kms :: StaticKMS
  sk_writing :: bool
  rw_writer :: bool
  rw_readers :: nat
  sk_rand :: reader

datatype kms_call =
    AddKeyCall gostring bytes
  | GenerateCall gostring
  | DecryptCall gostring bytes
  | EncryptCall gostring bytes

fun call_keyID :: "kms_call \<Rightarrow> gostring" where
  "call_keyID (AddKeyCall keyID key) = keyID"
| "call_keyID (GenerateCall keyID) = keyID"
| "call_keyID (DecryptCall keyID wrapped) = keyID"
| "call_keyID (EncryptCall keyID plaintext) = keyID"

fun is_AddKey :: "kms_call \<Rightarrow> bool" where
  "is_AddKey (AddKeyCall keyID key) = True"
| "is_AddKey _ = False"

datatype kms_result = Added "unit res" | Generated "(bytes \<times> bytes) res" | Decrypted "bytes res" | Encrypted "bytes res"

fun failed :: "kms_call \<Rightarrow> error \<Rightarrow> kms_result" where
  "failed (AddKeyCall keyID key) e = Added (Err e)"
| "failed (GenerateCall keyID) e = Generated (Err e)"
| "failed (DecryptCall keyID wrapped) e = Decrypted (Err e)"
| "failed (EncryptCall keyID plaintext) e = Encrypted (Err e)"

datatype kms_stage =
    Called | Checked | Announced | Locked | InWrite | Written
  | ReadLocked | Fetched "bytes res" | HasKey "bytes res" | Drew bytes bytes
  | Returned kms_result | FatalError

text \<open>\<open>kp_order\<close> is not part of the program: it records the order in which the calls took effect.\<close>

record kms_pool =
  kp_shared :: shared_kms
  kp_stage :: "kms_stage list"
  kp_order :: "nat list"

text \<open>The rest of a call once it has its key: no lock is held any more.\<close>

definition with_key :: "kms_call \<Rightarrow> bytes res \<Rightarrow> reader \<Rightarrow> kms_stage \<times> reader" where
  "with_key call k rnd =
     (case k of
        Err e \<Rightarrow> (Returned (failed call e), rnd)
      | Panic \<Rightarrow> (FatalError, rnd)
      | Ok kek \<Rightarrow>
          (case call of
             AddKeyCall keyID key \<Rightarrow> (FatalError, rnd)
           | GenerateCall keyID \<Rightarrow>
               (case RandomBytes (int AEADKeySize) rnd of
                  (Ok dek, rnd) \<Rightarrow> (Drew kek dek, rnd)
                | (Err e, rnd) \<Rightarrow> (Returned (Generated (Err e)), rnd)
                | (Panic, rnd) \<Rightarrow> (Returned (Generated Panic), rnd))
           | DecryptCall keyID wrapped \<Rightarrow> (Returned (Decrypted (Open kek wrapped [])), rnd)
           | EncryptCall keyID plaintext \<Rightarrow> (case Seal kek plaintext [] rnd of (ct, rnd) \<Rightarrow> (Returned (Encrypted ct), rnd))))"

definition wrap_key :: "bytes \<Rightarrow> bytes \<Rightarrow> reader \<Rightarrow> kms_stage \<times> reader" where
  "wrap_key kek dek rnd =
     (case Seal kek dek [] rnd of
        (Ok wrapped, rnd) \<Rightarrow> (Returned (Generated (Ok (dek, wrapped))), rnd)
      | (Err e, rnd) \<Rightarrow> (Returned (Generated (Err e)), rnd)
      | (Panic, rnd) \<Rightarrow> (Returned (Generated Panic), rnd))"

text \<open>The next step of goroutine \<open>i\<close>, which executes the call \<open>calls ! i\<close>; \<open>None\<close> if it has to wait or has returned.\<close>

definition kms_exec :: "kms_call list \<Rightarrow> nat \<Rightarrow> kms_pool \<Rightarrow> kms_pool option" where
  "kms_exec calls i pool =
     (let sh = kp_shared pool; call = calls ! i;
          become = (\<lambda>s sh. Some \<lparr>kp_shared = sh, kp_stage = (kp_stage pool)[i := s], kp_order = kp_order pool\<rparr>);
          effect = (\<lambda>s sh. Some \<lparr>kp_shared = sh, kp_stage = (kp_stage pool)[i := s], kp_order = kp_order pool @ [i]\<rparr>) in
      case kp_stage pool ! i of
        Called \<Rightarrow>
          (case call of
             AddKeyCall keyID key \<Rightarrow>
               (if length key \<noteq> AEADKeySize
                then effect (Returned (Added (Err (Wrap ''%w: KEK must be %d bytes; got %d'' ErrInvalidKey)))) sh
                else become Checked sh)
           | _ \<Rightarrow> if rw_writer sh then None else become ReadLocked (sh\<lparr>rw_readers := rw_readers sh + 1\<rparr>))
      | Checked \<Rightarrow> if rw_writer sh then None else become Announced (sh\<lparr>rw_writer := True\<rparr>)
      | Announced \<Rightarrow> if rw_readers sh \<noteq> 0 then None else become Locked sh
      | Locked \<Rightarrow> if sk_writing sh then become FatalError sh else become InWrite (sh\<lparr>sk_writing := True\<rparr>)
      | InWrite \<Rightarrow>
          (case call of
             AddKeyCall keyID key \<Rightarrow>
               effect Written (sh\<lparr>sk_writing := False, sk_kms := (sk_kms sh)\<lparr>keks := (keks (sk_kms sh))(keyID \<mapsto> key)\<rparr>\<rparr>)
           | _ \<Rightarrow> become FatalError sh)
      | Written \<Rightarrow> become (Returned (Added (Ok ()))) (sh\<lparr>rw_writer := False\<rparr>)
      | ReadLocked \<Rightarrow>
          (if sk_writing sh then become FatalError sh
           else effect (Fetched (StaticKMS_lookup (sk_kms sh) (call_keyID call))) sh)
      | Fetched k \<Rightarrow> become (HasKey k) (sh\<lparr>rw_readers := rw_readers sh - 1\<rparr>)
      | HasKey k \<Rightarrow> (case with_key call k (sk_rand sh) of (s, rnd) \<Rightarrow> become s (sh\<lparr>sk_rand := rnd\<rparr>))
      | Drew kek dek \<Rightarrow> (case wrap_key kek dek (sk_rand sh) of (s, rnd) \<Rightarrow> become s (sh\<lparr>sk_rand := rnd\<rparr>))
      | Returned res \<Rightarrow> None
      | FatalError \<Rightarrow> None)"

inductive kms_step :: "kms_call list \<Rightarrow> kms_pool \<Rightarrow> kms_pool \<Rightarrow> bool" for calls where
  step: "i < length (kp_stage pool) \<Longrightarrow> kms_exec calls i pool = Some pool' \<Longrightarrow> kms_step calls pool pool'"

inductive_cases kms_stepE: "kms_step calls pool pool'"

definition start_calls :: "StaticKMS \<Rightarrow> reader \<Rightarrow> nat \<Rightarrow> kms_pool" where
  "start_calls s rnd n =
     \<lparr>kp_shared = \<lparr>sk_kms = s, sk_writing = False, rw_writer = False, rw_readers = 0, sk_rand = rnd\<rparr>,
      kp_stage = replicate n Called, kp_order = []\<rparr>"

fun returned :: "kms_stage \<Rightarrow> bool" where
  "returned (Returned res) = True"
| "returned _ = False"

definition all_returned :: "kms_pool \<Rightarrow> bool" where
  "all_returned pool \<longleftrightarrow> list_all returned (kp_stage pool)"

subsection \<open>The same calls, one after the other\<close>

fun call_effect :: "kms_call \<Rightarrow> StaticKMS \<Rightarrow> StaticKMS" where
  "call_effect (AddKeyCall keyID key) s = snd (StaticKMS_AddKey s keyID key)"
| "call_effect _ s = s"

definition store_after :: "kms_call list \<Rightarrow> StaticKMS \<Rightarrow> nat list \<Rightarrow> StaticKMS" where
  "store_after calls s order = fold (\<lambda>i. call_effect (calls ! i)) order s"

text \<open>\<open>res\<close> is what the atomic call returns on the store \<open>s\<close>, drawing from some random source.\<close>

fun atomic_result :: "StaticKMS \<Rightarrow> kms_call \<Rightarrow> kms_result \<Rightarrow> bool" where
  "atomic_result s (AddKeyCall keyID key) res \<longleftrightarrow> res = Added (fst (StaticKMS_AddKey s keyID key))"
| "atomic_result s (GenerateCall keyID) res \<longleftrightarrow> (\<exists>rnd. res = Generated (fst (StaticKMS_GenerateDataKey s keyID rnd)))"
| "atomic_result s (DecryptCall keyID wrapped) res \<longleftrightarrow> res = Decrypted (StaticKMS_Decrypt s keyID wrapped)"
| "atomic_result s (EncryptCall keyID plaintext) res \<longleftrightarrow> (\<exists>rnd. res = Encrypted (fst (StaticKMS_Encrypt s keyID plaintext rnd)))"

subsection \<open>Counting the goroutines in given stages\<close>

fun writer_stage :: "kms_stage \<Rightarrow> bool" where
  "writer_stage Announced = True"
| "writer_stage Locked = True"
| "writer_stage InWrite = True"
| "writer_stage Written = True"
| "writer_stage _ = False"

fun exclusive :: "kms_stage \<Rightarrow> bool" where
  "exclusive Locked = True"
| "exclusive InWrite = True"
| "exclusive Written = True"
| "exclusive _ = False"

fun reader_stage :: "kms_stage \<Rightarrow> bool" where
  "reader_stage ReadLocked = True"
| "reader_stage (Fetched k) = True"
| "reader_stage _ = False"

definition number_in :: "(kms_stage \<Rightarrow> bool) \<Rightarrow> kms_stage list \<Rightarrow> nat" where
  "number_in P st = length (filter P st)"

lemma number_in_update:
  "i < length st \<Longrightarrow> number_in P (st[i := s]) + of_bool (P (st ! i)) = number_in P st + of_bool (P s)"
  unfolding number_in_def
proof (induction st arbitrary: i)
  case (Cons a st)
  show ?case
  proof (cases i)
    case (Suc j)
    with Cons.prems Cons.IH [of j] show ?thesis by auto
  qed auto
qed simp

lemma number_in_pos: "i < length st \<Longrightarrow> P (st ! i) \<Longrightarrow> 0 < number_in P st"
  unfolding number_in_def by (metis filter_empty_conv length_greater_0_conv nth_mem)

lemma number_in_obtain:
  assumes "0 < number_in P st"
  obtains i where "i < length st" "P (st ! i)"
  using assms unfolding number_in_def by (metis filter_empty_conv in_set_conv_nth length_greater_0_conv)

lemma number_in_disjoint:
  "(\<And>s. P s \<Longrightarrow> R s) \<Longrightarrow> (\<And>s. Q s \<Longrightarrow> R s) \<Longrightarrow> (\<And>s. P s \<Longrightarrow> \<not> Q s) \<Longrightarrow> number_in P st + number_in Q st \<le> number_in R st"
  unfolding number_in_def by (induction st) auto

subsection \<open>The lock\<close>

definition lock_inv :: "kms_pool \<Rightarrow> bool" where
  "lock_inv pool \<longleftrightarrow>
     (let sh = kp_shared pool; st = kp_stage pool in
      number_in writer_stage st = of_bool (rw_writer sh) \<and>
      number_in reader_stage st = rw_readers sh \<and>
      number_in ((=) InWrite) st = of_bool (sk_writing sh) \<and>
      (0 < number_in exclusive st \<longrightarrow> rw_readers sh = 0) \<and>
      number_in ((=) FatalError) st = 0)"

text \<open>With the lock, no goroutine touches the map while another writes it.\<close>

lemma lock_inv_excludes:
  assumes "lock_inv pool" and "i < length (kp_stage pool)" and "kp_stage pool ! i = Locked \<or> kp_stage pool ! i = ReadLocked"
  shows "\<not> sk_writing (kp_shared pool)"
proof
  let ?st = "kp_stage pool"
  assume "sk_writing (kp_shared pool)"
  then have w: "number_in ((=) InWrite) ?st = 1" and inv: "number_in writer_stage ?st \<le> 1"
      "number_in reader_stage ?st = rw_readers (kp_shared pool)"
      "0 < number_in exclusive ?st \<longrightarrow> rw_readers (kp_shared pool) = 0"
    using assms(1) by (auto simp: lock_inv_def Let_def)
  show False
  proof (cases "?st ! i = Locked")
    case True
    have "0 < number_in ((=) Locked) ?st" using number_in_pos [OF assms(2), of "(=) Locked"] True by simp
    moreover have "number_in ((=) Locked) ?st + number_in ((=) InWrite) ?st \<le> number_in writer_stage ?st"
      by (rule number_in_disjoint) auto
    ultimately show False using w inv(1) by simp
  next
    case False
    then have r: "0 < number_in reader_stage ?st" using assms(2,3) number_in_pos [of i ?st reader_stage] by simp
    have "0 < number_in ((=) InWrite) ?st" using w by simp
    then obtain j where j: "j < length ?st" "InWrite = ?st ! j" by (rule number_in_obtain)
    then have "0 < number_in exclusive ?st"
      using number_in_pos [of j ?st exclusive] by (simp flip: j(2))
    with r show False using inv by simp
  qed
qed

lemma lock_inv_holds:
  assumes "lock_inv pool" and "i < length (kp_stage pool)"
  shows "kp_stage pool ! i = InWrite \<Longrightarrow> sk_writing (kp_shared pool)"
    and "writer_stage (kp_stage pool ! i) \<Longrightarrow> rw_writer (kp_shared pool)"
    and "reader_stage (kp_stage pool ! i) \<Longrightarrow> 0 < rw_readers (kp_shared pool)"
    and "exclusive (kp_stage pool ! i) \<Longrightarrow> rw_readers (kp_shared pool) = 0"
  using assms number_in_pos [OF assms(2)] by (force simp: lock_inv_def Let_def)+

lemma exclusive_writer: "exclusive s \<Longrightarrow> writer_stage s"
  by (cases s) auto

lemma lock_inv_become:
  assumes inv: "lock_inv pool" and i: "i < length (kp_stage pool)" and s: "s \<noteq> FatalError"
    and w: "of_bool (rw_writer sh) + of_bool (writer_stage (kp_stage pool ! i)) =
      (of_bool (rw_writer (kp_shared pool)) + of_bool (writer_stage s) :: nat)"
    and r: "rw_readers sh + of_bool (reader_stage (kp_stage pool ! i)) = rw_readers (kp_shared pool) + of_bool (reader_stage s)"
    and m: "of_bool (sk_writing sh) + of_bool (InWrite = kp_stage pool ! i) =
      (of_bool (sk_writing (kp_shared pool)) + of_bool (InWrite = s) :: nat)"
    and entering: "exclusive s \<Longrightarrow> \<not> exclusive (kp_stage pool ! i) \<Longrightarrow> rw_readers (kp_shared pool) = 0"
    and reading: "reader_stage s \<Longrightarrow> \<not> reader_stage (kp_stage pool ! i) \<Longrightarrow> \<not> rw_writer (kp_shared pool)"
  shows "lock_inv \<lparr>kp_shared = sh, kp_stage = (kp_stage pool)[i := s], kp_order = order\<rparr>"
proof -
  let ?st = "kp_stage pool" and ?sh = "kp_shared pool"
  note u = number_in_update [OF i, of _ s]
  have old: "number_in writer_stage ?st = of_bool (rw_writer ?sh)" "number_in reader_stage ?st = rw_readers ?sh"
      "number_in ((=) InWrite) ?st = of_bool (sk_writing ?sh)" "0 < number_in exclusive ?st \<Longrightarrow> rw_readers ?sh = 0"
      "number_in ((=) FatalError) ?st = 0"
    using inv by (auto simp: lock_inv_def Let_def)
  have "number_in exclusive ?st \<le> number_in writer_stage ?st"
    using number_in_disjoint [of exclusive writer_stage "(=) Announced" ?st] exclusive_writer by fastforce
  then have none: "number_in exclusive ?st = 0" if "\<not> rw_writer ?sh" using old(1) that by simp
  have "rw_readers sh = 0" if pos: "0 < number_in exclusive (?st[i := s])"
  proof (cases "exclusive s")
    case True
    then have "rw_readers ?sh = 0"
      using entering old(4) number_in_pos [OF i, of exclusive] by (cases "exclusive (?st ! i)") auto
    moreover have "\<not> reader_stage s" using True by (cases s) auto
    ultimately show ?thesis using r by simp
  next
    case False
    then have "0 < number_in exclusive ?st" using u [of exclusive] pos by simp
    with old(4) none reading r show ?thesis by (cases "reader_stage s"; cases "reader_stage (?st ! i)") auto
  qed
  moreover have "?st ! i \<noteq> FatalError" using number_in_pos [OF i, of "(=) FatalError"] old(5) by auto
  ultimately show ?thesis
    using u [of writer_stage] u [of reader_stage] u [of "(=) InWrite"] u [of "(=) FatalError"] old w r m s
    by (auto simp: lock_inv_def Let_def)
qed

subsection \<open>The order of the calls\<close>

fun in_effect :: "kms_stage \<Rightarrow> bool" where
  "in_effect Written = True"
| "in_effect (Fetched k) = True"
| "in_effect (HasKey k) = True"
| "in_effect (Drew kek dek) = True"
| "in_effect (Returned res) = True"
| "in_effect _ = False"

text \<open>\<open>Q\<close> holds of the store that the calls before call \<open>i\<close> left.\<close>

definition took_effect :: "kms_call list \<Rightarrow> StaticKMS \<Rightarrow> nat list \<Rightarrow> nat \<Rightarrow> (StaticKMS \<Rightarrow> bool) \<Rightarrow> bool" where
  "took_effect calls s order i Q \<longleftrightarrow> (\<exists>pre post. order = pre @ i # post \<and> Q (store_after calls s pre))"

lemma took_effectI: "order = pre @ i # post \<Longrightarrow> Q (store_after calls s pre) \<Longrightarrow> took_effect calls s order i Q"
  unfolding took_effect_def by blast

lemma took_effect_later: "took_effect calls s order i Q \<Longrightarrow> took_effect calls s (order @ [j]) i Q"
  unfolding took_effect_def by fastforce

lemma took_effect_now: "Q (store_after calls s order) \<Longrightarrow> took_effect calls s (order @ [i]) i Q"
  unfolding took_effect_def by blast

fun stage_ok :: "kms_call list \<Rightarrow> StaticKMS \<Rightarrow> nat list \<Rightarrow> nat \<Rightarrow> kms_stage \<Rightarrow> bool" where
  "stage_ok calls s order i Called \<longleftrightarrow> True"
| "stage_ok calls s order i ReadLocked \<longleftrightarrow> \<not> is_AddKey (calls ! i)"
| "stage_ok calls s order i Written \<longleftrightarrow> took_effect calls s order i (\<lambda>s. atomic_result s (calls ! i) (Added (Ok ())))"
| "stage_ok calls s order i (Fetched k) \<longleftrightarrow> \<not> is_AddKey (calls ! i) \<and>
     took_effect calls s order i (\<lambda>s. k = StaticKMS_lookup s (call_keyID (calls ! i)))"
| "stage_ok calls s order i (HasKey k) \<longleftrightarrow> \<not> is_AddKey (calls ! i) \<and>
     took_effect calls s order i (\<lambda>s. k = StaticKMS_lookup s (call_keyID (calls ! i)))"
| "stage_ok calls s order i (Drew kek dek) \<longleftrightarrow> length dek = AEADKeySize \<and>
     (\<exists>keyID. calls ! i = GenerateCall keyID \<and> took_effect calls s order i (\<lambda>s. StaticKMS_lookup s keyID = Ok kek))"
| "stage_ok calls s order i (Returned res) \<longleftrightarrow> took_effect calls s order i (\<lambda>s. atomic_result s (calls ! i) res)"
| "stage_ok calls s order i FatalError \<longleftrightarrow> False"
| "stage_ok calls s order i _ \<longleftrightarrow> (\<exists>keyID key. calls ! i = AddKeyCall keyID key \<and> length key = AEADKeySize)"

lemma stage_ok_later: "stage_ok calls s order i t \<Longrightarrow> stage_ok calls s (order @ [j]) i t"
  by (cases t) (auto intro: took_effect_later)

definition order_inv :: "kms_call list \<Rightarrow> StaticKMS \<Rightarrow> kms_pool \<Rightarrow> bool" where
  "order_inv calls s pool \<longleftrightarrow>
     (let st = kp_stage pool; order = kp_order pool in
      length st = length calls \<and> sk_kms (kp_shared pool) = store_after calls s order \<and> distinct order \<and>
      (\<forall>i. i \<in> set order \<longleftrightarrow> i < length calls \<and> in_effect (st ! i)) \<and>
      (\<forall>i < length calls. stage_ok calls s order i (st ! i)))"

lemma order_inv_become:
  assumes "order_inv calls s pool" and "i < length (kp_stage pool)" and "sk_kms sh = sk_kms (kp_shared pool)"
    and "in_effect t \<longleftrightarrow> in_effect (kp_stage pool ! i)" and "stage_ok calls s (kp_order pool) i t"
  shows "order_inv calls s \<lparr>kp_shared = sh, kp_stage = (kp_stage pool)[i := t], kp_order = kp_order pool\<rparr>"
  using assms by (auto simp: order_inv_def Let_def nth_list_update)

lemma order_inv_effect:
  assumes "order_inv calls s pool" and "i < length (kp_stage pool)"
    and "sk_kms sh = call_effect (calls ! i) (sk_kms (kp_shared pool))"
    and "in_effect t" and "\<not> in_effect (kp_stage pool ! i)" and "stage_ok calls s (kp_order pool @ [i]) i t"
  shows "order_inv calls s \<lparr>kp_shared = sh, kp_stage = (kp_stage pool)[i := t], kp_order = kp_order pool @ [i]\<rparr>"
  using assms by (auto simp: order_inv_def Let_def nth_list_update store_after_def intro: stage_ok_later)

subsection \<open>What a call returns once it has its key\<close>

subsection \<open>What a call returns once it has its key\<close>

lemma with_key_result:
  assumes "\<not> is_AddKey call" and "with_key call (StaticKMS_lookup s (call_keyID call)) rnd = (t, rnd')"
  shows "(\<exists>res. t = Returned res \<and> atomic_result s call res) \<or>
    (\<exists>kek dek keyID. t = Drew kek dek \<and> call = GenerateCall keyID \<and> length dek = AEADKeySize \<and>
       StaticKMS_lookup s keyID = Ok kek)"
proof (cases call)
  case (GenerateCall keyID)
  show ?thesis
  proof (cases "StaticKMS_lookup s keyID")
    case (Ok kek)
    obtain r rnd1 where r: "RandomBytes (int AEADKeySize) rnd = (r, rnd1)" by (metis surj_pair)
    show ?thesis
    proof (cases r)
      case (Ok dek)
      then have "length dek = AEADKeySize" using r by (auto simp: RandomBytes_Ok_iff AEADKeySize_def)
      with Ok r \<open>StaticKMS_lookup s keyID = Ok kek\<close> assms(2) GenerateCall show ?thesis by (auto simp: with_key_def)
    qed (use r \<open>StaticKMS_lookup s keyID = Ok kek\<close> assms(2) GenerateCall in
        \<open>auto simp: with_key_def StaticKMS_GenerateDataKey_def intro!: exI [of _ rnd]\<close>)
  next
    case (Err e)
    with assms(2) GenerateCall show ?thesis
      by (auto simp: with_key_def StaticKMS_GenerateDataKey_def)
  qed (simp add: StaticKMS_lookup_def of_option_eq)
next
  case (DecryptCall keyID wrapped)
  with assms(2) show ?thesis
    by (auto simp: with_key_def StaticKMS_Decrypt_def StaticKMS_lookup_def of_option_eq split: res.splits)
next
  case (EncryptCall keyID plaintext)
  then show ?thesis
  proof (cases "StaticKMS_lookup s keyID")
    case (Ok kek)
    with EncryptCall assms(2) have "t = Returned (Encrypted (fst (StaticKMS_Encrypt s keyID plaintext rnd)))"
      by (auto simp: with_key_def StaticKMS_Encrypt_def split: prod.splits)
    with EncryptCall show ?thesis by auto
  next
    case (Err e)
    with EncryptCall assms(2) show ?thesis by (auto simp: with_key_def StaticKMS_Encrypt_def)
  qed (simp add: StaticKMS_lookup_def of_option_eq)
qed (use assms in simp)

lemma wrap_key_result:
  assumes "StaticKMS_lookup s keyID = Ok kek" and "length dek = AEADKeySize" and "wrap_key kek dek rnd = (t, rnd')"
  shows "\<exists>res. t = Returned res \<and> atomic_result s (GenerateCall keyID) res"
proof -
  let ?rnd = "rnd\<lparr>rd_data := dek @ rd_data rnd\<rparr>"
  have "RandomBytes (int AEADKeySize) ?rnd = (Ok dek, rnd)"
    using assms(2) by (simp add: RandomBytes_Ok_iff AEADKeySize_def)
  then have "t = Returned (Generated (fst (StaticKMS_GenerateDataKey s keyID ?rnd)))"
    using assms(1,3) by (auto simp: wrap_key_def StaticKMS_GenerateDataKey_def split: prod.splits res.splits)
  then show ?thesis by auto
qed

subsection \<open>Every step keeps both invariants\<close>

definition kms_inv :: "kms_call list \<Rightarrow> StaticKMS \<Rightarrow> kms_pool \<Rightarrow> bool" where
  "kms_inv calls s pool \<longleftrightarrow> lock_inv pool \<and> order_inv calls s pool"

lemma lookup_no_panic: "StaticKMS_lookup s keyID \<noteq> Panic"
  by (simp add: StaticKMS_lookup_def of_option_eq)

lemma read_effect: "\<not> is_AddKey call \<Longrightarrow> call_effect call s = s"
  by (cases call) auto

lemma kms_inv_step:
  assumes inv: "kms_inv calls s pool" and i: "i < length (kp_stage pool)" and ex: "kms_exec calls i pool = Some pool'"
  shows "kms_inv calls s pool'"
proof -
  have lock: "lock_inv pool" and order: "order_inv calls s pool" using inv by (simp_all add: kms_inv_def)
  have ok: "stage_ok calls s (kp_order pool) i (kp_stage pool ! i)" and store: "sk_kms (kp_shared pool) = store_after calls s (kp_order pool)"
    using order i by (auto simp: order_inv_def Let_def)
  note become = lock_inv_become [OF lock i] order_inv_become [OF order i]
  note effect = lock_inv_become [OF lock i] order_inv_effect [OF order i]
  show ?thesis
  proof (cases "kp_stage pool ! i")
    case Called
    then show ?thesis
    proof (cases "calls ! i")
      case (AddKeyCall keyID key)
      with Called ex show ?thesis
        by (auto simp: kms_exec_def Let_def kms_inv_def AEADKeySize_def StaticKMS_AddKey_def split: if_splits
            intro!: become effect took_effect_now)
    qed (use Called ex in \<open>auto simp: kms_exec_def Let_def kms_inv_def split: if_splits intro!: become\<close>)
  next
    case Checked
    with ex ok show ?thesis
      by (auto simp: kms_exec_def Let_def kms_inv_def split: if_splits intro!: become)
  next
    case Announced
    with ex ok show ?thesis
      by (auto simp: kms_exec_def Let_def kms_inv_def split: if_splits intro!: become)
  next
    case Locked
    with lock_inv_excludes [OF lock i] ex ok show ?thesis
      by (auto simp: kms_exec_def Let_def kms_inv_def split: if_splits intro!: become)
  next
    case InWrite
    with lock_inv_holds(1) [OF lock i] ex ok show ?thesis
      by (auto simp: kms_exec_def Let_def kms_inv_def StaticKMS_AddKey_def intro!: effect took_effect_now)
  next
    case Written
    with lock_inv_holds(2) [OF lock i] ex ok show ?thesis
      by (auto simp: kms_exec_def Let_def kms_inv_def intro!: become)
  next
    case ReadLocked
    with lock_inv_excludes [OF lock i] ex ok store show ?thesis
      by (auto simp: read_effect kms_exec_def Let_def kms_inv_def split: if_splits intro!: effect took_effect_now)
  next
    case (Fetched k)
    with lock_inv_holds(3) [OF lock i] ex ok show ?thesis
      by (auto simp: kms_exec_def Let_def kms_inv_def intro!: become)
  next
    case (HasKey k)
    obtain t rnd where t: "with_key (calls ! i) k (sk_rand (kp_shared pool)) = (t, rnd)" by (metis surj_pair)
    from HasKey ok have "\<not> is_AddKey (calls ! i)" and
      "took_effect calls s (kp_order pool) i (\<lambda>s. k = StaticKMS_lookup s (call_keyID (calls ! i)))" by simp_all
    then obtain pre post where p: "kp_order pool = pre @ i # post" and
      k: "k = StaticKMS_lookup (store_after calls s pre) (call_keyID (calls ! i))"
      by (auto simp: took_effect_def)
    from with_key_result [OF \<open>\<not> is_AddKey (calls ! i)\<close> t [unfolded k]]
    have "stage_ok calls s (kp_order pool) i t \<and> in_effect t \<and> (\<exists>res kek dek. t = Returned res \<or> t = Drew kek dek)"
      by (auto intro!: took_effectI [OF p])
    with HasKey ex t show ?thesis
      by (auto simp: kms_exec_def Let_def kms_inv_def intro!: become)
  next
    case (Drew kek dek)
    obtain t rnd where t: "wrap_key kek dek (sk_rand (kp_shared pool)) = (t, rnd)" by (metis surj_pair)
    from Drew ok obtain keyID where k: "length dek = AEADKeySize" "calls ! i = GenerateCall keyID"
      "took_effect calls s (kp_order pool) i (\<lambda>s. StaticKMS_lookup s keyID = Ok kek)" by auto
    then obtain pre post where p: "kp_order pool = pre @ i # post" and l: "StaticKMS_lookup (store_after calls s pre) keyID = Ok kek"
      by (auto simp: took_effect_def)
    from wrap_key_result [OF l k(1) t] have "stage_ok calls s (kp_order pool) i t \<and> (\<exists>res. t = Returned res)"
      by (auto simp: k(2) intro!: took_effectI [OF p])
    with Drew ex t show ?thesis
      by (auto simp: kms_exec_def Let_def kms_inv_def intro!: become)
  qed (use ex in \<open>simp_all add: kms_exec_def Let_def\<close>)
qed

lemma kms_inv_start: "kms_inv calls s (start_calls s rnd (length calls))"
  by (simp add: kms_inv_def lock_inv_def order_inv_def start_calls_def number_in_def store_after_def Let_def)

lemma kms_inv_reachable:
  "(kms_step calls ^^ k) (start_calls s rnd (length calls)) pool \<Longrightarrow> kms_inv calls s pool"
proof (induction k arbitrary: pool)
  case (Suc k)
  then obtain q where q: "(kms_step calls ^^ k) (start_calls s rnd (length calls)) q" "kms_step calls q pool" by auto
  from q(2) Suc.IH [OF q(1)] show ?case by (auto elim!: kms_stepE dest: kms_inv_step)
qed (simp add: kms_inv_start)

subsection \<open>The calls end\<close>

fun stages_left :: "kms_stage \<Rightarrow> nat" where
  "stages_left Called = 6"
| "stages_left Checked = 5"
| "stages_left Announced = 4"
| "stages_left Locked = 3"
| "stages_left InWrite = 2"
| "stages_left Written = 1"
| "stages_left ReadLocked = 4"
| "stages_left (Fetched k) = 3"
| "stages_left (HasKey k) = 2"
| "stages_left (Drew kek dek) = 1"
| "stages_left (Returned res) = 0"
| "stages_left FatalError = 0"

lemma with_key_left: "with_key call k rnd = (t, rnd') \<Longrightarrow> stages_left t < 2"
  by (auto simp: with_key_def split: res.splits kms_call.splits prod.splits)

lemma wrap_key_left: "wrap_key kek dek rnd = (t, rnd') \<Longrightarrow> stages_left t < 1"
  by (auto simp: wrap_key_def split: res.splits prod.splits)

lemma kms_exec_left:
  assumes "i < length (kp_stage pool)" and "kms_exec calls i pool = Some pool'"
  shows "sum_list (map stages_left (kp_stage pool')) < sum_list (map stages_left (kp_stage pool))"
proof -
  obtain t where "kp_stage pool' = (kp_stage pool)[i := t]" "stages_left t < stages_left (kp_stage pool ! i)"
    using assms(2)
    by (auto simp: kms_exec_def Let_def dest!: with_key_left wrap_key_left
        split: kms_stage.splits kms_call.splits prod.splits if_splits)
  then show ?thesis using sum_list_map_update [OF assms(1)] by simp
qed

lemma kms_run_left:
  "(kms_step calls ^^ k) pool pool' \<Longrightarrow>
     k + sum_list (map stages_left (kp_stage pool')) \<le> sum_list (map stages_left (kp_stage pool))"
proof (induction k arbitrary: pool')
  case (Suc k)
  then obtain q where q: "(kms_step calls ^^ k) pool q" "kms_step calls q pool'" by auto
  from q(2) have "sum_list (map stages_left (kp_stage pool')) < sum_list (map stages_left (kp_stage q))"
    by (auto elim!: kms_stepE dest: kms_exec_left)
  with Suc.IH [OF q(1)] show ?case by simp
qed simp

text \<open>Some goroutine can always go on: the lock is held by one that is not waiting, or it is free.\<close>

lemma kms_no_deadlock:
  assumes "kms_inv calls s pool"
  shows "all_returned pool \<or> (\<exists>pool'. kms_step calls pool pool')"
proof (rule disjCI)
  let ?st = "kp_stage pool" and ?sh = "kp_shared pool"
  assume "\<nexists>pool'. kms_step calls pool pool'"
  then have stuck: "kms_exec calls i pool = None" if "i < length ?st" for i
    using that by (meson kms_step.intros option.exhaust)
  have lock: "lock_inv pool" and order: "order_inv calls s pool" using assms by (simp_all add: kms_inv_def)
  have no_reader: "\<not> reader_stage (?st ! i)" if "i < length ?st" for i
    using stuck [OF that] by (cases "?st ! i") (auto simp: kms_exec_def Let_def split: if_splits)
  then have readers: "rw_readers ?sh = 0"
    using lock number_in_obtain [of reader_stage ?st] by (auto simp: lock_inv_def Let_def)
  have no_writer: "\<not> writer_stage (?st ! i)" if "i < length ?st" for i
    using stuck [OF that] readers
    by (cases "?st ! i") (auto simp: kms_exec_def Let_def split: if_splits kms_call.splits)
  then have free: "\<not> rw_writer ?sh"
    using lock number_in_obtain [of writer_stage ?st] by (auto simp: lock_inv_def Let_def)
  have "returned (?st ! i)" if i: "i < length ?st" for i
  proof -
    have "stage_ok calls s (kp_order pool) i (?st ! i)" using order i by (auto simp: order_inv_def Let_def)
    then show ?thesis
      using stuck [OF i] free no_reader [OF i] no_writer [OF i]
      by (cases "?st ! i") (auto simp: kms_exec_def Let_def split: if_splits kms_call.splits prod.splits)
  qed
  then show "all_returned pool" by (simp add: all_returned_def list_all_length)
qed

lemma kms_step_order: "kms_step calls pool pool' \<Longrightarrow> \<exists>later. kp_order pool' = kp_order pool @ later"
  by (auto elim!: kms_stepE simp: kms_exec_def Let_def split: kms_stage.splits kms_call.splits prod.splits if_splits)

lemma kms_run_order: "(kms_step calls ^^ k) pool pool' \<Longrightarrow> \<exists>later. kp_order pool' = kp_order pool @ later"
proof (induction k arbitrary: pool')
  case (Suc k)
  then obtain q where "(kms_step calls ^^ k) pool q" "kms_step calls q pool'" by auto
  with Suc.IH kms_step_order show ?case by (metis append.assoc)
qed simp

subsection \<open>Properties\<close>

text \<open>Property C13: the mutex of \<open>StaticKMS\<close> makes its calls atomic. In every interleaving of any calls by any number of
  goroutines: no goroutine touches the map while another writes it, no goroutine waits for ever (as long as one has not
  returned some goroutine can go on, and there are at most six steps for each call), and there is an order of the
  calls such that the key store is the one they leave when made one after the other in that order, and each call that
  has returned has the result of the sequential operation on the store at its place in the order. The order only grows
  at the end, contains the calls that have returned and none that has not begun, so a call that returned before
  another began comes before it.\<close>

theorem kms_calls_atomic:
  assumes "(kms_step calls ^^ k) (start_calls s rnd (length calls)) pool"
  shows "FatalError \<notin> set (kp_stage pool) \<and>
    k \<le> 6 * length calls \<and> (list_all returned (kp_stage pool) \<or> (\<exists>pool'. kms_step calls pool pool')) \<and>
    distinct (kp_order pool) \<and> sk_kms (kp_shared pool) = store_after calls s (kp_order pool) \<and>
    (\<forall>i < length calls. \<forall>res. kp_stage pool ! i = Returned res \<longrightarrow>
       (\<exists>pre post. kp_order pool = pre @ i # post \<and> atomic_result (store_after calls s pre) (calls ! i) res)) \<and>
    (\<forall>i < length calls. kp_stage pool ! i = Called \<longrightarrow> i \<notin> set (kp_order pool)) \<and>
    (\<forall>pool'. kms_step calls pool pool' \<longrightarrow> (\<exists>later. kp_order pool' = kp_order pool @ later))"
proof -
  from kms_inv_reachable [OF assms] have inv: "kms_inv calls s pool" .
  then have order: "order_inv calls s pool" and "number_in ((=) FatalError) (kp_stage pool) = 0"
    by (simp_all add: kms_inv_def lock_inv_def Let_def)
  then have "FatalError \<notin> set (kp_stage pool)" by (auto simp: number_in_def filter_empty_conv)
  moreover have "k \<le> 6 * length calls"
    using kms_run_left [OF assms] by (simp add: start_calls_def sum_list_replicate)
  moreover have "list_all returned (kp_stage pool) \<or> (\<exists>pool'. kms_step calls pool pool')"
    using kms_no_deadlock [OF inv] by (simp add: all_returned_def)
  moreover have "distinct (kp_order pool)" "sk_kms (kp_shared pool) = store_after calls s (kp_order pool)"
    using order by (simp_all add: order_inv_def Let_def)
  moreover have "\<exists>pre post. kp_order pool = pre @ i # post \<and> atomic_result (store_after calls s pre) (calls ! i) res"
    if "i < length calls" "kp_stage pool ! i = Returned res" for i res
  proof -
    have "stage_ok calls s (kp_order pool) i (kp_stage pool ! i)" using order that(1) by (simp add: order_inv_def Let_def)
    with that(2) show ?thesis by (simp add: took_effect_def)
  qed
  moreover have "i \<notin> set (kp_order pool)" if "i < length calls" "kp_stage pool ! i = Called" for i
    using order that by (auto simp: order_inv_def Let_def)
  ultimately show ?thesis using kms_step_order by blast
qed

text \<open>A lookup that takes the read lock before a registration has announced itself is ordered before it.\<close>

lemma kms_calls_atomic_witness:
  "\<exists>pool. (kms_step [AddKeyCall [107] (replicate 32 0), DecryptCall [107] []] ^^ 2)
       (start_calls NewStaticKMS \<lparr>rd_data = [], rd_end = EOF\<rparr> (length [AddKeyCall [107] (replicate 32 0), DecryptCall [107] []])) pool \<and>
     kp_order pool = [1] \<and> kp_stage pool ! 0 = Called \<and> FatalError \<notin> set (kp_stage pool)"
proof -
  let ?calls = "[AddKeyCall [107] (replicate 32 0), DecryptCall [107] []]"
  let ?start = "start_calls NewStaticKMS \<lparr>rd_data = [], rd_end = EOF\<rparr> (length ?calls)"
  let ?shared = "kp_shared ?start\<lparr>rw_readers := 1\<rparr>"
  let ?p = "\<lparr>kp_shared = ?shared, kp_stage = [Called, ReadLocked], kp_order = []\<rparr>"
  let ?q = "\<lparr>kp_shared = ?shared, kp_stage = [Called, Fetched (StaticKMS_lookup NewStaticKMS [107])], kp_order = [1]\<rparr>"
  have "kms_step ?calls ?start ?p"
    by (rule kms_step.step [of 1]) (simp_all add: start_calls_def kms_exec_def Let_def numeral_2_eq_2)
  moreover have "kms_step ?calls ?p ?q"
    by (rule kms_step.step [of 1]) (simp_all add: start_calls_def kms_exec_def Let_def)
  ultimately have "(kms_step ?calls ^^ 2) ?start ?q" by (auto simp: numeral_2_eq_2)
  with kms_calls_atomic [OF this] show ?thesis by (intro exI [of _ ?q]) auto
qed

end
