(* ===== verification/Streaming.thy ===== *)
theory Streaming
  imports Aead
begin

text \<open>
  \<^verbatim>\<open>src/stream.go\<close>: chunked encryption from a reader to a writer. The chunk counter is the 32-bit word of
  the code, with its wrap-around. The sealing loop has no bound of its own (it ends when the reader
  does), so it is a partial function and that it returns is a theorem; the opening loop is a function
  whose termination measure is the data left to read.
\<close>

subsection \<open>Constants, nonce and associated data\<close>

definition streamMagic :: bytes where
  "streamMagic = lit ''CRSV''"

definition streamVersion :: byte where
  "streamVersion = 0x01"

definition streamNoncePrefix :: nat where
  "streamNoncePrefix = 8"

definition streamHeaderSize :: nat where
  "streamHeaderSize = 4 + 1 + streamNoncePrefix"

definition DefaultStreamChunkSize :: int where
  "DefaultStreamChunkSize = 64 * 1024"

definition streamMaxChunkSize :: int where
  "streamMaxChunkSize = 2 ^ 30"

definition makeStreamNonce :: "bytes \<Rightarrow> 32 word \<Rightarrow> bytes" where
  "makeStreamNonce prefix counter =
     take streamNoncePrefix prefix @ replicate (streamNoncePrefix - length prefix) 0 @ PutUint32 counter"

definition streamAAD :: "32 word \<Rightarrow> bool \<Rightarrow> bytes" where
  "streamAAD counter isLast = PutUint32 counter @ [if isLast then 0x01 else 0]"

definition write_res :: "bytes \<Rightarrow> writer \<Rightarrow> unit res \<times> writer" where
  "write_res p w = (case Write p w of (None, w) \<Rightarrow> (Ok (), w) | (Some e, w) \<Rightarrow> (Err e, w))"

subsection \<open>Sealing\<close>

text \<open>One pass through the body of the loop after the read: seal the chunk, write its length and the chunk.\<close>

definition seal_chunk ::
    "AEAD \<Rightarrow> bytes \<Rightarrow> 32 word \<Rightarrow> bool \<Rightarrow> bytes \<Rightarrow> writer \<Rightarrow> unit res \<times> writer" where
  "seal_chunk gcm noncePrefix counter isLast buf w =
     then_do (aead_Seal gcm (makeStreamNonce noncePrefix counter) buf (streamAAD counter isLast), w) (\<lambda>ct w.
       let lenField = PutUint32 (word_of_nat (length ct));
           lenField = (if isLast then lenField[0 := lenField ! 0 OR 0x80] else lenField)
       in then_do (write_res lenField w) (\<lambda>_ w. write_res ct w))"

partial_function (option) SealStream_loop ::
    "AEAD \<Rightarrow> bytes \<Rightarrow> nat \<Rightarrow> 32 word \<Rightarrow> reader \<Rightarrow> writer \<Rightarrow> (unit res \<times> reader \<times> writer) option" where
  "SealStream_loop gcm noncePrefix chunkSize counter r w =
     (case ReadFull chunkSize r of ((buf, err), r) \<Rightarrow>
        if \<not> (err = None \<or> err = Some EOF \<or> err = Some ErrUnexpectedEOF) then Some (Err (the err), r, w)
        else
          let isLast = (err \<noteq> None) in
          (case seal_chunk gcm noncePrefix counter isLast buf w of
             (Err e, w) \<Rightarrow> Some (Err e, r, w)
           | (Panic, w) \<Rightarrow> Some (Panic, r, w)
           | (Ok _, w) \<Rightarrow>
               if isLast then Some (Ok (), r, w)
               else SealStream_loop gcm noncePrefix chunkSize (counter + 1) r w))"

text \<open>The result, the reader and the writer afterwards, and the random source afterwards.\<close>

definition SealStream ::
    "bytes \<Rightarrow> reader \<Rightarrow> writer \<Rightarrow> int \<Rightarrow> reader \<Rightarrow> ((unit res \<times> reader \<times> writer) \<times> reader) option" where
  "SealStream key r w chunkSize rnd =
     (if length key \<noteq> AEADKeySize
      then Some ((Err (Wrap ''%w: stream requires %d-byte key; got %d'' ErrInvalidKey), r, w), rnd)
      else if chunkSize \<le> 0 \<or> streamMaxChunkSize < chunkSize
      then Some ((Err (Msg ''crypt: chunkSize must be in (0, %d]; got %d''), r, w), rnd)
      else
        case and_then (aes_NewCipher key) cipher_NewGCM of
          Err e \<Rightarrow> Some ((Err e, r, w), rnd)
        | Panic \<Rightarrow> Some ((Panic, r, w), rnd)
        | Ok gcm \<Rightarrow>
            (case read_rand (\<lambda>e. e) streamNoncePrefix rnd of
               (Err e, rnd) \<Rightarrow> Some ((Err e, r, w), rnd)
             | (Panic, rnd) \<Rightarrow> Some ((Panic, r, w), rnd)
             | (Ok noncePrefix, rnd) \<Rightarrow>
                 (case then_do (write_res streamMagic w) (\<lambda>_ w.
                       then_do (write_res [streamVersion] w) (\<lambda>_ w. write_res noncePrefix w)) of
                    (Err e, w) \<Rightarrow> Some ((Err e, r, w), rnd)
                  | (Panic, w) \<Rightarrow> Some ((Panic, r, w), rnd)
                  | (Ok _, w) \<Rightarrow>
                      map_option (\<lambda>res. (res, rnd))
                        (SealStream_loop gcm noncePrefix (nat chunkSize) 0 r w))))"

subsection \<open>Opening\<close>

lemma ReadFull_shrinks:
  "ReadFull n r = (res, r') \<Longrightarrow> length (rd_data r') = length (rd_data r) - n"
  by (auto simp: ReadFull_def split: if_splits)

function OpenStream_loop ::
    "AEAD \<Rightarrow> bytes \<Rightarrow> 32 word \<Rightarrow> reader \<Rightarrow> writer \<Rightarrow> unit res \<times> reader \<times> writer" where
  "OpenStream_loop gcm noncePrefix counter r w =
     (case ReadFull 4 r of
        ((lenField, Some e), r) \<Rightarrow>
          (if e = EOF \<or> e = ErrUnexpectedEOF then (Err ErrTruncated, r, w) else (Err e, r, w))
      | ((lenField, None), r) \<Rightarrow>
          let isLast = (lenField ! 0 AND 0x80 \<noteq> 0);
              ctLen = Uint32 (lenField[0 := lenField ! 0 AND 0x7F])
          in
          (case ReadFull (unat ctLen) r of
             ((ct, Some e), r) \<Rightarrow> (Err (Wrap ''%w: chunk read: %v'' ErrInvalidCiphertext), r, w)
           | ((ct, None), r) \<Rightarrow>
               (case aead_Open gcm (makeStreamNonce noncePrefix counter) ct (streamAAD counter isLast) of
                  Err e \<Rightarrow> (Err (Wrap ''%w: chunk %d: %v'' ErrTampered), r, w)
                | Panic \<Rightarrow> (Panic, r, w)
                | Ok pt \<Rightarrow>
                    (case write_res pt w of
                       (Err e, w) \<Rightarrow> (Err e, r, w)
                     | (Panic, w) \<Rightarrow> (Panic, r, w)
                     | (Ok _, w) \<Rightarrow>
                         if isLast then (Ok (), r, w)
                         else OpenStream_loop gcm noncePrefix (counter + 1) r w))))"
  by pat_completeness auto
termination
proof (relation "measure (\<lambda>(gcm, noncePrefix, counter, r, w). length (rd_data r))", goal_cases)
  case (2 gcm noncePrefix counter r w a r1)
  then show ?case by (auto simp: ReadFull_def split: if_splits)
qed simp

declare OpenStream_loop.simps [simp del]

definition OpenStream :: "bytes \<Rightarrow> reader \<Rightarrow> writer \<Rightarrow> unit res \<times> reader \<times> writer" where
  "OpenStream key r w =
     (if length key \<noteq> AEADKeySize
      then (Err (Wrap ''%w: stream requires %d-byte key; got %d'' ErrInvalidKey), r, w)
      else
        case ReadFull streamHeaderSize r of
          ((hdr, Some e), r) \<Rightarrow> (Err (Wrap ''%w: header read: %v'' ErrInvalidCiphertext), r, w)
        | ((hdr, None), r) \<Rightarrow>
            if take 4 hdr \<noteq> streamMagic then (Err (Wrap ''%w: bad magic'' ErrInvalidCiphertext), r, w)
            else if hdr ! 4 \<noteq> streamVersion
            then (Err (Wrap ''%w: stream version 0x%02x'' ErrUnsupportedVersion), r, w)
            else
              case and_then (aes_NewCipher key) cipher_NewGCM of
                Err e \<Rightarrow> (Err e, r, w)
              | Panic \<Rightarrow> (Panic, r, w)
              | Ok gcm \<Rightarrow> OpenStream_loop gcm (take streamNoncePrefix (drop 5 hdr)) 0 r w)"

subsection \<open>The length field\<close>

definition len_field :: "bool \<Rightarrow> nat \<Rightarrow> bytes" where
  "len_field isLast n =
     (let f = PutUint32 (word_of_nat n) in if isLast then f[0 := f ! 0 OR 0x80] else f)"

definition field_last :: "bytes \<Rightarrow> bool" where
  "field_last f \<longleftrightarrow> f ! 0 AND 0x80 \<noteq> 0"

definition field_len :: "bytes \<Rightarrow> nat" where
  "field_len f = unat (Uint32 (f[0 := f ! 0 AND 0x7F]))"

lemma high_bit:
  fixes x :: byte
  shows "x AND 0x80 \<noteq> 0 \<longleftrightarrow> bit x 7" and "\<not> bit x 7 \<Longrightarrow> x AND 0x7F = x"
    and "\<not> bit x 7 \<Longrightarrow> (x OR 0x80) AND 0x7F = x" and "bit x 7 \<Longrightarrow> (x AND 0x7F) OR 0x80 = x"
    and "\<not> bit (x AND 0x7F) 7" and "bit (x OR 0x80) 7"
proof -
  have "x AND 0x80 = 0" if "\<not> bit x 7" using that by (intro byte_eqI) (simp_all add: bit_and_iff)
  moreover have "bit (x AND 0x80) 7" if "bit x 7" using that by (simp add: bit_and_iff)
  ultimately show "x AND 0x80 \<noteq> 0 \<longleftrightarrow> bit x 7" by force
  show "\<not> bit x 7 \<Longrightarrow> x AND 0x7F = x" by (rule byte_eqI) (simp_all add: bit_and_iff)
  show "\<not> bit x 7 \<Longrightarrow> (x OR 0x80) AND 0x7F = x" by (rule byte_eqI) (simp_all add: bit_and_iff bit_or_iff)
  show "bit x 7 \<Longrightarrow> (x AND 0x7F) OR 0x80 = x" by (rule byte_eqI) (simp_all add: bit_and_iff bit_or_iff)
  show "\<not> bit (x AND 0x7F) 7" by (simp add: bit_and_iff)
  show "bit (x OR 0x80) 7" by (simp add: bit_or_iff)
qed

lemma PutUint32_first: "PutUint32 w = ucast (drop_bit 24 w) # drop 1 (PutUint32 w)"
  by (simp add: PutUint32_def)

lemma top_bit_small:
  assumes "n < 2 ^ 31"
  shows "\<not> bit (ucast (drop_bit 24 (word_of_nat n :: 32 word)) :: byte) 7"
proof -
  have "\<not> bit (n :: nat) 31" using assms by (metis bit_iff_odd div_less even_zero)
  then show ?thesis by (simp add: bit_simps)
qed

lemma length_len_field [simp]: "length (len_field l n) = 4"
  by (simp add: len_field_def Let_def)

lemma field_of_len:
  assumes "n < 2 ^ 31"
  shows "field_last (len_field l n) \<longleftrightarrow> l" and "field_len (len_field l n) = n"
proof -
  let ?w = "word_of_nat n :: 32 word"
  let ?b = "ucast (drop_bit 24 ?w) :: byte"
  obtain fs where fs: "PutUint32 ?w = ?b # fs" using PutUint32_first [of ?w] by metis
  note small = top_bit_small [OF assms]
  show "field_last (len_field l n) \<longleftrightarrow> l"
    unfolding field_last_def high_bit(1) using small
    by (simp add: len_field_def fs Let_def high_bit(6))
  have "(len_field l n)[0 := len_field l n ! 0 AND 0x7F] = PutUint32 ?w"
    using small by (simp add: len_field_def fs Let_def high_bit(2,3))
  then show "field_len (len_field l n) = n"
    using assms by (simp add: field_len_def unat_of_nat)
qed

lemma len_of_field:
  assumes "length f = 4"
  shows "len_field (field_last f) (field_len f) = f" and "field_len f < 2 ^ 31"
proof -
  obtain b fs where f: "f = b # fs" "length fs = 3" using assms by (cases f) auto
  let ?g = "(b AND 0x7F) # fs" and ?w = "Uint32 ((b AND 0x7F) # fs)"
  have g: "PutUint32 ?w = ?g" using f by (simp add: PutUint32_Uint32)
  have w: "word_of_nat (unat ?w) = ?w" by simp
  show "len_field (field_last f) (field_len f) = f"
    using high_bit(2,4) [of b]
    by (simp add: len_field_def field_len_def field_last_def f g Let_def high_bit(1))
  have "\<not> bit ?w 31"
  proof -
    have "ucast (drop_bit 24 ?w) = b AND 0x7F"
      using g PutUint32_first [of ?w] by (metis list.inject)
    then have "bit (ucast (drop_bit 24 ?w) :: byte) 7 = False" using high_bit(5) by simp
    then show ?thesis by (simp add: bit_simps)
  qed
  then have "\<not> bit (unat ?w) 31" by (simp add: bit_simps)
  then have "even (unat ?w div 2 ^ 31)" by (simp add: bit_iff_odd)
  moreover have "unat ?w div 2 ^ 31 < 2" using unat_32_bound [of ?w] by (simp add: less_mult_imp_div_less)
  ultimately have "unat ?w div 2 ^ 31 = 0" by (auto simp: less_2_cases_iff)
  then have "unat ?w < 2 ^ 31" by (simp add: div_eq_0_iff)
  then show "field_len f < 2 ^ 31" by (simp add: field_len_def f)
qed

subsection \<open>What a sealed stream looks like\<close>

definition chunk_ct :: "AEAD \<Rightarrow> bytes \<Rightarrow> 32 word \<Rightarrow> bool \<Rightarrow> bytes \<Rightarrow> bytes" where
  "chunk_ct g np c l b =
     (case aead_Seal g (makeStreamNonce np c) b (streamAAD c l) of Ok ct \<Rightarrow> ct | Err e \<Rightarrow> [] | Panic \<Rightarrow> [])"

definition chunk_frame :: "bool \<Rightarrow> bytes \<Rightarrow> bytes" where
  "chunk_frame l ct = len_field l (length ct) @ ct"

fun stream_body :: "AEAD \<Rightarrow> bytes \<Rightarrow> 32 word \<Rightarrow> bytes list \<Rightarrow> bytes" where
  "stream_body g np c [] = []"
| "stream_body g np c (b # bs) =
     chunk_frame (bs = []) (chunk_ct g np c (bs = []) b) @ stream_body g np (c + 1) bs"

text \<open>How the sealing loop cuts its input: full chunks and one last chunk that is shorter, possibly empty.\<close>

function chunks :: "nat \<Rightarrow> bytes \<Rightarrow> bytes list" where
  "chunks n d = (if n = 0 \<or> length d < n then [d] else take n d # chunks n (drop n d))"
  by pat_completeness auto
termination
  by (relation "measure (\<lambda>(n, d). length d)") auto

declare chunks.simps [simp del]

lemma concat_chunks [simp]: "concat (chunks n d) = d"
  by (induction n d rule: chunks.induct) (simp add: chunks.simps)

lemma chunks_not_Nil [simp]: "chunks n d \<noteq> []"
  by (simp add: chunks.simps)

lemma chunks_bound: "0 < n \<Longrightarrow> list_all (\<lambda>b. length b \<le> n) (chunks n d)"
proof (induction n d rule: chunks.induct)
  case (1 n d)
  then show ?case by (simp add: chunks.simps [of n d])
qed

lemma length_makeStreamNonce [simp]: "length (makeStreamNonce np c) = 12"
  by (simp add: makeStreamNonce_def streamNoncePrefix_def min_def)

lemma makeStreamNonce_inject: "makeStreamNonce np c = makeStreamNonce np c' \<longleftrightarrow> c = c'"
  by (simp add: makeStreamNonce_def)

lemma write_res_unlimited [simp]:
  "wr_left w = None \<Longrightarrow> write_res p w = (Ok (), w\<lparr>wr_out := wr_out w @ p\<rparr>)"
  by (simp add: write_res_def)

subsection \<open>The loops over a cipher that meets the contract\<close>

text \<open>A chunk the length field can describe and the cipher can seal.\<close>

definition chunk_fits :: "nat \<Rightarrow> bytes \<Rightarrow> bool" where
  "chunk_fits maxlen b \<longleftrightarrow> length b + 16 < 2 ^ 31 \<and> length b \<le> maxlen"

context aead
begin

lemma chunk_ct_Ok:
  assumes "ok k" and "length b \<le> maxlen"
  shows "aead_Seal (mk k) (makeStreamNonce np c) b (streamAAD c l) = Ok (chunk_ct (mk k) np c l b)"
    and "length (chunk_ct (mk k) np c l b) = length b + 16"
    and "aead_Open (mk k) (makeStreamNonce np c) (chunk_ct (mk k) np c l b) (streamAAD c l) = Ok b"
proof -
  obtain ct where "aead_Seal (mk k) (makeStreamNonce np c) b (streamAAD c l) = Ok ct"
    using seal_Ok [OF assms(1) length_makeStreamNonce assms(2)] by blast
  then show s: "aead_Seal (mk k) (makeStreamNonce np c) b (streamAAD c l) = Ok (chunk_ct (mk k) np c l b)"
    by (simp add: chunk_ct_def)
  show "length (chunk_ct (mk k) np c l b) = length b + 16" by (rule seal_length [OF assms(1) s])
  show "aead_Open (mk k) (makeStreamNonce np c) (chunk_ct (mk k) np c l b) (streamAAD c l) = Ok b"
    using s by (simp add: open_iff [OF assms(1)])
qed

lemma seal_chunk_unlimited:
  assumes "ok k" and "length b \<le> maxlen" and "wr_left w = None"
  shows "seal_chunk (mk k) np c l b w =
    (Ok (), w\<lparr>wr_out := wr_out w @ chunk_frame l (chunk_ct (mk k) np c l b)\<rparr>)"
  using assms(3)
  by (simp add: seal_chunk_def chunk_ct_Ok(1) [OF assms(1,2)] chunk_frame_def len_field_def Let_def)

lemma SealStream_loop_output:
  assumes "ok k" and "0 < n" and "n \<le> maxlen" and "wr_left w = None"
    and "rd_end r = EOF \<or> rd_end r = ErrUnexpectedEOF"
  shows "SealStream_loop (mk k) np n c r w =
    Some (Ok (), r\<lparr>rd_data := []\<rparr>, w\<lparr>wr_out := wr_out w @ stream_body (mk k) np c (chunks n (rd_data r))\<rparr>)"
  using assms(4,5)
proof (induction "length (rd_data r)" arbitrary: r w c rule: less_induct)
  case less
  show ?case
  proof (cases "length (rd_data r) < n")
    case True
    then have "length (rd_data r) \<le> maxlen" using assms(3) by simp
    with True less.prems show ?thesis
      by (auto simp: SealStream_loop.simps ReadFull_short Let_def chunks.simps
          seal_chunk_unlimited [OF assms(1)])
  next
    case False
    let ?r = "r\<lparr>rd_data := drop n (rd_data r)\<rparr>"
    let ?w = "w\<lparr>wr_out := wr_out w @ chunk_frame False (chunk_ct (mk k) np c False (take n (rd_data r)))\<rparr>"
    have "length (take n (rd_data r)) \<le> maxlen" using assms(3) by simp
    then have "SealStream_loop (mk k) np n c r w = SealStream_loop (mk k) np n (c + 1) ?r ?w"
      using False less.prems
      by (subst SealStream_loop.simps)
        (simp add: ReadFull_enough Let_def seal_chunk_unlimited [OF assms(1)])
    also have "\<dots> = Some (Ok (), ?r\<lparr>rd_data := []\<rparr>,
        ?w\<lparr>wr_out := wr_out ?w @ stream_body (mk k) np (c + 1) (chunks n (rd_data ?r))\<rparr>)"
      using False assms(2) less.prems by (intro less.hyps) auto
    finally show ?thesis using False assms(2) by (simp add: chunks.simps [of n "rd_data r"])
  qed
qed

end

text \<open>The sealing loop returns for every cipher, reader and writer, failing ones included.\<close>

lemma SealStream_loop_returns: "0 < n \<Longrightarrow> \<exists>res. SealStream_loop g np n c r w = Some res"
proof (induction "length (rd_data r)" arbitrary: r w c rule: less_induct)
  case less
  show ?case
  proof (cases "length (rd_data r) < n")
    case True
    then show ?thesis
      by (subst SealStream_loop.simps) (auto simp: ReadFull_short Let_def split: prod.split res.split)
  next
    case False
    then have "\<exists>res. SealStream_loop g np n (c + 1) (r\<lparr>rd_data := drop n (rd_data r)\<rparr>) w' = Some res" for w'
      using less.prems by (intro less.hyps) auto
    with False show ?thesis
      by (subst SealStream_loop.simps) (auto simp: ReadFull_enough Let_def split: prod.split res.split)
  qed
qed

text \<open>One pass of the opening loop, in terms of the length field it reads.\<close>

lemma OpenStream_loop_step:
  "OpenStream_loop g np c r w =
     (let d = rd_data r; f = take 4 d; n = field_len f in
      if length d < 4
      then (Err (if rd_end r = EOF \<or> rd_end r = ErrUnexpectedEOF then ErrTruncated else rd_end r),
            r\<lparr>rd_data := []\<rparr>, w)
      else if length d < 4 + n
      then (Err (Wrap ''%w: chunk read: %v'' ErrInvalidCiphertext), r\<lparr>rd_data := []\<rparr>, w)
      else
        let r = r\<lparr>rd_data := drop (4 + n) d\<rparr> in
        case aead_Open g (makeStreamNonce np c) (take n (drop 4 d)) (streamAAD c (field_last f)) of
          Err e \<Rightarrow> (Err (Wrap ''%w: chunk %d: %v'' ErrTampered), r, w)
        | Panic \<Rightarrow> (Panic, r, w)
        | Ok pt \<Rightarrow>
            (case write_res pt w of
               (Err e, w) \<Rightarrow> (Err e, r, w)
             | (Panic, w) \<Rightarrow> (Panic, r, w)
             | (Ok _, w) \<Rightarrow>
                 if field_last f then (Ok (), r, w) else OpenStream_loop g np (c + 1) r w))"
proof (cases "length (rd_data r) < 4")
  case True
  then show ?thesis by (subst OpenStream_loop.simps) (simp add: ReadFull_short Let_def)
next
  case False
  let ?d = "rd_data r"
  let ?f = "take 4 ?d"
  let ?n = "field_len ?f" and ?r1 = "r\<lparr>rd_data := drop 4 ?d\<rparr>"
  have n: "unat (Uint32 (?f[0 := ?f ! 0 AND 0x7F])) = ?n" by (simp add: field_len_def)
  have l: "(?f ! 0 AND 0x80 \<noteq> 0) = field_last ?f" by (simp add: field_last_def)
  have 1: "ReadFull 4 r = ((?f, None), ?r1)" using False by (simp add: ReadFull_enough)
  have eq: "OpenStream_loop g np c r w =
      (case ReadFull ?n ?r1 of
         ((ct, Some e), r) \<Rightarrow> (Err (Wrap ''%w: chunk read: %v'' ErrInvalidCiphertext), r, w)
       | ((ct, None), r) \<Rightarrow>
           (case aead_Open g (makeStreamNonce np c) ct (streamAAD c (field_last ?f)) of
              Err e \<Rightarrow> (Err (Wrap ''%w: chunk %d: %v'' ErrTampered), r, w)
            | Panic \<Rightarrow> (Panic, r, w)
            | Ok pt \<Rightarrow>
                (case write_res pt w of
                   (Err e, w) \<Rightarrow> (Err e, r, w)
                 | (Panic, w) \<Rightarrow> (Panic, r, w)
                 | (Ok _, w) \<Rightarrow>
                     if field_last ?f then (Ok (), r, w) else OpenStream_loop g np (c + 1) r w)))"
    by (subst OpenStream_loop.simps) (simp only: 1 prod.case option.case Let_def n l)
  show ?thesis
  proof (cases "length ?d < 4 + ?n")
    case True
    then have "length (rd_data ?r1) < ?n" using False by simp
    from ReadFull_short [OF this] have "ReadFull ?n ?r1 = ((rd_data ?r1,
        Some (if rd_end r = EOF \<and> rd_data ?r1 \<noteq> [] then ErrUnexpectedEOF else rd_end r)), r\<lparr>rd_data := []\<rparr>)"
      by simp
    with True False show ?thesis by (simp add: eq Let_def)
  next
    case long: False
    then have "?n \<le> length (rd_data ?r1)" by simp
    from ReadFull_enough [OF this]
    have "ReadFull ?n ?r1 = ((take ?n (drop 4 ?d), None), r\<lparr>rd_data := drop (4 + ?n) ?d\<rparr>)"
      by (simp add: add.commute)
    with long False show ?thesis by (simp add: eq Let_def)
  qed
qed

context aead
begin

lemma open_frame:
  assumes "ok k" and "chunk_fits maxlen b" and "wr_left w = None"
  shows "OpenStream_loop (mk k) np c
      \<lparr>rd_data = chunk_frame l (chunk_ct (mk k) np c l b) @ rest, rd_end = e\<rparr> w =
    (if l then (Ok (), \<lparr>rd_data = rest, rd_end = e\<rparr>, w\<lparr>wr_out := wr_out w @ b\<rparr>)
     else OpenStream_loop (mk k) np (c + 1) \<lparr>rd_data = rest, rd_end = e\<rparr> (w\<lparr>wr_out := wr_out w @ b\<rparr>))"
proof -
  have b: "length b \<le> maxlen" "length b + 16 < 2 ^ 31" using assms(2) by (simp_all add: chunk_fits_def)
  let ?ct = "chunk_ct (mk k) np c l b"
  note ct = chunk_ct_Ok [OF assms(1) b(1), of np c l]
  have len: "length ?ct < 2 ^ 31" using b(2) ct(2) by simp
  show ?thesis
    by (subst OpenStream_loop_step)
      (simp add: chunk_frame_def field_of_len [OF len] ct(3) assms(3) Let_def)
qed

lemma open_stream_body:
  assumes "ok k" and "list_all (chunk_fits maxlen) bs" and "bs \<noteq> []" and "wr_left w = None"
  shows "OpenStream_loop (mk k) np c \<lparr>rd_data = stream_body (mk k) np c bs @ rest, rd_end = e\<rparr> w =
    (Ok (), \<lparr>rd_data = rest, rd_end = e\<rparr>, w\<lparr>wr_out := wr_out w @ concat bs\<rparr>)"
  using assms(2-)
proof (induction bs arbitrary: c w)
  case (Cons b bs)
  then show ?case by (cases "bs = []") (simp_all add: open_frame [OF assms(1)])
qed simp

text \<open>Whatever the opening loop accepts is the sealing of what it wrote.\<close>

lemma open_loop_sealed:
  assumes "ok k" and "wr_left w = None" and "OpenStream_loop (mk k) np c r w = (Ok (), r', w')"
  shows "\<exists>bs. bs \<noteq> [] \<and> list_all (chunk_fits (2 ^ 31)) bs \<and>
    rd_data r = stream_body (mk k) np c bs @ rd_data r' \<and> wr_out w' = wr_out w @ concat bs"
  using assms(2,3)
proof (induction "length (rd_data r)" arbitrary: r w c rule: less_induct)
  case less
  let ?d = "rd_data r"
  let ?f = "take 4 ?d"
  let ?n = "field_len ?f"
  let ?ct = "take ?n (drop 4 ?d)" and ?r = "r\<lparr>rd_data := drop (4 + ?n) ?d\<rparr>"
  have lens: "4 \<le> length ?d" "4 + ?n \<le> length ?d"
    using less.prems(2) by (auto simp: OpenStream_loop_step [of _ _ _ r] Let_def split: if_splits)
  obtain pt where pt: "aead_Open (mk k) (makeStreamNonce np c) ?ct (streamAAD c (field_last ?f)) = Ok pt"
    using less.prems(2) lens by (auto simp: OpenStream_loop_step [of _ _ _ r] Let_def split: res.splits)
  let ?w = "w\<lparr>wr_out := wr_out w @ pt\<rparr>"
  have rest: "(if field_last ?f then (Ok (), ?r, ?w) else OpenStream_loop (mk k) np (c + 1) ?r ?w) = (Ok (), r', w')"
    using less.prems lens pt by (simp add: OpenStream_loop_step [of _ _ _ r] Let_def)
  have seal: "aead_Seal (mk k) (makeStreamNonce np c) pt (streamAAD c (field_last ?f)) = Ok ?ct"
    using pt by (simp add: open_iff [OF assms(1)])
  then have ct: "chunk_ct (mk k) np c (field_last ?f) pt = ?ct" by (simp add: chunk_ct_def)
  have f: "length ?f = 4" using lens by simp
  have len: "length ?ct = ?n" "length ?ct = length pt + 16"
    using lens seal_length [OF assms(1) seal] by simp_all
  have fits: "chunk_fits (2 ^ 31) pt" using len len_of_field(2) [OF f] by (simp add: chunk_fits_def)
  have d: "?d = chunk_frame (field_last ?f) ?ct @ drop (4 + ?n) ?d"
  proof -
    have "?d = ?f @ ?ct @ drop (4 + ?n) ?d" by (metis add.commute append_take_drop_id drop_drop)
    then show ?thesis unfolding chunk_frame_def len(1) len_of_field(1) [OF f] append_assoc .
  qed
  show ?case
  proof (cases "field_last ?f")
    case True
    then have "?d = stream_body (mk k) np c [pt] @ rd_data r'" "wr_out w' = wr_out w @ concat [pt]"
      using d rest ct by auto
    with fits show ?thesis by (intro exI [of _ "[pt]"]) simp
  next
    case False
    have "length (rd_data ?r) < length ?d" using lens by simp
    moreover have "wr_left ?w = None" using less.prems(1) by simp
    moreover have "OpenStream_loop (mk k) np (c + 1) ?r ?w = (Ok (), r', w')" using rest False by simp
    ultimately obtain bs where bs: "bs \<noteq> []" "list_all (chunk_fits (2 ^ 31)) bs"
        "rd_data ?r = stream_body (mk k) np (c + 1) bs @ rd_data r'" "wr_out w' = wr_out ?w @ concat bs"
      using less.hyps [of ?r ?w "c + 1"] by blast
    have body: "stream_body (mk k) np c (pt # bs) =
        chunk_frame (field_last ?f) ?ct @ stream_body (mk k) np (c + 1) bs"
      using ct False bs(1) by simp
    have "stream_body (mk k) np (c + 1) bs @ rd_data r' = drop (4 + ?n) ?d" using bs(3) by simp
    then have "?d = stream_body (mk k) np c (pt # bs) @ rd_data r'"
      unfolding body append_assoc by (simp only: d [symmetric])
    moreover have "wr_out w' = wr_out w @ concat (pt # bs)" using bs(4) by simp
    moreover have "list_all (chunk_fits (2 ^ 31)) (pt # bs)" using bs(2) fits by simp
    ultimately show ?thesis by blast
  qed
qed

text \<open>A proper prefix of a sealed stream is refused, and only whole chunks before the cut are written.\<close>

lemma open_truncated:
  assumes "ok k" and "list_all (chunk_fits maxlen) bs" and "wr_left w = None"
    and "p @ q = stream_body (mk k) np c bs" and "q \<noteq> []"
  shows "\<exists>e i. OpenStream_loop (mk k) np c \<lparr>rd_data = p, rd_end = EOF\<rparr> w =
      (Err e, \<lparr>rd_data = [], rd_end = EOF\<rparr>, w\<lparr>wr_out := wr_out w @ concat (take i bs)\<rparr>) \<and>
    i < length bs \<and> (e = ErrTruncated \<or> e = Wrap ''%w: chunk read: %v'' ErrInvalidCiphertext)"
  using assms(2-)
proof (induction bs arbitrary: c p w)
  case (Cons b bs)
  let ?ct = "chunk_ct (mk k) np c (bs = []) b"
  let ?fr = "chunk_frame (bs = []) ?ct"
  have b: "chunk_fits maxlen b" using Cons.prems by simp
  then have len: "length ?ct < 2 ^ 31"
    using chunk_ct_Ok(2) [OF assms(1), of b np c "bs = []"] by (simp add: chunk_fits_def)
  have fr: "length ?fr = 4 + length ?ct" by (simp add: chunk_frame_def)
  show ?case
  proof (cases "length p < length ?fr")
    case True
    have "p = take (length p) (?fr @ stream_body (mk k) np (c + 1) bs)"
      using Cons.prems(3) by (metis append_eq_conv_conj stream_body.simps(2))
    then have p: "p = take (length p) ?fr" using True by simp
    show ?thesis
    proof (cases "length p < 4")
      case True
      then have "OpenStream_loop (mk k) np c \<lparr>rd_data = p, rd_end = EOF\<rparr> w =
          (Err ErrTruncated, \<lparr>rd_data = [], rd_end = EOF\<rparr>, w)"
        by (simp add: OpenStream_loop_step Let_def)
      then show ?thesis by (intro exI [of _ ErrTruncated] exI [of _ 0]) simp
    next
      case False
      then have "take 4 p = len_field (bs = []) (length ?ct)"
        by (subst p) (simp add: chunk_frame_def)
      then have "field_len (take 4 p) = length ?ct" using field_of_len(2) [OF len] by simp
      then have "OpenStream_loop (mk k) np c \<lparr>rd_data = p, rd_end = EOF\<rparr> w =
          (Err (Wrap ''%w: chunk read: %v'' ErrInvalidCiphertext), \<lparr>rd_data = [], rd_end = EOF\<rparr>, w)"
        using True False fr by (simp add: OpenStream_loop_step Let_def)
      then show ?thesis
        by (intro exI [of _ "Wrap ''%w: chunk read: %v'' ErrInvalidCiphertext"] exI [of _ 0]) simp
    qed
  next
    case False
    have eq: "p @ q = ?fr @ stream_body (mk k) np (c + 1) bs" using Cons.prems(3) by simp
    have "take (length ?fr) (p @ q) = ?fr" unfolding eq by simp
    then have "take (length ?fr) p = ?fr" using False by simp
    then obtain p' where p: "p = ?fr @ p'" by (metis append_take_drop_id)
    with eq have p': "p' @ q = stream_body (mk k) np (c + 1) bs" by simp
    have "bs \<noteq> []" using p' Cons.prems(4) by auto
    then have step: "OpenStream_loop (mk k) np c \<lparr>rd_data = p, rd_end = EOF\<rparr> w =
        OpenStream_loop (mk k) np (c + 1) \<lparr>rd_data = p', rd_end = EOF\<rparr> (w\<lparr>wr_out := wr_out w @ b\<rparr>)"
      unfolding p open_frame [OF assms(1) b Cons.prems(2)] by simp
    have "\<exists>e i. OpenStream_loop (mk k) np (c + 1) \<lparr>rd_data = p', rd_end = EOF\<rparr> (w\<lparr>wr_out := wr_out w @ b\<rparr>) =
        (Err e, \<lparr>rd_data = [], rd_end = EOF\<rparr>,
         (w\<lparr>wr_out := wr_out w @ b\<rparr>)\<lparr>wr_out := wr_out (w\<lparr>wr_out := wr_out w @ b\<rparr>) @ concat (take i bs)\<rparr>) \<and>
        i < length bs \<and> (e = ErrTruncated \<or> e = Wrap ''%w: chunk read: %v'' ErrInvalidCiphertext)"
      using Cons.prems p' by (intro Cons.IH) auto
    then obtain e i where "OpenStream_loop (mk k) np (c + 1) \<lparr>rd_data = p', rd_end = EOF\<rparr> (w\<lparr>wr_out := wr_out w @ b\<rparr>) =
        (Err e, \<lparr>rd_data = [], rd_end = EOF\<rparr>, w\<lparr>wr_out := wr_out w @ b @ concat (take i bs)\<rparr>)"
      "i < length bs" "e = ErrTruncated \<or> e = Wrap ''%w: chunk read: %v'' ErrInvalidCiphertext"
      by auto
    with step show ?thesis by (intro exI [of _ e] exI [of _ "Suc i"]) simp
  qed
qed simp

lemma open_loop_no_panic:
  assumes "ok k"
  shows "fst (OpenStream_loop (mk k) np c r w) \<noteq> Panic"
proof (induction "length (rd_data r)" arbitrary: r w c rule: less_induct)
  case less
  have "write_res pt w \<noteq> (Panic, w')" for pt w w'
    by (simp add: write_res_def split: prod.split option.split)
  moreover have "length (rd_data (r\<lparr>rd_data := drop (4 + n) (rd_data r)\<rparr>)) < length (rd_data r)"
    if "\<not> length (rd_data r) < 4" for n using that by simp
  ultimately show ?case
    using less.hyps open_no_panic [OF assms length_makeStreamNonce]
    by (subst OpenStream_loop_step) (simp add: Let_def split: res.split prod.split)
qed

lemma seal_loop_no_panic:
  assumes "ok k" and "0 < n" and "n \<le> maxlen" and "SealStream_loop (mk k) np n c r w = Some (res, r', w')"
  shows "res \<noteq> Panic"
  using assms(4)
proof (induction "length (rd_data r)" arbitrary: r w c rule: less_induct)
  case less
  have np: "seal_chunk (mk k) np c l b w \<noteq> (Panic, w')" if "length b \<le> maxlen" for l b w w'
    by (auto simp: seal_chunk_def chunk_ct_Ok(1) [OF assms(1) that] write_res_def Let_def Write_def
        split: option.splits nat.splits)
  show ?case
  proof (cases "length (rd_data r) < n")
    case True
    then have "length (rd_data r) \<le> maxlen" using assms(3) by simp
    with True less.prems np show ?thesis
      by (subst (asm) SealStream_loop.simps) (auto simp: ReadFull_short Let_def split: prod.splits res.splits if_splits)
  next
    case False
    let ?r = "r\<lparr>rd_data := drop n (rd_data r)\<rparr>"
    have "length (take n (rd_data r)) \<le> maxlen" using assms(3) by simp
    moreover have "length (rd_data ?r) < length (rd_data r)" using False assms(2) by simp
    ultimately show ?thesis
      using less.prems less.hyps [of ?r] np False
      by (subst (asm) SealStream_loop.simps) (auto simp: ReadFull_enough Let_def split: prod.splits res.splits)
  qed
qed

end

subsection \<open>The two entry points\<close>

definition stream_out :: "bytes \<Rightarrow> bytes \<Rightarrow> bytes list \<Rightarrow> bytes" where
  "stream_out key np bs = streamMagic @ [streamVersion] @ np @ stream_body (aes_gcm key) np 0 bs"

lemma stream_constructor: "length key = 32 \<Longrightarrow> and_then (aes_NewCipher key) cipher_NewGCM = Ok (aes_gcm key)"
  by simp

lemma SealStream_output:
  assumes "length key = 32" and "0 < n" and "n \<le> 2 ^ 30" and "wr_left w = None"
    and "rd_end r = EOF \<or> rd_end r = ErrUnexpectedEOF" and "8 \<le> length (rd_data rnd)"
  shows "SealStream key r w n rnd =
    Some ((Ok (), r\<lparr>rd_data := []\<rparr>,
           w\<lparr>wr_out := wr_out w @ stream_out key (take 8 (rd_data rnd)) (chunks (nat n) (rd_data r))\<rparr>),
          rnd\<lparr>rd_data := drop 8 (rd_data rnd)\<rparr>)"
proof -
  have n: "0 < nat n" "nat n \<le> gcm_max" using assms(2,3) by (simp_all add: gcm_max_def nat_le_iff)
  show ?thesis
    using assms(1-4,6) aes_gcm.SealStream_loop_output [OF assms(1) n _ assms(5)]
    by (simp add: SealStream_def streamMaxChunkSize_def AEADKeySize_def read_rand_enough
        streamNoncePrefix_def stream_out_def)
qed

lemma OpenStream_header:
  assumes "length key = 32" and "length np = 8"
  shows "OpenStream key \<lparr>rd_data = streamMagic @ [streamVersion] @ np @ body, rd_end = e\<rparr> w =
    OpenStream_loop (aes_gcm key) np 0 \<lparr>rd_data = body, rd_end = e\<rparr> w"
  using assms
  by (simp add: OpenStream_def AEADKeySize_def streamHeaderSize_def streamNoncePrefix_def ReadFull_enough
      streamMagic_def lit_def)

lemma chunks_fit:
  assumes "0 < n" and "n \<le> 2 ^ 30"
  shows "list_all (chunk_fits gcm_max) (chunks (nat n) d)"
proof -
  have "chunk_fits gcm_max b" if "length b \<le> nat n" for b
    using that assms by (simp add: chunk_fits_def gcm_max_def le_nat_iff)
  then show ?thesis
    using chunks_bound [of "nat n" d] assms(1) by (auto simp: list_all_iff)
qed

lemma OpenStream_stream_out:
  assumes "length key = 32" and "length np = 8" and "list_all (chunk_fits gcm_max) bs" and "bs \<noteq> []"
  shows "OpenStream key \<lparr>rd_data = stream_out key np bs @ rest, rd_end = e\<rparr> \<lparr>wr_out = [], wr_left = None, wr_err = e'\<rparr> =
    (Ok (), \<lparr>rd_data = rest, rd_end = e\<rparr>, \<lparr>wr_out = concat bs, wr_left = None, wr_err = e'\<rparr>)"
  using OpenStream_header [OF assms(1,2), of "stream_body (aes_gcm key) np 0 bs @ rest" e]
    aes_gcm.open_stream_body [OF assms(1,3,4), of "\<lparr>wr_out = [], wr_left = None, wr_err = e'\<rparr>" np 0 rest e]
  by (simp add: stream_out_def)

text \<open>Any header that passes the checks has the shape written by the sealer.\<close>

lemma OpenStream_passes_header:
  assumes "length key = 32" and "OpenStream key r w = (Ok (), r', w')"
  obtains np body where "length np = 8" "rd_data r = streamMagic @ [streamVersion] @ np @ body"
    "OpenStream_loop (aes_gcm key) np 0 (r\<lparr>rd_data := body\<rparr>) w = (Ok (), r', w')"
proof -
  let ?h = "take 13 (rd_data r)"
  have len: "13 \<le> length (rd_data r)"
    using assms by (auto simp: OpenStream_def streamHeaderSize_def streamNoncePrefix_def ReadFull_def AEADKeySize_def
        split: if_splits)
  have h: "take 4 ?h = streamMagic" "?h ! 4 = streamVersion"
    and loop: "OpenStream_loop (aes_gcm key) (take 8 (drop 5 ?h)) 0 (r\<lparr>rd_data := drop 13 (rd_data r)\<rparr>) w = (Ok (), r', w')"
    using assms len by (auto simp: OpenStream_def streamHeaderSize_def streamNoncePrefix_def ReadFull_enough AEADKeySize_def
        split: if_splits)
  have "take 5 ?h = take 4 ?h @ [?h ! 4]"
    using len take_Suc_conv_app_nth [of 4 ?h] by simp
  moreover have "take 8 (drop 5 ?h) = drop 5 ?h" using len by simp
  ultimately have "?h = take 4 ?h @ [?h ! 4] @ take 8 (drop 5 ?h)"
    by (metis append.assoc append_take_drop_id)
  then have "rd_data r = streamMagic @ [streamVersion] @ take 8 (drop 5 ?h) @ drop 13 (rd_data r)"
    using h by (metis append.assoc append_take_drop_id)
  with len loop show thesis by (intro that) auto
qed

lemma OpenStream_accepts:
  assumes "length key = 32"
  shows "(\<exists>r w. OpenStream key \<lparr>rd_data = d, rd_end = e\<rparr> \<lparr>wr_out = [], wr_left = None, wr_err = e'\<rparr> = (Ok (), r, w) \<and>
      rd_data r = rest \<and> wr_out w = p) \<longleftrightarrow>
    (\<exists>np bs. length np = 8 \<and> bs \<noteq> [] \<and> list_all (\<lambda>b. length b + 16 < 2 ^ 31) bs \<and>
      d = streamMagic @ [streamVersion] @ np @ stream_body (aes_gcm key) np 0 bs @ rest \<and> p = concat bs)"
    (is "?l \<longleftrightarrow> ?r")
proof
  let ?w = "\<lparr>wr_out = [], wr_left = None, wr_err = e'\<rparr>"
  assume ?l
  then obtain r w where rw: "OpenStream key \<lparr>rd_data = d, rd_end = e\<rparr> ?w = (Ok (), r, w)" "rd_data r = rest" "wr_out w = p"
    by blast
  obtain np body where b: "length np = 8" "d = streamMagic @ [streamVersion] @ np @ body"
      "OpenStream_loop (aes_gcm key) np 0 \<lparr>rd_data = body, rd_end = e\<rparr> ?w = (Ok (), r, w)"
    using OpenStream_passes_header [OF assms rw(1)] by auto
  have "wr_left ?w = None" by simp
  from aes_gcm.open_loop_sealed [OF assms this b(3)] obtain bs where
    "bs \<noteq> []" "list_all (chunk_fits (2 ^ 31)) bs" "body = stream_body (aes_gcm key) np 0 bs @ rest" "p = concat bs"
    using rw(2,3) by auto
  moreover from this have "list_all (\<lambda>b. length b + 16 < 2 ^ 31) bs"
    by (simp add: list_all_iff chunk_fits_def)
  ultimately show ?r using b(1,2) by blast
next
  assume ?r
  then obtain np bs where b: "length np = 8" "bs \<noteq> []" "list_all (\<lambda>b. length b + 16 < 2 ^ 31) bs"
      "d = stream_out key np bs @ rest" "p = concat bs"
    by (auto simp: stream_out_def)
  moreover from this have "list_all (chunk_fits gcm_max) bs"
    by (auto simp: list_all_iff chunk_fits_def gcm_max_def)
  ultimately show ?l using OpenStream_stream_out [OF assms] by auto
qed

lemma OpenStream_truncated:
  assumes "length key = 32" and "length np = 8" and "list_all (chunk_fits gcm_max) bs"
    and "p @ q = stream_out key np bs" and "q \<noteq> []"
  shows "\<exists>err r w m. OpenStream key \<lparr>rd_data = p, rd_end = EOF\<rparr> \<lparr>wr_out = [], wr_left = None, wr_err = e\<rparr> = (Err err, r, w) \<and>
      (err = ErrTruncated \<or> errors_Is err ErrInvalidCiphertext) \<and> wr_out w = take m (concat bs)"
proof (cases "length p < 13")
  case True
  then have "OpenStream key \<lparr>rd_data = p, rd_end = EOF\<rparr> \<lparr>wr_out = [], wr_left = None, wr_err = e\<rparr> =
      (Err (Wrap ''%w: header read: %v'' ErrInvalidCiphertext), \<lparr>rd_data = [], rd_end = EOF\<rparr>,
       \<lparr>wr_out = [], wr_left = None, wr_err = e\<rparr>)"
    using assms(1) by (simp add: OpenStream_def AEADKeySize_def streamHeaderSize_def streamNoncePrefix_def ReadFull_short)
  then show ?thesis by (auto intro: exI [of _ 0])
next
  case False
  let ?w = "\<lparr>wr_out = [], wr_left = None, wr_err = e\<rparr>"
  define h where "h = streamMagic @ [streamVersion] @ np"
  have h: "length h = 13" using assms(2) by (simp add: h_def streamMagic_def lit_def)
  have eq: "p @ q = h @ stream_body (aes_gcm key) np 0 bs" using assms(4) by (simp add: stream_out_def h_def)
  have "take 13 (p @ q) = h" unfolding eq by (simp add: h)
  then have "take 13 p = h" using False by simp
  then obtain p' where p: "p = h @ p'" by (metis append_take_drop_id)
  with eq have p': "p' @ q = stream_body (aes_gcm key) np 0 bs" by simp
  have w: "wr_left ?w = None" by simp
  obtain err i where t: "OpenStream_loop (aes_gcm key) np 0 \<lparr>rd_data = p', rd_end = EOF\<rparr> ?w =
      (Err err, \<lparr>rd_data = [], rd_end = EOF\<rparr>, ?w\<lparr>wr_out := wr_out ?w @ concat (take i bs)\<rparr>)"
      "err = ErrTruncated \<or> err = Wrap ''%w: chunk read: %v'' ErrInvalidCiphertext"
    using aes_gcm.open_truncated [OF assms(1,3) w p' assms(5)] by blast
  have "concat bs = concat (take i bs) @ concat (drop i bs)"
    by (metis append_take_drop_id concat_append)
  then have "concat (take i bs) = take (length (concat (take i bs))) (concat bs)" by simp
  moreover have "OpenStream key \<lparr>rd_data = p, rd_end = EOF\<rparr> ?w =
      OpenStream_loop (aes_gcm key) np 0 \<lparr>rd_data = p', rd_end = EOF\<rparr> ?w"
    using OpenStream_header [OF assms(1,2)] by (simp add: p h_def)
  ultimately show ?thesis using t by auto
qed

lemma OpenStream_no_panic: "fst (OpenStream key r w) \<noteq> Panic"
  using aes_gcm.open_loop_no_panic [of key]
  by (auto simp: OpenStream_def AEADKeySize_def split: prod.split option.split)

lemma SealStream_returns: "\<exists>res rnd'. SealStream key r w n rnd = Some (res, rnd') \<and> fst res \<noteq> Panic"
proof (cases "length key = 32 \<and> 0 < n \<and> n \<le> 2 ^ 30")
  case True
  then have n: "0 < nat n" "nat n \<le> gcm_max" by (simp_all add: gcm_max_def nat_le_iff)
  have loop: "\<exists>res r' w'. SealStream_loop (aes_gcm key) np (nat n) 0 r w = Some (res, r', w') \<and> res \<noteq> Panic" for np r w
    using SealStream_loop_returns [OF n(1), of "aes_gcm key" np 0 r w]
      aes_gcm.seal_loop_no_panic [OF conjunct1 [OF True] n, of np 0 r w] by auto
  have h: "then_do (write_res a w) (\<lambda>_ w. then_do (write_res b w) (\<lambda>_ w. write_res c w)) \<noteq> (Panic, w')" for a b c w w'
    by (auto simp: write_res_def Write_def split: option.splits nat.splits)
  have rr: "read_rand f k rnd \<noteq> (Panic, rnd')" for f k rnd'
    using read_rand_no_panic [of f k rnd] by (metis fst_conv)
  show ?thesis
    using True loop h rr
    by (auto simp: SealStream_def streamMaxChunkSize_def AEADKeySize_def split: prod.split res.split)
next
  case False
  then show ?thesis by (auto simp: SealStream_def streamMaxChunkSize_def AEADKeySize_def)
qed

subsection \<open>Chunk positions\<close>

lemma stream_body_nth:
  "stream_body g np c bs = concat (map (\<lambda>i.
     chunk_frame (Suc i = length bs) (chunk_ct g np (c + word_of_nat i) (Suc i = length bs) (bs ! i))) [0..<length bs])"
proof (induction bs arbitrary: c)
  case (Cons b bs)
  have "[0..<length (b # bs)] = 0 # map Suc [0..<length bs]" by (simp add: map_Suc_upt upt_conv_Cons del: upt_Suc)
  then show ?case by (simp add: Cons.IH o_def add.assoc del: upt_Suc)
qed simp

lemma length_chunks: "0 < n \<Longrightarrow> length (chunks n d) = length d div n + 1"
proof (induction n d rule: chunks.induct)
  case (1 n d)
  then show ?case by (cases "length d < n") (simp_all add: chunks.simps [of n d] le_div_geq)
qed

lemma word32_of_nat_eq_iff: "(word_of_nat i :: 32 word) = word_of_nat j \<longleftrightarrow> i mod 2 ^ 32 = j mod 2 ^ 32"
  by (simp add: word_of_nat_eq_iff take_bit_eq_mod)

subsection \<open>The length of a stream, and a cut inside its last chunk\<close>

context aead
begin

lemma length_stream_body:
  "ok k \<Longrightarrow> list_all (chunk_fits maxlen) bs \<Longrightarrow>
     length (stream_body (mk k) np c bs) = length (concat bs) + 20 * length bs"
  by (induction bs arbitrary: c) (simp_all add: chunk_frame_def chunk_ct_Ok(2) chunk_fits_def)

lemma open_cut_last:
  assumes "ok k" and "list_all (chunk_fits maxlen) bs" and "bs \<noteq> []" and "wr_left w = None"
    and "0 < m" and "m \<le> length (last bs) + 16"
  shows "OpenStream_loop (mk k) np c \<lparr>rd_data = take (length (stream_body (mk k) np c bs) - m) (stream_body (mk k) np c bs),
      rd_end = EOF\<rparr> w =
    (Err (Wrap ''%w: chunk read: %v'' ErrInvalidCiphertext), \<lparr>rd_data = [], rd_end = EOF\<rparr>,
     w\<lparr>wr_out := wr_out w @ concat (butlast bs)\<rparr>)"
  using assms(2-4,6)
proof (induction bs arbitrary: c w)
  case (Cons b bs)
  let ?ct = "chunk_ct (mk k) np c (bs = []) b"
  let ?fr = "chunk_frame (bs = []) ?ct"
  have b: "chunk_fits maxlen b" using Cons.prems by simp
  then have ct: "length ?ct = length b + 16" "length ?ct < 2 ^ 31"
    using chunk_ct_Ok(2) [OF assms(1), of b np c "bs = []"] by (simp_all add: chunk_fits_def)
  have fr: "length ?fr = 4 + length ?ct" by (simp add: chunk_frame_def)
  show ?case
  proof (cases "bs = []")
    case True
    let ?p = "take (length ?fr - m) ?fr"
    have "4 \<le> length ?fr - m" using Cons.prems(4) True fr ct(1) by simp
    moreover from this have "take 4 ?p = len_field (bs = []) (length ?ct)"
      by (simp add: chunk_frame_def min_def)
    then have "field_len (take 4 ?p) = length ?ct" using field_of_len(2) [OF ct(2)] by simp
    ultimately show ?thesis using True assms(5) fr by (simp add: OpenStream_loop_step Let_def)
  next
    case False
    let ?body = "stream_body (mk k) np (c + 1) bs"
    have fits: "list_all (chunk_fits maxlen) bs" using Cons.prems(1) by simp
    have "length (last bs) + 20 \<le> length ?body"
      unfolding length_stream_body [OF assms(1) fits] using False by (cases bs rule: rev_cases) simp_all
    moreover have "m \<le> length (last bs) + 16" using Cons.prems(4) False by simp
    ultimately have "take (length (?fr @ ?body) - m) (?fr @ ?body) = ?fr @ take (length ?body - m) ?body"
      by simp
    then show ?thesis
      using False Cons.IH [OF fits False, of "w\<lparr>wr_out := wr_out w @ b\<rparr>"] Cons.prems(3) \<open>m \<le> length (last bs) + 16\<close>
      by (simp add: open_frame [OF assms(1) b])
  qed
qed simp

end

lemma length_stream_out:
  assumes "length key = 32" and "length np = 8" and "list_all (chunk_fits gcm_max) bs"
  shows "length (stream_out key np bs) = 13 + length (concat bs) + 20 * length bs"
  using aes_gcm.length_stream_body [OF assms(1,3)] assms(2)
  by (simp add: stream_out_def streamMagic_def lit_def)

lemma OpenStream_cut_last:
  assumes "length key = 32" and "length np = 8" and "list_all (chunk_fits gcm_max) bs" and "bs \<noteq> []"
    and "0 < m" and "m \<le> length (last bs) + 16"
  shows "fst (OpenStream key \<lparr>rd_data = take (length (stream_out key np bs) - m) (stream_out key np bs), rd_end = EOF\<rparr>
      \<lparr>wr_out = [], wr_left = None, wr_err = e\<rparr>) = Err (Wrap ''%w: chunk read: %v'' ErrInvalidCiphertext)"
proof -
  let ?body = "stream_body (aes_gcm key) np 0 bs" and ?h = "streamMagic @ [streamVersion] @ np"
  have h: "length ?h = 13" using assms(2) by (simp add: streamMagic_def lit_def)
  have "length (last bs) + 20 \<le> length ?body"
    using aes_gcm.length_stream_body [OF assms(1,3), of np 0] assms(4)
    by (cases bs rule: rev_cases) simp_all
  then have "m \<le> length ?body" using assms(6) by simp
  then have "take (length (?h @ ?body) - m) (?h @ ?body) = ?h @ take (length ?body - m) ?body"
    unfolding take_append by simp
  then have "take (length (stream_out key np bs) - m) (stream_out key np bs) =
      streamMagic @ [streamVersion] @ np @ take (length ?body - m) ?body"
    by (simp add: stream_out_def)
  then show ?thesis
    using OpenStream_header [OF assms(1,2)] aes_gcm.open_cut_last [OF assms(1,3,4) _ assms(5,6),
        of "\<lparr>wr_out = [], wr_left = None, wr_err = e\<rparr>" np 0] by simp
qed

lemma length_last_chunk: "0 < n \<Longrightarrow> length (last (chunks n d)) = length d mod n"
proof (induction n d rule: chunks.induct)
  case (1 n d)
  then show ?case by (cases "length d < n") (simp_all add: chunks.simps [of n d] le_mod_geq)
qed

subsection \<open>Properties\<close>

text \<open>Property C4: sealing a stream of any length with any chunk size in range returns, and opening the result (with
  any further data behind it) returns, writes exactly the plaintext and leaves the further data unread.\<close>

theorem stream_roundtrip:
  assumes "length key = 32" and "0 < n" and "n \<le> 2 ^ 30" and "8 \<le> length (rd_data rnd)"
  shows "\<exists>s. SealStream key \<lparr>rd_data = d, rd_end = EOF\<rparr> \<lparr>wr_out = [], wr_left = None, wr_err = e\<rparr> n rnd =
      Some ((Ok (), \<lparr>rd_data = [], rd_end = EOF\<rparr>, \<lparr>wr_out = s, wr_left = None, wr_err = e\<rparr>),
            rnd\<lparr>rd_data := drop 8 (rd_data rnd)\<rparr>) \<and>
    OpenStream key \<lparr>rd_data = s @ rest, rd_end = e'\<rparr> \<lparr>wr_out = [], wr_left = None, wr_err = e\<rparr> =
      (Ok (), \<lparr>rd_data = rest, rd_end = e'\<rparr>, \<lparr>wr_out = d, wr_left = None, wr_err = e\<rparr>)"
proof -
  have "length (take 8 (rd_data rnd)) = 8" using assms(4) by simp
  from OpenStream_stream_out [OF assms(1) this chunks_fit [OF assms(2,3), of d] chunks_not_Nil]
  show ?thesis using SealStream_output [OF assms(1-3) _ _ assms(4)] by simp
qed

lemma stream_roundtrip_witness:
  "\<exists>s. SealStream (replicate 32 5) \<lparr>rd_data = [1, 2, 3, 4, 5], rd_end = EOF\<rparr>
       \<lparr>wr_out = [], wr_left = None, wr_err = EOF\<rparr> 2 \<lparr>rd_data = replicate 8 6, rd_end = EOF\<rparr> =
     Some ((Ok (), \<lparr>rd_data = [], rd_end = EOF\<rparr>, \<lparr>wr_out = s, wr_left = None, wr_err = EOF\<rparr>),
           \<lparr>rd_data = [], rd_end = EOF\<rparr>) \<and>
     OpenStream (replicate 32 5) \<lparr>rd_data = s @ [9], rd_end = EOF\<rparr> \<lparr>wr_out = [], wr_left = None, wr_err = EOF\<rparr> =
     (Ok (), \<lparr>rd_data = [9], rd_end = EOF\<rparr>, \<lparr>wr_out = [1, 2, 3, 4, 5], wr_left = None, wr_err = EOF\<rparr>)"
  using stream_roundtrip [of "replicate 32 5" 2 "\<lparr>rd_data = replicate 8 6, rd_end = EOF\<rparr>" "[1, 2, 3, 4, 5]" EOF "[9]" EOF]
  by simp

text \<open>Property C6: \<^verbatim>\<open>OpenStream\<close> succeeds with output \<open>p\<close> exactly on the streams that consist of a header with some
  nonce prefix and the chunks of some division of \<open>p\<close>, each sealed under its position and its
  last-chunk flag, possibly followed by data it does not read. Chunks that are reordered, dropped,
  repeated or cut off are accepted only where the cipher itself seals them so.\<close>

theorem stream_accepts_exactly:
  assumes "length key = 32"
  shows "(\<exists>r w. OpenStream key \<lparr>rd_data = d, rd_end = e\<rparr> \<lparr>wr_out = [], wr_left = None, wr_err = e'\<rparr> = (Ok (), r, w) \<and>
      rd_data r = rest \<and> wr_out w = p) \<longleftrightarrow>
    (\<exists>np bs. length np = 8 \<and> bs \<noteq> [] \<and> list_all (\<lambda>b. length b + 16 < 2 ^ 31) bs \<and>
      d = streamMagic @ [streamVersion] @ np @ stream_body (aes_gcm key) np 0 bs @ rest \<and> p = concat bs)"
  by (rule OpenStream_accepts [OF assms])

lemma stream_accepts_exactly_witness:
  "\<exists>r w. OpenStream (replicate 32 5) \<lparr>rd_data = streamMagic @ [streamVersion] @ replicate 8 0
       @ stream_body (aes_gcm (replicate 32 5)) (replicate 8 0) 0 [[1], [], [2, 3]] @ [7], rd_end = EOF\<rparr>
       \<lparr>wr_out = [], wr_left = None, wr_err = EOF\<rparr> = (Ok (), r, w) \<and> rd_data r = [7] \<and> wr_out w = [1, 2, 3]"
proof -
  have "length (replicate 8 (0 :: byte)) = 8" "[[1], [], [2, 3]] \<noteq> ([] :: bytes list)"
    "list_all (\<lambda>b. length b + 16 < 2 ^ 31) [[1], [], [2, 3 :: byte]]" "[1, 2, 3] = concat [[1], [], [2, 3 :: byte]]"
    by simp_all
  moreover have "length (replicate 32 (5 :: byte)) = 32" by simp
  ultimately show ?thesis
    using stream_accepts_exactly [of "replicate 32 5" _ EOF EOF "[7]" "[1, 2, 3]"] by blast
qed

text \<open>Property C5: truncation is detected. Every proper prefix of a sealed stream makes \<^verbatim>\<open>OpenStream\<close> fail, with
  \<open>ErrTruncated\<close> or, when the cut is inside the header or a chunk, \<open>ErrInvalidCiphertext\<close>, and what
  it has written by then is a beginning of the plaintext.\<close>

theorem stream_truncation_detected:
  assumes "length key = 32" and "0 < n" and "n \<le> 2 ^ 30" and "8 \<le> length (rd_data rnd)"
    and "SealStream key \<lparr>rd_data = d, rd_end = EOF\<rparr> \<lparr>wr_out = [], wr_left = None, wr_err = e\<rparr> n rnd =
      Some ((Ok (), r', w'), rnd')"
    and "k < length (wr_out w')"
  shows "\<exists>err r w m. OpenStream key \<lparr>rd_data = take k (wr_out w'), rd_end = EOF\<rparr>
        \<lparr>wr_out = [], wr_left = None, wr_err = e\<rparr> = (Err err, r, w) \<and>
      (err = ErrTruncated \<or> errors_Is err ErrInvalidCiphertext) \<and> wr_out w = take m d"
proof -
  let ?np = "take 8 (rd_data rnd)"
  have np: "length ?np = 8" using assms(4) by simp
  have out: "wr_out w' = stream_out key ?np (chunks (nat n) d)"
    using assms(5) SealStream_output [OF assms(1-3) _ _ assms(4)] by auto
  have "take k (wr_out w') @ drop k (wr_out w') = stream_out key ?np (chunks (nat n) d)"
    by (simp add: out)
  moreover have "drop k (wr_out w') \<noteq> []" using assms(6) by simp
  ultimately show ?thesis
    using OpenStream_truncated [OF assms(1) np chunks_fit [OF assms(2,3), of d]] by (metis concat_chunks)
qed

lemma stream_truncation_detected_witness:
  "\<exists>s err r w m. OpenStream (replicate 32 5) \<lparr>rd_data = take 20 s, rd_end = EOF\<rparr>
      \<lparr>wr_out = [], wr_left = None, wr_err = EOF\<rparr> = (Err err, r, w) \<and>
    length s = 13 + 20 + 5 \<and> (err = ErrTruncated \<or> errors_Is err ErrInvalidCiphertext) \<and>
    wr_out w = take m [1, 2, 3, 4, 5]"
proof -
  let ?key = "replicate 32 (5 :: byte)" and ?rnd = "\<lparr>rd_data = replicate 8 6, rd_end = EOF\<rparr>"
    and ?d = "[1, 2, 3, 4, 5]" and ?w = "\<lparr>wr_out = [], wr_left = None, wr_err = EOF\<rparr>"
  let ?s = "stream_out ?key (replicate 8 6) [?d]"
  have "chunks 6 ?d = [?d]" by (simp add: chunks.simps)
  then have seal: "SealStream ?key \<lparr>rd_data = ?d, rd_end = EOF\<rparr> ?w 6 ?rnd =
      Some ((Ok (), \<lparr>rd_data = [], rd_end = EOF\<rparr>, ?w\<lparr>wr_out := ?s\<rparr>), \<lparr>rd_data = [], rd_end = EOF\<rparr>)"
    using SealStream_output [of ?key 6 ?w "\<lparr>rd_data = ?d, rd_end = EOF\<rparr>" ?rnd] by simp
  have len: "length ?s = 13 + 20 + 5"
    using aes_gcm.chunk_ct_Ok(2) [of ?key ?d "replicate 8 6" 0 True]
    by (simp add: stream_out_def chunk_frame_def streamMagic_def lit_def gcm_max_def)
  show ?thesis
    using stream_truncation_detected [OF _ _ _ _ seal, of 20] len by (simp, blast)
qed

text \<open>Property C25: the nonce and the associated data of chunk \<open>i\<close> are those of the 32-bit counter: the sealed stream is
  the header followed by the frames of the chunks, the nonces of chunks \<open>i\<close> and \<open>j\<close> coincide exactly
  when \<open>i\<close> and \<open>j\<close> agree modulo 2^32, and so do their associated data, which moreover tell a last chunk from
  another one; within 2^32 chunks the position is bound uniquely. (Streams of more than 2^32 chunks, which the
  code does not refuse, reuse nonces.)\<close>

theorem stream_nonce_positions:
  assumes "length key = 32" and "0 < n" and "n \<le> 2 ^ 30" and "8 \<le> length (rd_data rnd)"
  shows "\<exists>r w rnd' bs np. SealStream key \<lparr>rd_data = d, rd_end = EOF\<rparr> \<lparr>wr_out = [], wr_left = None, wr_err = e\<rparr> n rnd =
      Some ((Ok (), r, w), rnd') \<and>
    concat bs = d \<and> length bs = length d div nat n + 1 \<and>
    wr_out w = streamMagic @ [streamVersion] @ np @ concat (map (\<lambda>i.
      chunk_frame (Suc i = length bs)
        (chunk_ct (aes_gcm key) np (word_of_nat i) (Suc i = length bs) (bs ! i))) [0..<length bs]) \<and>
    (makeStreamNonce np (word_of_nat i) = makeStreamNonce np (word_of_nat j) \<longleftrightarrow> i mod 2 ^ 32 = j mod 2 ^ 32) \<and>
    (streamAAD (word_of_nat i) l = streamAAD (word_of_nat j) l' \<longleftrightarrow> i mod 2 ^ 32 = j mod 2 ^ 32 \<and> l = l')"
proof -
  have "0 < nat n" using assms(2) by simp
  from length_chunks [OF this, of d] show ?thesis
    using SealStream_output [OF assms(1-3) _ _ assms(4), of "\<lparr>wr_out = [], wr_left = None, wr_err = e\<rparr>"
        "\<lparr>rd_data = d, rd_end = EOF\<rparr>"]
    by (auto simp: stream_out_def stream_body_nth makeStreamNonce_inject streamAAD_def word32_of_nat_eq_iff
        intro!: exI [of _ "chunks (nat n) d"])
qed

lemma stream_nonce_positions_witness:
  "\<exists>np. makeStreamNonce np (word_of_nat 5) = makeStreamNonce np (word_of_nat (5 + 2 ^ 32)) \<and>
     streamAAD (word_of_nat 5) True = streamAAD (word_of_nat (5 + 2 ^ 32)) True"
proof -
  have pow: "(5 + 2 ^ 32) mod 2 ^ 32 = (5 mod 2 ^ 32 :: nat)" by simp
  show ?thesis
    using stream_nonce_positions [of "replicate 32 5" 2 "\<lparr>rd_data = replicate 8 6, rd_end = EOF\<rparr>" "[1, 2, 3]" EOF
        5 "5 + 2 ^ 32" True True]
    unfolding pow by (simp, blast)
qed

text \<open>Property C26: both streaming calls return for every input, on failing readers and writers and a failing random
  source too, and neither panics.\<close>

theorem stream_calls_return:
  "(\<exists>res rnd'. SealStream key r w n rnd = Some (res, rnd') \<and> fst res \<noteq> Panic) \<and> fst (OpenStream key r w) \<noteq> Panic"
  using SealStream_returns OpenStream_no_panic by blast

text \<open>Property C34: a reader that breaks off with \<^verbatim>\<open>io.ErrUnexpectedEOF\<close>, as a truncated HTTP body or gzip stream does,
  is sealed as if it had ended normally: the call succeeds and the output marks the partial data as
  complete.\<close>

theorem broken_reader_sealed_as_complete:
  assumes "length key = 32" and "0 < n" and "n \<le> 2 ^ 30" and "wr_left w = None" and "8 \<le> length (rd_data rnd)"
  shows "map_option (\<lambda>((res, r, w), rnd). (res, w, rnd)) (SealStream key \<lparr>rd_data = d, rd_end = ErrUnexpectedEOF\<rparr> w n rnd) =
    map_option (\<lambda>((res, r, w), rnd). (res, w, rnd)) (SealStream key \<lparr>rd_data = d, rd_end = EOF\<rparr> w n rnd) \<and>
    map_option (\<lambda>((res, r, w), rnd). res) (SealStream key \<lparr>rd_data = d, rd_end = ErrUnexpectedEOF\<rparr> w n rnd) = Some (Ok ())"
  using SealStream_output [OF assms(1-4) _ assms(5)] by simp

lemma broken_reader_sealed_as_complete_witness:
  "map_option (\<lambda>((res, r, w), rnd). res) (SealStream (replicate 32 0) \<lparr>rd_data = [1, 2, 3], rd_end = ErrUnexpectedEOF\<rparr>
      \<lparr>wr_out = [], wr_left = None, wr_err = EOF\<rparr> 2 \<lparr>rd_data = replicate 8 0, rd_end = EOF\<rparr>) = Some (Ok ())"
  using broken_reader_sealed_as_complete [of "replicate 32 0" 2 "\<lparr>wr_out = [], wr_left = None, wr_err = EOF\<rparr>"
      "\<lparr>rd_data = replicate 8 0, rd_end = EOF\<rparr>" "[1, 2, 3]"] by simp

end
