(* ===== verification/Fragments.thy ===== *)
theory Fragments
  imports Streaming
begin

text \<open>
  \<^verbatim>\<open>src/stream.go\<close> over an arbitrary \<^verbatim>\<open>io.Reader\<close>. A reader may return fewer bytes than asked for, no bytes at all,
  or its error together with the last bytes; \<^verbatim>\<open>io.ReadFull\<close> is the loop that hides this. Here that loop is modelled,
  the two streaming functions are stated for any implementation of \<^verbatim>\<open>io.ReadFull\<close>, and they do the same on a
  fragmented reader as on the contiguous one of the other theories.
\<close>

subsection \<open>Readers that deliver in pieces\<close>

text \<open>
  The next calls of \<^verbatim>\<open>Read\<close> return at most \<open>fr_sizes\<close> bytes each, later ones as many as asked for. With \<open>fr_eager\<close>
  the final error comes with the last byte, otherwise with the call after it.
\<close>

record fragmented =
  fr_data :: bytes
  fr_end :: error
  fr_sizes :: "nat list"
  fr_eager :: bool

definition fragmented_Read :: "nat \<Rightarrow> fragmented \<Rightarrow> (bytes \<times> error option) \<times> fragmented" where
  "fragmented_Read n r =
     (let k = (case fr_sizes r of [] \<Rightarrow> n | s # _ \<Rightarrow> min s n);
          p = take k (fr_data r); rest = drop k (fr_data r);
          err = (if rest = [] \<and> (fr_eager r \<or> p = []) then Some (fr_end r) else None)
      in ((p, err), r\<lparr>fr_data := rest, fr_sizes := tl (fr_sizes r)\<rparr>))"

text \<open>The loop of \<^verbatim>\<open>io.ReadAtLeast(r, buf, len(buf))\<close>; \<open>got\<close> is the part of the buffer already filled.\<close>

function ReadAtLeast_loop :: "nat \<Rightarrow> bytes \<Rightarrow> fragmented \<Rightarrow> (bytes \<times> error option) \<times> fragmented" where
  "ReadAtLeast_loop n got r =
     (if length got < n
      then (case fragmented_Read (n - length got) r of
              ((p, None), r) \<Rightarrow> ReadAtLeast_loop n (got @ p) r
            | ((p, Some e), r) \<Rightarrow> ((got @ p, Some e), r))
      else ((got, None), r))"
  by pat_completeness auto
termination
  by (relation "measure (\<lambda>(n, got, r). length (fr_data r) + length (fr_sizes r))")
    (auto simp: fragmented_Read_def Let_def simp flip: length_greater_0_conv split: list.splits if_splits)

declare ReadAtLeast_loop.simps [simp del]

definition io_ReadFull :: "nat \<Rightarrow> fragmented \<Rightarrow> (bytes \<times> error option) \<times> fragmented" where
  "io_ReadFull n r =
     (case ReadAtLeast_loop n [] r of
        ((buf, err), r) \<Rightarrow>
          if n \<le> length buf then ((buf, None), r)
          else if buf \<noteq> [] \<and> err = Some EOF then ((buf, Some ErrUnexpectedEOF), r)
          else ((buf, err), r))"

definition contiguous :: "fragmented \<Rightarrow> reader" where
  "contiguous r = \<lparr>rd_data = fr_data r, rd_end = fr_end r\<rparr>"

subsection \<open>The streaming functions over any implementation of \<^verbatim>\<open>io.ReadFull\<close>\<close>

partial_function (option) SealStream_loop_on ::
    "(nat \<Rightarrow> 'r \<Rightarrow> (bytes \<times> error option) \<times> 'r) \<Rightarrow>
     AEAD \<Rightarrow> bytes \<Rightarrow> nat \<Rightarrow> 32 word \<Rightarrow> 'r \<Rightarrow> writer \<Rightarrow> (unit res \<times> 'r \<times> writer) option" where
  "SealStream_loop_on readFull gcm noncePrefix chunkSize counter r w =
     (case readFull chunkSize r of ((buf, err), r) \<Rightarrow>
        if \<not> (err = None \<or> err = Some EOF \<or> err = Some ErrUnexpectedEOF) then Some (Err (the err), r, w)
        else
          let isLast = (err \<noteq> None) in
          (case seal_chunk gcm noncePrefix counter isLast buf w of
             (Err e, w) \<Rightarrow> Some (Err e, r, w)
           | (Panic, w) \<Rightarrow> Some (Panic, r, w)
           | (Ok _, w) \<Rightarrow>
               if isLast then Some (Ok (), r, w)
               else SealStream_loop_on readFull gcm noncePrefix chunkSize (counter + 1) r w))"

definition SealStream_on ::
    "(nat \<Rightarrow> 'r \<Rightarrow> (bytes \<times> error option) \<times> 'r) \<Rightarrow>
     bytes \<Rightarrow> 'r \<Rightarrow> writer \<Rightarrow> int \<Rightarrow> reader \<Rightarrow> ((unit res \<times> 'r \<times> writer) \<times> reader) option" where
  "SealStream_on readFull key r w chunkSize rnd =
     (if length key \<noteq> AEADKeySize
      then Some ((Err (Wrap ''%w: stream requires %d-byte key; got %d'' ErrInvalidKey), r, w), rnd)
      else if chunkSize \<le> 0 \<or> streamMaxChunkSize < chunkSize
      then Some ((Err (Msg ''crypt: chunkSize must be in (0, %d]; got %d''), r, w), rnd)
      else
        case and_then (aes_NewCipher key) cipher_NewGCM of
          Err e \<Rightarrow> Some ((Err e, r, w), rnd)
        | Panic \<Rightarrow> Some ((Panic, r, w), rnd)
        | Ok gcm \<Rightarrow>
            (case read_rand (\<lambda>e. e) streamNoncePrefix rnd of
               (Err e, rnd) \<Rightarrow> Some ((Err e, r, w), rnd)
             | (Panic, rnd) \<Rightarrow> Some ((Panic, r, w), rnd)
             | (Ok noncePrefix, rnd) \<Rightarrow>
                 (case then_do (write_res streamMagic w) (\<lambda>_ w.
                       then_do (write_res [streamVersion] w) (\<lambda>_ w. write_res noncePrefix w)) of
                    (Err e, w) \<Rightarrow> Some ((Err e, r, w), rnd)
                  | (Panic, w) \<Rightarrow> Some ((Panic, r, w), rnd)
                  | (Ok _, w) \<Rightarrow>
                      map_option (\<lambda>res. (res, rnd))
                        (SealStream_loop_on readFull gcm noncePrefix (nat chunkSize) 0 r w))))"

partial_function (option) OpenStream_loop_on ::
    "(nat \<Rightarrow> 'r \<Rightarrow> (bytes \<times> error option) \<times> 'r) \<Rightarrow>
     AEAD \<Rightarrow> bytes \<Rightarrow> 32 word \<Rightarrow> 'r \<Rightarrow> writer \<Rightarrow> (unit res \<times> 'r \<times> writer) option" where
  "OpenStream_loop_on readFull gcm noncePrefix counter r w =
     (case readFull 4 r of
        ((lenField, Some e), r) \<Rightarrow>
          (if e = EOF \<or> e = ErrUnexpectedEOF then Some (Err ErrTruncated, r, w) else Some (Err e, r, w))
      | ((lenField, None), r) \<Rightarrow>
          let isLast = (lenField ! 0 AND 0x80 \<noteq> 0);
              ctLen = Uint32 (lenField[0 := lenField ! 0 AND 0x7F])
          in
          (case readFull (unat ctLen) r of
             ((ct, Some e), r) \<Rightarrow> Some (Err (Wrap ''%w: chunk read: %v'' ErrInvalidCiphertext), r, w)
           | ((ct, None), r) \<Rightarrow>
               (case aead_Open gcm (makeStreamNonce noncePrefix counter) ct (streamAAD counter isLast) of
                  Err e \<Rightarrow> Some (Err (Wrap ''%w: chunk %d: %v'' ErrTampered), r, w)
                | Panic \<Rightarrow> Some (Panic, r, w)
                | Ok pt \<Rightarrow>
                    (case write_res pt w of
                       (Err e, w) \<Rightarrow> Some (Err e, r, w)
                     | (Panic, w) \<Rightarrow> Some (Panic, r, w)
                     | (Ok _, w) \<Rightarrow>
                         if isLast then Some (Ok (), r, w)
                         else OpenStream_loop_on readFull gcm noncePrefix (counter + 1) r w))))"

definition OpenStream_on ::
    "(nat \<Rightarrow> 'r \<Rightarrow> (bytes \<times> error option) \<times> 'r) \<Rightarrow> bytes \<Rightarrow> 'r \<Rightarrow> writer \<Rightarrow> (unit res \<times> 'r \<times> writer) option" where
  "OpenStream_on readFull key r w =
     (if length key \<noteq> AEADKeySize
      then Some (Err (Wrap ''%w: stream requires %d-byte key; got %d'' ErrInvalidKey), r, w)
      else
        case readFull streamHeaderSize r of
          ((hdr, Some e), r) \<Rightarrow> Some (Err (Wrap ''%w: header read: %v'' ErrInvalidCiphertext), r, w)
        | ((hdr, None), r) \<Rightarrow>
            if take 4 hdr \<noteq> streamMagic then Some (Err (Wrap ''%w: bad magic'' ErrInvalidCiphertext), r, w)
            else if hdr ! 4 \<noteq> streamVersion
            then Some (Err (Wrap ''%w: stream version 0x%02x'' ErrUnsupportedVersion), r, w)
            else
              case and_then (aes_NewCipher key) cipher_NewGCM of
                Err e \<Rightarrow> Some (Err e, r, w)
              | Panic \<Rightarrow> Some (Panic, r, w)
              | Ok gcm \<Rightarrow> OpenStream_loop_on readFull gcm (take streamNoncePrefix (drop 5 hdr)) 0 r w)"

subsection \<open>What an implementation of \<^verbatim>\<open>io.ReadFull\<close> promises\<close>

text \<open>\<open>abs\<close> is the contiguous reader an implementation stands for.\<close>

locale full_reader =
  fixes readFull :: "nat \<Rightarrow> 'r \<Rightarrow> (bytes \<times> error option) \<times> 'r" and abs :: "'r \<Rightarrow> reader"
  assumes simulates: "readFull n r = (res, r') \<Longrightarrow> ReadFull n (abs r) = (res, abs r')"
begin

definition seen :: "unit res \<times> 'r \<times> writer \<Rightarrow> unit res \<times> reader \<times> writer" where
  "seen = (\<lambda>(res, r, w). (res, abs r, w))"

lemma seen_simps [simp]: "seen (res, r, w) = (res, abs r, w)"
  by (simp add: seen_def)

lemma ReadFull_abs: "ReadFull n (abs r) = (case readFull n r of (res, r') \<Rightarrow> (res, abs r'))"
  using simulates [of n r] by (cases "readFull n r") simp

lemma SealStream_loop_abs:
  "0 < n \<Longrightarrow> SealStream_loop g np n c (abs r) w = map_option seen (SealStream_loop_on readFull g np n c r w)"
proof (induction "length (rd_data (abs r))" arbitrary: c r w rule: less_induct)
  case less
  obtain buf err r' where rf: "readFull n r = ((buf, err), r')" by (metis surj_pair)
  have step: "SealStream_loop g np n c' (abs r') w' = map_option seen (SealStream_loop_on readFull g np n c' r' w')"
    if "err = None" for c' w'
  proof (rule less.hyps [OF _ less.prems])
    show "length (rd_data (abs r')) < length (rd_data (abs r))"
      using ReadFull_length [of n "abs r" buf "abs r'"] simulates [OF rf] that less.prems by simp
  qed
  show ?case
    by (subst SealStream_loop.simps, subst SealStream_loop_on.simps, cases err)
      (simp_all add: ReadFull_abs rf step Let_def split: prod.split res.split)
qed

lemma OpenStream_loop_abs:
  "Some (OpenStream_loop g np c (abs r) w) = map_option seen (OpenStream_loop_on readFull g np c r w)"
proof (induction "length (rd_data (abs r))" arbitrary: c r w rule: less_induct)
  case less
  obtain len err r1 where rf: "readFull 4 r = ((len, err), r1)" by (metis surj_pair)
  obtain ct err' r2 where rf': "readFull (unat (Uint32 (len[0 := len ! 0 AND 0x7F]))) r1 = ((ct, err'), r2)"
    by (metis surj_pair)
  have step: "Some (OpenStream_loop g np c' (abs r2) w') = map_option seen (OpenStream_loop_on readFull g np c' r2 w')"
    if "err = None" for c' w'
  proof (rule less.hyps)
    show "length (rd_data (abs r2)) < length (rd_data (abs r))"
      using ReadFull_length [of 4 "abs r" len "abs r1"] simulates [OF rf] that
        ReadFull_shrinks [OF simulates [OF rf']] by simp
  qed
  show ?case
    by (subst OpenStream_loop.simps, subst OpenStream_loop_on.simps, cases err; cases err')
      (simp_all add: ReadFull_abs rf rf' step Let_def split: prod.split res.split)
qed

lemma SealStream_abs:
  "SealStream key (abs r) w chunkSize rnd =
     map_option (map_prod seen id) (SealStream_on readFull key r w chunkSize rnd)"
proof (cases "0 < chunkSize")
  case True
  then have "0 < nat chunkSize" by simp
  note loop = SealStream_loop_abs [OF this]
  show ?thesis
    by (simp add: SealStream_def SealStream_on_def loop option.map_comp comp_def split: prod.split res.split)
qed (simp add: SealStream_def SealStream_on_def)

lemma OpenStream_abs:
  "Some (OpenStream key (abs r) w) = map_option seen (OpenStream_on readFull key r w)"
  by (simp add: OpenStream_def OpenStream_on_def ReadFull_abs OpenStream_loop_abs split: prod.split res.split option.split)

end

interpretation contiguous_reader: full_reader ReadFull "\<lambda>r. r"
  by unfold_locales simp

subsection \<open>Reading in pieces is reading at once\<close>

lemma fragmented_Read_result:
  assumes "fragmented_Read n r = ((p, err), r')"
  obtains k where "k \<le> n" "p = take k (fr_data r)" "fr_data r' = drop k (fr_data r)" "fr_end r' = fr_end r"
    "err = None \<or> err = Some (fr_end r) \<and> fr_data r' = []"
  by (rule that [of "case fr_sizes r of [] \<Rightarrow> n | s # _ \<Rightarrow> min s n"])
    (use assms in \<open>auto simp: fragmented_Read_def Let_def split: list.splits if_splits\<close>)

lemma ReadAtLeast_loop_result:
  "length got \<le> n \<Longrightarrow> \<exists>err r'. ReadAtLeast_loop n got r = ((got @ take (n - length got) (fr_data r), err), r') \<and>
     fr_data r' = drop (n - length got) (fr_data r) \<and> fr_end r' = fr_end r \<and>
     (length (fr_data r) < n - length got \<longrightarrow> err = Some (fr_end r))"
proof (induction n got r rule: ReadAtLeast_loop.induct)
  case (1 n got r)
  show ?case
  proof (cases "length got < n")
    case True
    obtain p err r1 where rd: "fragmented_Read (n - length got) r = ((p, err), r1)" by (metis surj_pair)
    then obtain k where k: "k \<le> n - length got" "p = take k (fr_data r)" "fr_data r1 = drop k (fr_data r)"
        "fr_end r1 = fr_end r" "err = None \<or> err = Some (fr_end r) \<and> fr_data r1 = []"
      by (rule fragmented_Read_result)
    show ?thesis
    proof (cases err)
      case None
      have "length (got @ p) \<le> n" using k(1,2) True by simp
      from "1.IH" [OF True rd [unfolded None, symmetric] refl refl this] show ?thesis
        using True rd None k
        by (subst ReadAtLeast_loop.simps) (auto simp: take_add [symmetric] min_def not_le)
    next
      case (Some e)
      with k True rd show ?thesis
        by (subst ReadAtLeast_loop.simps) auto
    qed
  qed (simp add: 1 ReadAtLeast_loop.simps)
qed

lemma io_ReadFull_simulates:
  assumes "io_ReadFull n r = (res, r')"
  shows "ReadFull n (contiguous r) = (res, contiguous r')"
  using ReadAtLeast_loop_result [of "[]" n r] assms
  by (auto simp: io_ReadFull_def ReadFull_def contiguous_def split: if_splits)

interpretation fragments: full_reader io_ReadFull contiguous
  by unfold_locales (rule io_ReadFull_simulates)

subsection \<open>Properties\<close>

text \<open>Property C7: how a reader cuts its data makes no difference. Whatever the sizes of the pieces in which a reader
  delivers its bytes, calls that return nothing and a final error that comes with the last byte included, the body of
  \<^verbatim>\<open>SealStream\<close> and of \<^verbatim>\<open>OpenStream\<close> over the loop of \<^verbatim>\<open>io.ReadFull\<close> ends with the result, the output and the unread
  data of the same call on a contiguous reader.\<close>

theorem fragmented_streams_equivalent:
  "SealStream key (contiguous r) w chunkSize rnd =
     map_option (\<lambda>((res, r', w'), rnd'). ((res, contiguous r', w'), rnd'))
       (SealStream_on io_ReadFull key r w chunkSize rnd) \<and>
   Some (OpenStream key (contiguous r) w) =
     map_option (\<lambda>(res, r', w'). (res, contiguous r', w')) (OpenStream_on io_ReadFull key r w)"
proof -
  have seen: "fragments.seen = (\<lambda>(res, r', w'). (res, contiguous r', w'))" by (rule fragments.seen_def)
  have "map_prod fragments.seen id = (\<lambda>((res, r', w'), rnd' :: reader). ((res, contiguous r', w'), rnd'))"
    by (simp add: seen fun_eq_iff split: prod.split)
  with fragments.SealStream_abs fragments.OpenStream_abs show ?thesis by (simp only: seen)
qed

end
