(* ===== verification/Sha256.thy ===== *)
theory Sha256
  imports Encoding
begin

text \<open>
  \<^verbatim>\<open>crypto/sha256\<close> (FIPS 180-4) and \<^verbatim>\<open>crypto/hmac\<close> over it (FIPS 198-1), with the fixed output
  length every caller relies on.
\<close>

subsection \<open>SHA-256\<close>

text \<open>The two constant tables, eight 32-bit words to a row, each row read as one number.\<close>

definition words_of_row :: "int \<Rightarrow> 32 word list" where
  "words_of_row n = map (\<lambda>i. word_of_int (n div 2 ^ (32 * (7 - i)))) [0..<8]"

definition sha_K :: "32 word list" where
  "sha_K = concat (map words_of_row
    [0x428a2f9871374491b5c0fbcfe9b5dba53956c25b59f111f1923f82a4ab1c5ed5,
     0xd807aa9812835b01243185be550c7dc372be5d7480deb1fe9bdc06a7c19bf174,
     0xe49b69c1efbe47860fc19dc6240ca1cc2de92c6f4a7484aa5cb0a9dc76f988da,
     0x983e5152a831c66db00327c8bf597fc7c6e00bf3d5a7914706ca635114292967,
     0x27b70a852e1b21384d2c6dfc53380d13650a7354766a0abb81c2c92e92722c85,
     0xa2bfe8a1a81a664bc24b8b70c76c51a3d192e819d6990624f40e3585106aa070,
     0x19a4c1161e376c082748774c34b0bcb5391c0cb34ed8aa4a5b9cca4f682e6ff3,
     0x748f82ee78a5636f84c878148cc7020890befffaa4506cebbef9a3f7c67178f2])"

definition sha_H0 :: "32 word list" where
  "sha_H0 = words_of_row 0x6a09e667bb67ae853c6ef372a54ff53a510e527f9b05688c1f83d9ab5be0cd19"

definition rotr :: "nat \<Rightarrow> 32 word \<Rightarrow> 32 word" where
  "rotr n x = drop_bit n x OR push_bit (32 - n) x"

definition sha_sigma0 :: "32 word \<Rightarrow> 32 word" where
  "sha_sigma0 x = rotr 7 x XOR rotr 18 x XOR drop_bit 3 x"

definition sha_sigma1 :: "32 word \<Rightarrow> 32 word" where
  "sha_sigma1 x = rotr 17 x XOR rotr 19 x XOR drop_bit 10 x"

definition sha_Sigma0 :: "32 word \<Rightarrow> 32 word" where
  "sha_Sigma0 x = rotr 2 x XOR rotr 13 x XOR rotr 22 x"

definition sha_Sigma1 :: "32 word \<Rightarrow> 32 word" where
  "sha_Sigma1 x = rotr 6 x XOR rotr 11 x XOR rotr 25 x"

definition sha_Ch :: "32 word \<Rightarrow> 32 word \<Rightarrow> 32 word \<Rightarrow> 32 word" where
  "sha_Ch x y z = (x AND y) XOR (NOT x AND z)"

definition sha_Maj :: "32 word \<Rightarrow> 32 word \<Rightarrow> 32 word \<Rightarrow> 32 word" where
  "sha_Maj x y z = (x AND y) XOR (x AND z) XOR (y AND z)"

text \<open>The message schedule, produced from a window of the last sixteen words.\<close>

fun sha_schedule :: "nat \<Rightarrow> 32 word list \<Rightarrow> 32 word list" where
  "sha_schedule 0 ws = []"
| "sha_schedule (Suc n) ws =
     hd ws # sha_schedule n
       (tl ws @ [sha_sigma1 (ws ! 14) + ws ! 9 + sha_sigma0 (ws ! 1) + ws ! 0])"

fun sha_round :: "32 word \<times> 32 word \<Rightarrow> 32 word list \<Rightarrow> 32 word list" where
  "sha_round (k, w) [a, b, c, d, e, f, g, h] =
     (let t1 = h + sha_Sigma1 e + sha_Ch e f g + k + w;
          t2 = sha_Sigma0 a + sha_Maj a b c
      in [t1 + t2, a, b, c, d + t1, e, f, g])"
| "sha_round kw st = st"

fun be_words :: "bytes \<Rightarrow> 32 word list" where
  "be_words (a # b # c # d # bs) = Uint32 [a, b, c, d] # be_words bs"
| "be_words bs = []"

definition sha_compress :: "32 word list \<Rightarrow> bytes \<Rightarrow> 32 word list" where
  "sha_compress st block =
     map2 (+) st (fold sha_round (zip sha_K (sha_schedule 64 (be_words block))) st)"

function sha_blocks :: "32 word list \<Rightarrow> bytes \<Rightarrow> 32 word list" where
  "sha_blocks st bs =
     (if length bs < 64 then st else sha_blocks (sha_compress st (take 64 bs)) (drop 64 bs))"
  by pat_completeness auto
termination
  by (relation "measure (\<lambda>(st, bs). length bs)") auto

declare sha_blocks.simps [simp del]

definition sha_pad :: "bytes \<Rightarrow> bytes" where
  "sha_pad msg = msg @ [0x80] @ replicate ((119 - length msg mod 64) mod 64) 0
     @ PutUint64 (word_of_nat (8 * length msg))"

definition sha256_Sum :: "bytes \<Rightarrow> bytes" where
  "sha256_Sum msg = concat (map PutUint32 (sha_blocks sha_H0 (sha_pad msg)))"

definition sha256_Size :: nat where
  "sha256_Size = 32"

subsection \<open>HMAC\<close>

definition hmac_key :: "bytes \<Rightarrow> bytes" where
  "hmac_key key =
     (let k = (if 64 < length key then sha256_Sum key else key) in k @ replicate (64 - length k) 0)"

definition hmac_sha256 :: "bytes \<Rightarrow> bytes \<Rightarrow> bytes" where
  "hmac_sha256 key msg =
     (let k = hmac_key key in
      sha256_Sum (map ((XOR) 0x5c) k @ sha256_Sum (map ((XOR) 0x36) k @ msg)))"

subsection \<open>Output length\<close>

lemma sha_round_length [simp]: "length (sha_round kw st) = length st"
  by (induction kw st rule: sha_round.induct) (auto simp: Let_def)

lemma sha_rounds_length [simp]: "length (fold sha_round kws st) = length st"
  by (induction kws arbitrary: st) auto

lemma sha_blocks_length: "length (sha_blocks st bs) = length st"
proof (induction st bs rule: sha_blocks.induct)
  case (1 st bs)
  then show ?case
    by (cases "length bs < 64") (simp_all add: sha_blocks.simps [of st bs] sha_compress_def)
qed

lemma concat_PutUint32_length: "length (concat (map PutUint32 ws)) = 4 * length ws"
  by (induction ws) auto

lemma length_words_of_row [simp]: "length (words_of_row n) = 8"
  by (simp add: words_of_row_def)

lemma sha256_Sum_length [simp]: "length (sha256_Sum msg) = 32"
  by (simp add: sha256_Sum_def concat_PutUint32_length sha_blocks_length sha_H0_def)

lemma hmac_sha256_length [simp]: "length (hmac_sha256 key msg) = 32"
  by (simp add: hmac_sha256_def Let_def)

end
