(* ===== verification/Sign.thy ===== *)
theory Sign
  imports Format Sha256
begin

text \<open>
  \<^verbatim>\<open>src/sign.go\<close>: HMAC-SHA256 signing over the SHA-256 model, and the constant-time comparison of
  \<^verbatim>\<open>crypto/subtle\<close>, which accumulates the differences of all bytes.
\<close>

subsection \<open>Model\<close>

definition ConstantTimeCompare :: "bytes \<Rightarrow> bytes \<Rightarrow> int" where
  "ConstantTimeCompare x y =
     (if length x \<noteq> length y then 0
      else if foldl (\<lambda>v (a, b). v OR (a XOR b)) 0 (zip x y) = 0 then 1 else 0)"

definition hmac_Equal :: "bytes \<Rightarrow> bytes \<Rightarrow> bool" where
  "hmac_Equal mac1 mac2 \<longleftrightarrow> ConstantTimeCompare mac1 mac2 = 1"

definition Sign :: "bytes \<Rightarrow> bytes \<Rightarrow> bytes" where
  "Sign key data = hmac_sha256 key data"

definition Verify :: "bytes \<Rightarrow> bytes \<Rightarrow> bytes \<Rightarrow> bool" where
  "Verify key data mac =
     (if length mac \<noteq> sha256_Size then False
      else let expected = Sign key data in hmac_Equal expected mac)"

definition ConstantTimeEqual :: "bytes \<Rightarrow> bytes \<Rightarrow> bool" where
  "ConstantTimeEqual a b \<longleftrightarrow> ConstantTimeCompare a b = 1"

subsection \<open>The accumulated difference is zero exactly for equal buffers\<close>

lemma xor_eq_0_iff: "(a :: byte) XOR b = 0 \<longleftrightarrow> a = b"
  by (auto simp: bit_eq_iff bit_xor_iff)

lemma fold_difference:
  "length x = length y \<Longrightarrow>
     foldl (\<lambda>v (a, b). v OR (a XOR b)) v (zip x y) = (0 :: byte) \<longleftrightarrow> v = 0 \<and> x = y"
proof (induction x y arbitrary: v rule: list_induct2)
  case (Cons a x b y)
  then show ?case by (simp add: or_eq_0_iff xor_eq_0_iff conj_assoc)
qed simp

lemma ConstantTimeCompare_iff: "ConstantTimeCompare x y = 1 \<longleftrightarrow> x = y"
  by (cases "length x = length y") (auto simp: ConstantTimeCompare_def fold_difference)

lemma Sign_length [simp]: "length (Sign key data) = 32"
  by (simp add: Sign_def)

lemma Verify_iff: "Verify key data mac \<longleftrightarrow> mac = Sign key data"
  by (auto simp: Verify_def hmac_Equal_def ConstantTimeCompare_iff sha256_Size_def)

lemma ConstantTimeEqual_iff: "ConstantTimeEqual a b \<longleftrightarrow> a = b"
  by (simp add: ConstantTimeEqual_def ConstantTimeCompare_iff)

subsection \<open>Properties\<close>

text \<open>\<^verbatim>\<open>Verify\<close> accepts exactly the 32-byte tag \<^verbatim>\<open>Sign\<close> computes: for no input is a second, shorter or
  longer tag accepted. The constant-time comparison, which accumulates the differences of all bytes
  without stopping, decides equality of byte strings of any lengths.\<close>

lemma verify_exactly_sign:
  "(Verify key data mac \<longleftrightarrow> mac = Sign key data) \<and> length (Sign key data) = 32 \<and>
   (ConstantTimeEqual a b \<longleftrightarrow> a = b)"
  by (simp add: Verify_iff ConstantTimeEqual_iff)

end
