(* ===== verification/Timelock.thy ===== *)
theory Timelock
  imports Aead
begin

text \<open>
  \<^verbatim>\<open>src/timelock.go\<close>: tokens with an expiry sealed in front of the payload. \<^verbatim>\<open>time.Now()\<close> is the argument
  \<open>now\<close>, in nanoseconds since the Unix epoch, and \<^verbatim>\<open>Unix()\<close> its floor in seconds; the expiry is kept in
  64 bits as in the code.
\<close>

subsection \<open>Model\<close>

definition Unix :: "int \<Rightarrow> int" where
  "Unix t = t div 10 ^ 9"

definition IssueToken ::
    "int \<Rightarrow> bytes \<Rightarrow> bytes \<Rightarrow> int \<Rightarrow> bytes \<Rightarrow> reader \<Rightarrow> gostring res \<times> reader" where
  "IssueToken now key payload ttl aad rnd =
     (if ttl \<le> 0 then (Err (Msg ''crypt: TTL must be positive; got %v''), rnd)
      else
        let expiry = Unix (now + ttl);
            wrapped = PutUint64 (word_of_int expiry) @ payload
        in Seal key wrapped aad rnd)"

definition VerifyToken :: "int \<Rightarrow> bytes \<Rightarrow> gostring \<Rightarrow> bytes \<Rightarrow> bytes res" where
  "VerifyToken now key token aad =
     and_then (Open key token aad) (\<lambda>wrapped.
     if length wrapped < 8 then Err (Wrap ''%w: token plaintext too short'' ErrInvalidCiphertext)
     else
       and_then (go_slice wrapped 0 8) (\<lambda>field.
       let expiry = sint (Uint64 field) in
       if expiry \<le> Unix now then Err ErrExpired
       else go_slice_from wrapped 8))"

subsection \<open>Verification in terms of the sealed plaintext\<close>

lemma PutUint64_Uint64:
  assumes "length bs = 8"
  shows "PutUint64 (Uint64 bs) = bs"
proof -
  have "length (take 4 bs) = 4" "length (drop 4 bs) = 4" using assms by simp_all
  moreover have "ucast (drop_bit 32 (Uint64 bs)) = Uint32 (take 4 bs)"
    by (rule bit_word_eqI) (auto simp: Uint64_def bit_simps dest: bit_imp_le_length)
  moreover have "ucast (Uint64 bs) = Uint32 (drop 4 bs)"
    by (rule bit_word_eqI) (auto simp: Uint64_def bit_simps dest: bit_imp_le_length)
  ultimately show ?thesis by (simp add: PutUint64_def PutUint32_Uint32)
qed

lemma VerifyToken_Ok_iff:
  "VerifyToken now key token aad = Ok payload \<longleftrightarrow>
     (\<exists>w. Open key token aad = Ok (PutUint64 w @ payload) \<and> Unix now < sint w)"
proof
  assume "VerifyToken now key token aad = Ok payload"
  then obtain wrapped where w: "Open key token aad = Ok wrapped" "8 \<le> length wrapped"
      "Unix now < sint (Uint64 (take 8 wrapped))" "drop 8 wrapped = payload"
    by (auto simp: VerifyToken_def go_simps go_slice_def go_slice_from_def Let_def split: if_splits)
  moreover from this have "PutUint64 (Uint64 (take 8 wrapped)) = take 8 wrapped"
    by (intro PutUint64_Uint64) simp
  ultimately show "\<exists>w. Open key token aad = Ok (PutUint64 w @ payload) \<and> Unix now < sint w"
    by (metis append_take_drop_id)
next
  assume "\<exists>w. Open key token aad = Ok (PutUint64 w @ payload) \<and> Unix now < sint w"
  then show "VerifyToken now key token aad = Ok payload"
    by (auto simp: VerifyToken_def go_slice_def go_slice_from_def Let_def)
qed

lemma VerifyToken_sealed:
  assumes "Open key token aad = Ok (PutUint64 w @ payload)"
  shows "VerifyToken now key token aad = (if sint w \<le> Unix now then Err ErrExpired else Ok payload)"
  using assms by (simp add: VerifyToken_def go_slice_def go_slice_from_def Let_def)

lemma sint_expiry: "- (2 ^ 63) \<le> x \<Longrightarrow> x < 2 ^ 63 \<Longrightarrow> sint (word_of_int x :: 64 word) = x"
  by (simp add: sint_sbintrunc' signed_take_bit_int_eq_self)

lemma Unix_bounds: "0 \<le> t \<Longrightarrow> 0 \<le> Unix t \<and> Unix t \<le> t"
  by (simp add: Unix_def pos_imp_zdiv_nonneg_iff)

lemma IssueToken_returns:
  assumes "length key = 32" and "length payload + 8 \<le> gcm_max" and "12 \<le> length (rd_data rnd)" and "0 < ttl"
  shows "\<exists>c. IssueToken now key payload ttl aad rnd = (Ok c, rnd\<lparr>rd_data := drop 12 (rd_data rnd)\<rparr>) \<and>
    Open key c aad = Ok (PutUint64 (word_of_int (Unix (now + ttl))) @ payload)"
proof -
  let ?p = "PutUint64 (word_of_int (Unix (now + ttl))) @ payload"
  obtain c where c: "Seal key ?p aad rnd = (Ok c, rnd\<lparr>rd_data := drop 12 (rd_data rnd)\<rparr>)"
    using Seal_returns [OF assms(1) _ assms(3), of ?p aad] assms(2) by (auto simp: add.commute)
  with Seal_Open [OF c] assms(4) show ?thesis by (simp add: IssueToken_def Let_def)
qed

lemma VerifyToken_no_panic: "VerifyToken now key token aad \<noteq> Panic"
  by (auto simp: VerifyToken_def go_simps Open_no_panic Let_def go_slice_def go_slice_from_def)

subsection \<open>Properties\<close>

text \<open>Property C22: a token issued at \<open>now\<close> for \<open>ttl\<close> nanoseconds verifies at \<open>later\<close> to its payload exactly while the
  whole second of \<open>later\<close> is before the whole second of \<open>now + ttl\<close>, and gives \<open>ErrExpired\<close>
  otherwise; in particular never at or after \<open>now + ttl\<close>, and always until one second before it.\<close>

theorem token_lifetime:
  assumes "length key = 32" and "length payload + 8 \<le> gcm_max" and "12 \<le> length (rd_data rnd)"
    and "0 < ttl" and "0 \<le> now" and "now + ttl < 2 ^ 63"
  shows "\<exists>c. IssueToken now key payload ttl aad rnd = (Ok c, rnd\<lparr>rd_data := drop 12 (rd_data rnd)\<rparr>) \<and>
    VerifyToken later key c aad =
      (if later div 10 ^ 9 < (now + ttl) div 10 ^ 9 then Ok payload else Err ErrExpired) \<and>
    (now + ttl \<le> later \<longrightarrow> VerifyToken later key c aad = Err ErrExpired) \<and>
    (later + 10 ^ 9 \<le> now + ttl \<longrightarrow> VerifyToken later key c aad = Ok payload)"
proof -
  obtain c where c: "IssueToken now key payload ttl aad rnd = (Ok c, rnd\<lparr>rd_data := drop 12 (rd_data rnd)\<rparr>)"
      "Open key c aad = Ok (PutUint64 (word_of_int (Unix (now + ttl))) @ payload)"
    using IssueToken_returns [OF assms(1-4)] by blast
  have "sint (word_of_int (Unix (now + ttl)) :: 64 word) = Unix (now + ttl)"
    using Unix_bounds [of "now + ttl"] assms(4-6) by (intro sint_expiry) linarith+
  with c(2) have "VerifyToken later key c aad =
      (if later div 10 ^ 9 < (now + ttl) div 10 ^ 9 then Ok payload else Err ErrExpired)"
    by (auto simp: VerifyToken_sealed Unix_def)
  moreover have "\<not> later div 10 ^ 9 < (now + ttl) div 10 ^ 9" if "now + ttl \<le> later"
    using zdiv_mono1 [OF that, of "10 ^ 9"] by simp
  moreover have "later div 10 ^ 9 < (now + ttl) div 10 ^ 9" if "later + 10 ^ 9 \<le> now + ttl"
    using zdiv_mono1 [OF that, of "10 ^ 9"] by simp
  ultimately show ?thesis using c(1) by auto
qed

lemma token_lifetime_witness:
  "\<exists>c. fst (IssueToken 1000000999 (replicate 32 1) [7] 1000 [] \<lparr>rd_data = replicate 12 0, rd_end = EOF\<rparr>) = Ok c \<and>
     VerifyToken 1000000999 (replicate 32 1) c [] = Err ErrExpired"
  using token_lifetime [of "replicate 32 1" "[7]" "\<lparr>rd_data = replicate 12 0, rd_end = EOF\<rparr>" 1000 1000000999 "[]" 1000000999]
  by (auto simp: gcm_max_def)

text \<open>\<^verbatim>\<open>VerifyToken\<close> returns a payload exactly when the token opens under the key and the associated data
  to an 8-byte expiry, read as a signed number, that lies in the future, followed by that payload; it
  never panics, and a non-positive TTL is refused at issue.\<close>

lemma verify_token_accepts_exactly:
  "(VerifyToken now key token aad = Ok payload \<longleftrightarrow>
     (\<exists>w. Open key token aad = Ok (PutUint64 w @ payload) \<and> now div 10 ^ 9 < sint w)) \<and>
   VerifyToken now key token aad \<noteq> Panic \<and>
   (if ttl \<le> 0 then \<not> is_ok (fst (IssueToken now key payload ttl aad rnd)) else True)"
  by (simp add: VerifyToken_Ok_iff VerifyToken_no_panic Unix_def IssueToken_def)

end
