(* ===== verification/GoText.thy ===== *)
theory GoText
  imports Encoding
begin

text \<open>
  The text handling of the Go standard library that \<^verbatim>\<open>password.go\<close> and the examples use: \<^verbatim>\<open>strings.Split\<close> at
  a one-byte separator, \<^verbatim>\<open>strings.HasPrefix\<close>, decimal formatting (\<^verbatim>\<open>%d\<close>), \<^verbatim>\<open>strconv.FormatInt\<close> and
  \<^verbatim>\<open>ParseInt\<close>, and \<^verbatim>\<open>fmt.Sscanf\<close> for formats made of literal text and \<^verbatim>\<open>%d\<close> verbs. As in Go, a \<^verbatim>\<open>%d\<close> verb
  skips white space before the number (a line feed is an error), a signed one accepts a sign, and what
  follows the last verb is not looked at.
\<close>

subsection \<open>Splitting and formatting\<close>

fun strings_Split :: "gostring \<Rightarrow> byte \<Rightarrow> gostring list" where
  "strings_Split [] sep = [[]]"
| "strings_Split (c # s) sep =
     (if c = sep then [] # strings_Split s sep
      else (case strings_Split s sep of [] \<Rightarrow> [[c]] | p # ps \<Rightarrow> (c # p) # ps))"

definition HasPrefix :: "gostring \<Rightarrow> gostring \<Rightarrow> bool" where
  "HasPrefix s p \<longleftrightarrow> take (length p) s = p"

definition digit :: "nat \<Rightarrow> byte" where
  "digit d = 48 + word_of_nat d"

fun decimal :: "nat \<Rightarrow> gostring" where
  "decimal n = (if n < 10 then [digit n] else decimal (n div 10) @ [digit (n mod 10)])"

declare decimal.simps [simp del]

subsection \<open>Sscanf\<close>

text \<open>The length of the white space character (UTF-8) at the head of the input, 0 if there is none.\<close>

definition space_len :: "gostring \<Rightarrow> nat" where
  "space_len s =
     (if s = [] then 0
      else if hd s \<in> {9, 11, 12, 13, 32} then 1
      else if take 2 s \<in> {[0xC2, 0x85], [0xC2, 0xA0]} then 2
      else if take 3 s \<in> {[0xE1, 0x9A, 0x80], [0xE2, 0x80, 0xA8], [0xE2, 0x80, 0xA9], [0xE2, 0x80, 0xAF],
                          [0xE2, 0x81, 0x9F], [0xE3, 0x80, 0x80]} then 3
      else if take 2 s = [0xE2, 0x80] \<and> 2 < length s \<and> 0x80 \<le> s ! 2 \<and> s ! 2 \<le> 0x8A then 3
      else 0)"

function SkipSpace :: "gostring \<Rightarrow> gostring option" where
  "SkipSpace s =
     (if s = [] then Some []
      else if hd s = 10 then None
      else if space_len s = 0 then Some s
      else SkipSpace (drop (space_len s) s))"
  by pat_completeness auto
termination
  by (relation "measure length") (auto simp: space_len_def split: if_splits)

declare SkipSpace.simps [simp del]

definition is_digit :: "byte \<Rightarrow> bool" where
  "is_digit c \<longleftrightarrow> 48 \<le> c \<and> c \<le> 57"

definition digits_value :: "gostring \<Rightarrow> nat" where
  "digits_value ds = foldl (\<lambda>v c. 10 * v + unat (c - 48)) 0 ds"

text \<open>\<^verbatim>\<open>scanNumber\<close>: at least one digit, and the rest of the input.\<close>

definition scanNumber :: "gostring \<Rightarrow> (nat \<times> gostring) option" where
  "scanNumber s =
     (if takeWhile is_digit s = [] then None
      else Some (digits_value (takeWhile is_digit s), dropWhile is_digit s))"

definition scanInt :: "gostring \<Rightarrow> (int \<times> gostring) option" where
  "scanInt s =
     (case SkipSpace s of
        None \<Rightarrow> None
      | Some s \<Rightarrow>
          (let neg = (s \<noteq> [] \<and> hd s = 45);
               s = (if s \<noteq> [] \<and> (hd s = 43 \<or> hd s = 45) then tl s else s)
           in case scanNumber s of
                None \<Rightarrow> None
              | Some (v, s) \<Rightarrow>
                  let i = (if neg then - int v else int v)
                  in if - (2 ^ 63) \<le> i \<and> i < 2 ^ 63 then Some (i, s) else None))"

definition scanUint :: "nat \<Rightarrow> gostring \<Rightarrow> (int \<times> gostring) option" where
  "scanUint bits s =
     (case SkipSpace s of
        None \<Rightarrow> None
      | Some s \<Rightarrow>
          (case scanNumber s of
             None \<Rightarrow> None
           | Some (v, s) \<Rightarrow> if v < 2 ^ 64 \<and> v < 2 ^ bits then Some (int v, s) else None))"

text \<open>\<^verbatim>\<open>strconv.FormatInt(i, 10)\<close> and \<^verbatim>\<open>strconv.ParseInt(s, 10, 64)\<close>.\<close>

definition FormatInt :: "int \<Rightarrow> gostring" where
  "FormatInt i = (if i < 0 then lit ''-'' @ decimal (nat (- i)) else decimal (nat i))"

definition ParseInt :: "gostring \<Rightarrow> int option" where
  "ParseInt s =
     (let neg = (s \<noteq> [] \<and> hd s = 45);
          ds = (if s \<noteq> [] \<and> (hd s = 43 \<or> hd s = 45) then tl s else s);
          i = (if neg then - int (digits_value ds) else int (digits_value ds))
      in if ds = [] \<or> \<not> list_all is_digit ds then None
         else if - (2 ^ 63) \<le> i \<and> i < 2 ^ 63 then Some i else None)"

datatype scan_item = Literal gostring | Int64 | Unsigned nat

fun Sscanf :: "scan_item list \<Rightarrow> gostring \<Rightarrow> int list option" where
  "Sscanf [] s = Some []"
| "Sscanf (Literal l # fs) s = (if take (length l) s = l then Sscanf fs (drop (length l) s) else None)"
| "Sscanf (Int64 # fs) s =
     (case scanInt s of None \<Rightarrow> None | Some (i, s) \<Rightarrow> map_option ((#) i) (Sscanf fs s))"
| "Sscanf (Unsigned bits # fs) s =
     (case scanUint bits s of None \<Rightarrow> None | Some (i, s) \<Rightarrow> map_option ((#) i) (Sscanf fs s))"

subsection \<open>Splitting and scanning what was formatted\<close>

lemma strings_Split_not_Nil [simp]: "strings_Split s sep \<noteq> []"
  by (induction s) (auto split: list.splits)

lemma strings_Split_single: "sep \<notin> set s \<Longrightarrow> strings_Split s sep = [s]"
  by (induction s) auto

lemma strings_Split_append:
  "sep \<notin> set s \<Longrightarrow> strings_Split (s @ sep # s') sep = s # strings_Split s' sep"
  by (induction s) auto

lemma is_digit_digit: "d < 10 \<Longrightarrow> is_digit (digit d)"
  by (cases "d = 0 \<or> d = 1 \<or> d = 2 \<or> d = 3 \<or> d = 4 \<or> d = 5 \<or> d = 6 \<or> d = 7 \<or> d = 8 \<or> d = 9")
    (auto simp: is_digit_def digit_def)

lemma decimal_digits: "c \<in> set (decimal n) \<Longrightarrow> is_digit c"
proof (induction n rule: decimal.induct)
  case (1 n)
  then show ?case
    by (cases "n < 10") (auto simp: decimal.simps [of n] is_digit_digit)
qed

lemma decimal_not_Nil [simp]: "decimal n \<noteq> []"
  by (subst decimal.simps) simp

lemma digits_value_decimal: "digits_value (decimal n) = n"
proof (induction n rule: decimal.induct)
  case (1 n)
  have "unat (digit d - 48) = d" if "d < 10" for d using that by (simp add: digit_def unat_of_nat)
  with 1 show ?case
    by (cases "n < 10") (simp_all add: decimal.simps [of n] digits_value_def)
qed

lemma list_all_decimal: "list_all is_digit (decimal n)"
  using decimal_digits by (simp add: list_all_iff)

lemma decimal_head: "hd (decimal n) \<noteq> 43 \<and> hd (decimal n) \<noteq> 45"
  using decimal_digits [of "hd (decimal n)" n] hd_in_set [OF decimal_not_Nil [of n]] by (auto simp: is_digit_def)

lemma length_decimal: "length (decimal n) \<le> Suc n"
proof (induction n rule: decimal.induct)
  case (1 n)
  then show ?case by (cases "n < 10") (auto simp: decimal.simps [of n] div_le_mono2 dest!: le_trans)
qed

lemma length_FormatInt: "length (FormatInt i) \<le> nat \<bar>i\<bar> + 2"
  using length_decimal [of "nat i"] length_decimal [of "nat (- i)"] by (simp add: FormatInt_def lit_def)

lemma decimal_hd_nonzero: "0 < n \<Longrightarrow> hd (decimal n) \<noteq> 48"
proof (induction n rule: decimal.induct)
  case (1 n)
  have "digit n \<noteq> 48" if "n < 10" using that 1(2) by (auto simp: digit_def word_of_nat_eq_0_iff dest: dvd_imp_le)
  with 1 show ?case by (cases "n < 10") (auto simp: decimal.simps [of n] hd_append)
qed

lemma ParseInt_FormatInt:
  assumes "- (2 ^ 63) \<le> i" and "i < 2 ^ 63"
  shows "ParseInt (FormatInt i) = Some i"
proof (cases "i < 0")
  case True
  then have "FormatInt i = 45 # decimal (nat (- i))" by (simp add: FormatInt_def lit_def)
  with True assms show ?thesis by (simp add: ParseInt_def Let_def list_all_decimal digits_value_decimal)
next
  case False
  then have "FormatInt i = decimal (nat i)" by (simp add: FormatInt_def)
  with False assms decimal_head [of "nat i"] show ?thesis
    by (simp add: ParseInt_def Let_def list_all_decimal digits_value_decimal)
qed

lemma FormatInt_not_Nil [simp]: "FormatInt i \<noteq> []"
  by (simp add: FormatInt_def)

lemma FormatInt_no_comma: "44 \<notin> set (FormatInt i)"
  using decimal_digits [of 44] by (auto simp: FormatInt_def lit_def is_digit_def)

lemma SkipSpace_digit: "is_digit c \<Longrightarrow> SkipSpace (c # s) = Some (c # s)"
proof -
  assume "is_digit c"
  then have "c \<noteq> 10" "c \<notin> {9, 11, 12, 13, 32}" "c \<noteq> 0xC2" "c \<noteq> 0xE1" "c \<noteq> 0xE2" "c \<noteq> 0xE3"
    by (auto simp: is_digit_def)
  then show ?thesis
    by (simp add: SkipSpace.simps space_len_def take_Cons')
qed

lemma scanNumber_decimal:
  assumes "s = [] \<or> \<not> is_digit (hd s)"
  shows "scanNumber (decimal n @ s) = Some (n, s)"
proof -
  have "takeWhile is_digit (decimal n @ s) = decimal n" "dropWhile is_digit (decimal n @ s) = s"
    using assms decimal_digits by (cases s; force simp: takeWhile_append dropWhile_append)+
  then show ?thesis by (simp add: scanNumber_def digits_value_decimal)
qed

lemma SkipSpace_decimal: "SkipSpace (decimal n @ s) = Some (decimal n @ s)"
proof -
  obtain c cs where c: "decimal n = c # cs" using decimal_not_Nil by (cases "decimal n") blast+
  moreover have "is_digit c" using decimal_digits [of c n] by (simp add: c)
  ultimately show ?thesis by (simp add: SkipSpace_digit)
qed

lemma scanInt_decimal:
  assumes "s = [] \<or> \<not> is_digit (hd s)" and "n < 2 ^ 63"
  shows "scanInt (decimal n @ s) = Some (int n, s)"
proof -
  obtain c cs where c: "decimal n = c # cs" using decimal_not_Nil by (cases "decimal n") blast+
  have "is_digit c" using decimal_digits [of c n] by (simp add: c)
  then have "hd (decimal n @ s) \<noteq> 43" "hd (decimal n @ s) \<noteq> 45" by (auto simp: c is_digit_def)
  then show ?thesis
    using scanNumber_decimal [OF assms(1), of n] assms(2) by (simp add: scanInt_def SkipSpace_decimal Let_def)
qed

lemma scanUint_decimal:
  assumes "s = [] \<or> \<not> is_digit (hd s)" and "n < 2 ^ 64" and "n < 2 ^ bits"
  shows "scanUint bits (decimal n @ s) = Some (int n, s)"
  using assms by (simp add: scanUint_def SkipSpace_decimal scanNumber_decimal)

lemma scanUint_bound: "scanUint bits s = Some (i, s') \<Longrightarrow> 0 \<le> i \<and> i < 2 ^ bits"
  by (auto simp: scanUint_def split: option.splits if_splits)

lemma b64_encode_chars:
  assumes "length al = 64" and "c \<in> set (b64_encode al bs)"
  shows "c \<in> set al"
  using assms b64_split_sextets by (auto simp: b64_encode_def)

end
