(* ===== verification/Password.thy ===== *)
theory Password
  imports GoText Sign
begin

text \<open>
  \<^verbatim>\<open>src/password.go\<close>: argon2id password hashes in PHC strings. \<^verbatim>\<open>argon2.IDKey\<close> is in
  \<^verbatim>\<open>golang.org/x/crypto\<close>, outside the repository, so it is the argument \<open>IDKey\<close> (password, salt, time,
  memory, threads, key length); \<open>argon2_spec\<close> is its documented behaviour: it panics when the time or the
  threads are zero and otherwise returns a key of the length asked for.
\<close>

subsection \<open>Model\<close>

type_synonym idkey = "bytes \<Rightarrow> bytes \<Rightarrow> 32 word \<Rightarrow> 32 word \<Rightarrow> byte \<Rightarrow> 32 word \<Rightarrow> bytes res"

definition argonMemoryKiB :: nat where "argonMemoryKiB = 64 * 1024"

definition argonTimeCost :: nat where "argonTimeCost = 2"

definition argonParallel :: nat where "argonParallel = 1"

definition argonSaltLen :: nat where "argonSaltLen = 16"

definition argonKeyLen :: nat where "argonKeyLen = 32"

definition argonAlgo :: gostring where "argonAlgo = lit ''argon2id''"

definition argonVersionTag :: nat where "argonVersionTag = 19"

record argon2Params =
  memoryKiB :: "32 word"
  timeCost :: "32 word"
  parallel :: byte

definition formatPHC :: "bytes \<Rightarrow> bytes \<Rightarrow> gostring" where
  "formatPHC salt hash =
     lit ''$'' @ argonAlgo @ lit ''$v='' @ decimal argonVersionTag @ lit ''$m='' @ decimal argonMemoryKiB
     @ lit '',t='' @ decimal argonTimeCost @ lit '',p='' @ decimal argonParallel
     @ lit ''$'' @ RawStdEncoding_EncodeToString salt @ lit ''$'' @ RawStdEncoding_EncodeToString hash"

definition parsePHC :: "gostring \<Rightarrow> (bytes \<times> bytes \<times> argon2Params) res" where
  "parsePHC s =
     (let parts = strings_Split s 36 in
      if length parts \<noteq> 6 then Err (Wrap ''%w: expected 5 segments, got %d'' ErrInvalidPasswordHash)
      else if parts ! 0 \<noteq> [] then Err (Wrap (''%w: missing leading '' @ [CHR 0x27, CHR 0x24, CHR 0x27]) ErrInvalidPasswordHash)
      else if parts ! 1 \<noteq> argonAlgo then Err (Wrap ''%w: unsupported algorithm %q'' ErrInvalidPasswordHash)
      else
        case Sscanf [Literal (lit ''v=''), Int64] (parts ! 2) of
          None \<Rightarrow> Err (Wrap ''%w: bad version %q'' ErrInvalidPasswordHash)
        | Some vals \<Rightarrow>
            let ver = vals ! 0 in
            if ver \<noteq> int argonVersionTag then Err (Wrap ''%w: unsupported version %d'' ErrInvalidPasswordHash)
            else
              case Sscanf [Literal (lit ''m=''), Unsigned 32, Literal (lit '',t=''), Unsigned 32,
                           Literal (lit '',p=''), Unsigned 8] (parts ! 3) of
                None \<Rightarrow> Err (Wrap ''%w: bad params %q: %v'' ErrInvalidPasswordHash)
              | Some vals \<Rightarrow>
                  let params = \<lparr>memoryKiB = word_of_int (vals ! 0), timeCost = word_of_int (vals ! 1),
                                parallel = word_of_int (vals ! 2)\<rparr>
                  in
                  and_then (of_option (Wrap ''%w: bad salt: %v'' ErrInvalidPasswordHash)
                             (RawStdEncoding_DecodeString (parts ! 4))) (\<lambda>salt.
                  and_then (of_option (Wrap ''%w: bad hash: %v'' ErrInvalidPasswordHash)
                             (RawStdEncoding_DecodeString (parts ! 5))) (\<lambda>hash.
                  if length salt = 0 \<or> length hash = 0
                  then Err (Wrap ''%w: empty salt or hash'' ErrInvalidPasswordHash)
                  else Ok (salt, hash, params))))"

definition HashPassword :: "idkey \<Rightarrow> gostring \<Rightarrow> reader \<Rightarrow> gostring res \<times> reader" where
  "HashPassword IDKey plaintext rnd =
     then_do (read_rand (Wrap ''crypt: random salt: %w'') argonSaltLen rnd) (\<lambda>salt rnd.
     then_do (IDKey plaintext salt (word_of_nat argonTimeCost) (word_of_nat argonMemoryKiB)
                (word_of_nat argonParallel) (word_of_nat argonKeyLen), rnd) (\<lambda>hash rnd.
       (Ok (formatPHC salt hash), rnd)))"

definition VerifyPassword :: "idkey \<Rightarrow> gostring \<Rightarrow> gostring \<Rightarrow> bool res" where
  "VerifyPassword IDKey plaintext stored =
     and_then (parsePHC stored) (\<lambda>(salt, hash, params).
     and_then (IDKey plaintext salt (timeCost params) (memoryKiB params) (parallel params)
                (word_of_nat (length hash))) (\<lambda>computed.
       if ConstantTimeCompare computed hash = 1 then Ok True else Ok False))"

definition argon2_spec :: "idkey \<Rightarrow> bool" where
  "argon2_spec IDKey \<longleftrightarrow> (\<forall>pw salt t m p n.
     (if t = 0 \<or> p = 0 then IDKey pw salt t m p n = Panic
      else (\<exists>h. IDKey pw salt t m p n = Ok h \<and> length h = unat n)))"

lemma argon2_specD:
  assumes "argon2_spec IDKey"
  shows "t \<noteq> 0 \<Longrightarrow> p \<noteq> 0 \<Longrightarrow> \<exists>h. IDKey pw salt t m p n = Ok h \<and> length h = unat n"
    and "IDKey pw salt t m p n = Panic \<longleftrightarrow> t = 0 \<or> p = 0"
  using assms unfolding argon2_spec_def by (metis res.distinct(3))+

subsection \<open>Parsing inverts formatting\<close>

definition default_params :: argon2Params where
  "default_params = \<lparr>memoryKiB = 65536, timeCost = 2, parallel = 1\<rparr>"

lemma decimal_ascii: "36 \<notin> set (decimal n)"
  using decimal_digits [of 36 n] by (auto simp: is_digit_def)

lemma b64std_chars: "36 \<notin> set (RawStdEncoding_EncodeToString bs)"
proof -
  have "length std_alphabet = 64" "36 \<notin> set std_alphabet" by (simp_all add: std_alphabet_def lit_def)
  then show ?thesis using b64_encode_chars by (auto simp: RawStdEncoding_EncodeToString_def)
qed

lemma formatPHC_parts:
  "strings_Split (formatPHC salt hash) 36 =
     [[], argonAlgo, lit ''v='' @ decimal 19,
      lit ''m='' @ decimal 65536 @ lit '',t='' @ decimal 2 @ lit '',p='' @ decimal 1,
      RawStdEncoding_EncodeToString salt, RawStdEncoding_EncodeToString hash]"
proof -
  have phc: "formatPHC salt hash = [] @ 36 # argonAlgo @ 36 # (lit ''v='' @ decimal 19) @ 36 #
      (lit ''m='' @ decimal 65536 @ lit '',t='' @ decimal 2 @ lit '',p='' @ decimal 1) @ 36 #
      RawStdEncoding_EncodeToString salt @ 36 # RawStdEncoding_EncodeToString hash"
    by (simp add: formatPHC_def argonVersionTag_def argonMemoryKiB_def argonTimeCost_def argonParallel_def lit_def)
  show ?thesis
    unfolding phc
    by (subst strings_Split_append | subst strings_Split_single
      | simp add: b64std_chars decimal_ascii argonAlgo_def lit_def; fail)+
qed

lemma scan_version: "Sscanf [Literal (lit ''v=''), Int64] (lit ''v='' @ decimal 19) = Some [19]"
  using scanInt_decimal [of "[]" 19] by (simp add: lit_def)

lemma scan_params:
  "Sscanf [Literal (lit ''m=''), Unsigned 32, Literal (lit '',t=''), Unsigned 32, Literal (lit '',p=''), Unsigned 8]
     (lit ''m='' @ decimal m @ lit '',t='' @ decimal t @ lit '',p='' @ decimal p) =
   (if m < 2 ^ 32 \<and> t < 2 ^ 32 \<and> p < 2 ^ 8 then Some [int m, int t, int p] else None)"
proof -
  have nd: "\<not> is_digit (hd (lit '',t='' @ s))" "\<not> is_digit (hd (lit '',p='' @ s))" for s
    by (simp_all add: lit_def is_digit_def)
  have u: "scanUint bits (decimal n @ s) = (if n < 2 ^ 64 \<and> n < 2 ^ bits then Some (int n, s) else None)"
    if "s = [] \<or> \<not> is_digit (hd s)" for bits n s
    using that by (simp add: scanUint_def SkipSpace_decimal scanNumber_decimal)
  have "scanUint 8 (decimal p) = (if p < 2 ^ 64 \<and> p < 2 ^ 8 then Some (int p, []) else None)"
    using u [of "[]" 8 p] by simp
  then show ?thesis
    using u [of "lit '',t='' @ decimal t @ lit '',p='' @ decimal p" 32 m] u [of "lit '',p='' @ decimal p" 32 t] nd
    by (auto simp: lit_def)
qed

lemma parsePHC_formatPHC:
  assumes "salt \<noteq> []" and "hash \<noteq> []"
  shows "parsePHC (formatPHC salt hash) = Ok (salt, hash, default_params)"
  using assms scan_version scan_params [of 65536 2 1]
  by (simp add: parsePHC_def formatPHC_parts Let_def argonVersionTag_def default_params_def)

lemma parsePHC_formatPHC_empty:
  "salt = [] \<or> hash = [] \<Longrightarrow> err_is (parsePHC (formatPHC salt hash)) ErrInvalidPasswordHash"
  using scan_version scan_params [of 65536 2 1]
  by (auto simp: parsePHC_def formatPHC_parts Let_def argonVersionTag_def)

lemma parsePHC_error: "parsePHC s = Err e \<Longrightarrow> errors_Is e ErrInvalidPasswordHash"
  by (auto simp: parsePHC_def Let_def go_simps split: if_splits option.splits)

lemma parsePHC_no_panic: "parsePHC s \<noteq> Panic"
  by (auto simp: parsePHC_def Let_def go_simps split: option.splits)

subsection \<open>Hashing and verifying\<close>

lemma HashPassword_returns:
  assumes "argon2_spec IDKey" and "16 \<le> length (rd_data rnd)"
  shows "\<exists>h. length h = 32 \<and> IDKey pw (take 16 (rd_data rnd)) 2 65536 1 32 = Ok h \<and>
    HashPassword IDKey pw rnd = (Ok (formatPHC (take 16 (rd_data rnd)) h), rnd\<lparr>rd_data := drop 16 (rd_data rnd)\<rparr>)"
proof -
  obtain h where "IDKey pw (take 16 (rd_data rnd)) 2 65536 1 32 = Ok h" "length h = unat (32 :: 32 word)"
    using argon2_specD(1) [OF assms(1), of 2 1 pw "take 16 (rd_data rnd)" 65536 32] by auto
  with assms(2) show ?thesis
    by (simp add: HashPassword_def argonSaltLen_def argonTimeCost_def argonMemoryKiB_def argonParallel_def
        argonKeyLen_def read_rand_enough)
qed

lemma VerifyPassword_formatPHC:
  assumes "salt \<noteq> []" and "length h = 32"
  shows "VerifyPassword IDKey pw (formatPHC salt h) =
    and_then (IDKey pw salt 2 65536 1 32) (\<lambda>computed. Ok (computed = h))"
proof -
  have "h \<noteq> []" using assms(2) by auto
  with assms show ?thesis
    by (cases "IDKey pw salt 2 65536 1 32")
      (simp_all add: VerifyPassword_def parsePHC_formatPHC default_params_def ConstantTimeCompare_iff)
qed

text \<open>Verification panics exactly on a well-formed hash with a zero time or parallelism parameter.\<close>

lemma VerifyPassword_panic_iff:
  assumes "argon2_spec IDKey"
  shows "VerifyPassword IDKey pw s = Panic \<longleftrightarrow>
    (\<exists>salt hash params. parsePHC s = Ok (salt, hash, params) \<and> (timeCost params = 0 \<or> parallel params = 0))"
  using parsePHC_no_panic [of s]
  by (cases "parsePHC s") (auto simp: VerifyPassword_def go_simps argon2_specD(2) [OF assms] split: if_splits)

lemma VerifyPassword_error:
  assumes "argon2_spec IDKey"
  shows "VerifyPassword IDKey pw s = Panic \<or> is_ok (VerifyPassword IDKey pw s) \<or>
    err_is (VerifyPassword IDKey pw s) ErrInvalidPasswordHash"
proof (cases "parsePHC s")
  case (Ok x)
  obtain salt hash params where x: "x = (salt, hash, params)" by (cases x) auto
  let ?r = "IDKey pw salt (timeCost params) (memoryKiB params) (parallel params) (word_of_nat (length hash))"
  have "?r = Panic \<or> is_ok ?r"
    using argon2_specD [OF assms] unfolding is_ok_iff by blast
  then show ?thesis by (cases ?r) (simp_all add: VerifyPassword_def Ok x)
next
  case (Err e)
  then show ?thesis using parsePHC_error [OF Err] by (simp add: VerifyPassword_def)
qed (use parsePHC_no_panic [of s] in simp)

definition zero_time_phc :: gostring where
  "zero_time_phc = lit ''$argon2id$v=19$m=65536,t=0,p=1$AAAA$AAAA''"

lemma parsePHC_zero_time: "\<exists>salt hash params. parsePHC zero_time_phc = Ok (salt, hash, params) \<and> timeCost params = 0"
proof -
  have phc: "zero_time_phc = [] @ 36 # argonAlgo @ 36 # (lit ''v='' @ decimal 19) @ 36 #
      (lit ''m='' @ decimal 65536 @ lit '',t='' @ decimal 0 @ lit '',p='' @ decimal 1) @ 36 #
      lit ''AAAA'' @ 36 # lit ''AAAA''"
    by (simp add: zero_time_phc_def argonAlgo_def lit_def decimal.simps digit_def)
  have parts: "strings_Split zero_time_phc 36 =
     [[], argonAlgo, lit ''v='' @ decimal 19,
      lit ''m='' @ decimal 65536 @ lit '',t='' @ decimal 0 @ lit '',p='' @ decimal 1, lit ''AAAA'', lit ''AAAA'']"
    unfolding phc
    by (subst strings_Split_append | subst strings_Split_single
      | simp add: decimal_ascii argonAlgo_def lit_def; fail)+
  have dec: "RawStdEncoding_DecodeString (lit ''AAAA'') = Some [0, 0, 0]"
    by (simp add: RawStdEncoding_DecodeString_def b64_decode_def b64_skip_def std_alphabet_def lit_def)
  show ?thesis
    using scan_version scan_params [of 65536 0 1]
    by (simp add: parsePHC_def parts Let_def argonVersionTag_def dec)
qed

text \<open>A key derivation with the documented behaviour of \<^verbatim>\<open>argon2.IDKey\<close>, to show the hypothesis can hold.\<close>

definition sample_IDKey :: idkey where
  "sample_IDKey pw salt t m p n =
     (if t = 0 \<or> p = 0 then Panic else Ok (map (\<lambda>i. hmac_sha256 salt pw ! (i mod 32)) [0..<unat n]))"

lemma sample_IDKey_spec: "argon2_spec sample_IDKey"
  by (simp add: argon2_spec_def sample_IDKey_def)

subsection \<open>Properties\<close>

text \<open>Property C23: hashing a password returns (it needs 16 random bytes), the PHC string verifies against that password,
  and against any other exactly when argon2id derives the same key from both.\<close>

theorem password_hash_verifies:
  assumes "argon2_spec IDKey" and "16 \<le> length (rd_data rnd)"
  shows "\<exists>s. HashPassword IDKey pw rnd = (Ok s, rnd\<lparr>rd_data := drop 16 (rd_data rnd)\<rparr>) \<and>
    VerifyPassword IDKey pw s = Ok True \<and>
    VerifyPassword IDKey pw' s = Ok (IDKey pw' (take 16 (rd_data rnd)) 2 65536 1 32 = IDKey pw (take 16 (rd_data rnd)) 2 65536 1 32)"
proof -
  let ?salt = "take 16 (rd_data rnd)"
  have salt: "?salt \<noteq> []" using assms(2) by auto
  obtain h where h: "length h = 32" "IDKey pw ?salt 2 65536 1 32 = Ok h"
      "HashPassword IDKey pw rnd = (Ok (formatPHC ?salt h), rnd\<lparr>rd_data := drop 16 (rd_data rnd)\<rparr>)"
    using HashPassword_returns [OF assms] by blast
  obtain h' where "IDKey pw' ?salt 2 65536 1 32 = Ok h'"
    using argon2_specD(1) [OF assms(1), of 2 1 pw' ?salt 65536 32] by auto
  with h show ?thesis by (simp add: VerifyPassword_formatPHC [OF salt h(1)])
qed

lemma password_hash_verifies_witness:
  "\<exists>s. HashPassword sample_IDKey (lit ''hunter2'') \<lparr>rd_data = replicate 16 3, rd_end = EOF\<rparr> =
       (Ok s, \<lparr>rd_data = [], rd_end = EOF\<rparr>) \<and> VerifyPassword sample_IDKey (lit ''hunter2'') s = Ok True"
  using password_hash_verifies [OF sample_IDKey_spec, of "\<lparr>rd_data = replicate 16 3, rd_end = EOF\<rparr>" "lit ''hunter2''"]
  by auto

text \<open>Parsing inverts formatting: every salt and hash that are not empty are read back from the PHC string,
  with the library's cost parameters.\<close>

lemma phc_roundtrip:
  "if salt = [] \<or> hash = []
   then err_is (parsePHC (formatPHC salt hash)) ErrInvalidPasswordHash
   else parsePHC (formatPHC salt hash) = Ok (salt, hash, \<lparr>memoryKiB = 65536, timeCost = 2, parallel = 1\<rparr>)"
  using parsePHC_formatPHC [of salt hash] parsePHC_formatPHC_empty [of salt hash]
  by (simp add: default_params_def)

text \<open>Property C24: every error of \<^verbatim>\<open>VerifyPassword\<close> is \<open>ErrInvalidPasswordHash\<close>, and it panics exactly for stored
  strings that parse but carry a zero time or parallelism parameter, which the parser lets through;
  such strings exist.\<close>

theorem verify_password_outcomes:
  assumes "argon2_spec IDKey"
  shows "(VerifyPassword IDKey pw s = Panic \<longleftrightarrow>
      (\<exists>salt hash params. parsePHC s = Ok (salt, hash, params) \<and> (timeCost params = 0 \<or> parallel params = 0))) \<and>
    (\<exists>s. VerifyPassword IDKey pw s = Panic) \<and>
    (VerifyPassword IDKey pw s = Panic \<or> is_ok (VerifyPassword IDKey pw s) \<or>
     err_is (VerifyPassword IDKey pw s) ErrInvalidPasswordHash)"
  using VerifyPassword_panic_iff [OF assms] parsePHC_zero_time VerifyPassword_error [OF assms, of pw s] by blast

lemma verify_password_outcomes_witness:
  "\<exists>s. VerifyPassword sample_IDKey [] s = Panic"
  using verify_password_outcomes [OF sample_IDKey_spec] by blast

end
