(* ===== verification/Bcrypt.thy ===== *)
theory Bcrypt
  imports Runtime
begin

text \<open>
  \<^verbatim>\<open>src/password_bcrypt.go\<close>: bcrypt hashes for migration. The two functions of
  \<^verbatim>\<open>golang.org/x/crypto/bcrypt\<close> are arguments: \<open>Generate\<close> (password, cost) and \<open>Compare\<close> (hash, password),
  which returns a nil error or one of the package's errors; \<open>bcrypt_spec\<close> states that \<open>Compare\<close> accepts a
  password against the hash \<open>Generate\<close> made of it.
\<close>

subsection \<open>Model\<close>

definition bcryptMaxInputLen :: nat where "bcryptMaxInputLen = 72"

definition DefaultBcryptCost :: int where "DefaultBcryptCost = 12"

definition bcrypt_MinCost :: int where "bcrypt_MinCost = 4"

definition bcrypt_MaxCost :: int where "bcrypt_MaxCost = 31"

definition ErrMismatchedHashAndPassword :: error where
  "ErrMismatchedHashAndPassword =
     Msg ''crypto/bcrypt: hashedPassword is not the hash of the given password''"

definition ErrHashTooShort :: error where
  "ErrHashTooShort = Msg ''crypto/bcrypt: hashedSecret too short to be a bcrypted password''"

definition HashPasswordBcrypt :: "(bytes \<Rightarrow> int \<Rightarrow> bytes res) \<Rightarrow> gostring \<Rightarrow> int \<Rightarrow> gostring res" where
  "HashPasswordBcrypt Generate plaintext cost =
     (if bcryptMaxInputLen < length plaintext
      then Err (Msg ''crypt: bcrypt input must be <= %d bytes; got %d (use HashPassword for longer)'')
      else if cost < bcrypt_MinCost \<or> bcrypt_MaxCost < cost
      then Err (Msg ''crypt: bcrypt cost must be in [%d, %d]; got %d'')
      else or_err (Wrap ''crypt: bcrypt: %w'') (Generate plaintext cost))"

definition VerifyPasswordBcrypt :: "(bytes \<Rightarrow> bytes \<Rightarrow> error option) \<Rightarrow> gostring \<Rightarrow> gostring \<Rightarrow> bool res" where
  "VerifyPasswordBcrypt Compare plaintext hash =
     (case Compare hash plaintext of
        None \<Rightarrow> Ok True
      | Some err \<Rightarrow>
          if errors_Is err ErrMismatchedHashAndPassword then Ok False
          else if errors_Is err ErrHashTooShort \<or> errors_Is err ErrMismatchedHashAndPassword
          then Err (Wrap ''%w: %v'' ErrInvalidPasswordHash)
          else Err (Wrap ''%w: %v'' ErrInvalidPasswordHash))"

definition bcrypt_spec ::
    "(bytes \<Rightarrow> int \<Rightarrow> bytes res) \<Rightarrow> (bytes \<Rightarrow> bytes \<Rightarrow> error option) \<Rightarrow> bool" where
  "bcrypt_spec Generate Compare \<longleftrightarrow>
     (\<forall>pw cost h. Generate pw cost = Ok h \<longrightarrow> Compare h pw = None) \<and>
     (\<forall>pw cost. length pw \<le> 72 \<and> 4 \<le> cost \<and> cost \<le> 31 \<longrightarrow> is_ok (Generate pw cost))"

text \<open>A pair of functions with that behaviour, to show the hypothesis can hold.\<close>

definition sample_Generate :: "bytes \<Rightarrow> int \<Rightarrow> bytes res" where
  "sample_Generate pw cost = Ok (lit ''$2a$'' @ pw)"

definition sample_Compare :: "bytes \<Rightarrow> bytes \<Rightarrow> error option" where
  "sample_Compare h pw =
     (if length h < 4 then Some ErrHashTooShort
      else if h = lit ''$2a$'' @ pw then None else Some ErrMismatchedHashAndPassword)"

lemma sample_bcrypt_spec: "bcrypt_spec sample_Generate sample_Compare"
  by (simp add: bcrypt_spec_def sample_Generate_def sample_Compare_def lit_def)

lemma HashPasswordBcrypt_Ok:
  "HashPasswordBcrypt Generate pw cost = Ok h \<longleftrightarrow>
     length pw \<le> 72 \<and> 4 \<le> cost \<and> cost \<le> 31 \<and> Generate pw cost = Ok h"
  by (auto simp: HashPasswordBcrypt_def bcryptMaxInputLen_def bcrypt_MinCost_def bcrypt_MaxCost_def or_err_eq_Ok)

lemma VerifyPasswordBcrypt_table:
  "VerifyPasswordBcrypt Compare pw h =
     (if Compare h pw = None then Ok True
      else if errors_Is (the (Compare h pw)) ErrMismatchedHashAndPassword then Ok False
      else Err (Wrap ''%w: %v'' ErrInvalidPasswordHash))"
  by (auto simp: VerifyPasswordBcrypt_def split: option.split)

subsection \<open>Properties\<close>

text \<open>With a bcrypt that accepts what it generates, hashing succeeds exactly for passwords of at most 72
  bytes at a cost from 4 to 31, where bcrypt would truncate longer ones silently, and the hash
  verifies against its password; a comparison that fails yields \<open>false\<close> for a mismatch and
  \<open>ErrInvalidPasswordHash\<close> for every other error.\<close>

lemma bcrypt_hash_verifies:
  assumes "bcrypt_spec Generate Compare"
  shows "(is_ok (HashPasswordBcrypt Generate pw cost) \<longleftrightarrow> length pw \<le> 72 \<and> 4 \<le> cost \<and> cost \<le> 31) \<and>
    (HashPasswordBcrypt Generate pw cost = Ok h \<longrightarrow> VerifyPasswordBcrypt Compare pw h = Ok True) \<and>
    (err_is (VerifyPasswordBcrypt Compare pw h') ErrInvalidPasswordHash \<longleftrightarrow>
      \<not> is_ok (VerifyPasswordBcrypt Compare pw h'))"
  using assms
  by (auto simp: is_ok_iff HashPasswordBcrypt_Ok VerifyPasswordBcrypt_table bcrypt_spec_def)

end
