(* ===== verification/Hkdf.thy ===== *)
theory Hkdf
  imports Runtime
begin

text \<open>
  \<^verbatim>\<open>src/hkdf.go\<close>: key derivation. \<^verbatim>\<open>hkdf.New(sha256.New, secret, salt, info)\<close> of \<^verbatim>\<open>golang.org/x/crypto/hkdf\<close> is the
  argument \<open>hkdf_New\<close>, which gives a reader; \<open>hkdf_spec\<close> is RFC 5869's limit on it: 255 blocks of 32 bytes
  can be read, then it fails.
\<close>

definition DeriveKey ::
    "(bytes \<Rightarrow> bytes \<Rightarrow> bytes \<Rightarrow> reader) \<Rightarrow> bytes \<Rightarrow> bytes \<Rightarrow> bytes \<Rightarrow> int \<Rightarrow> bytes res" where
  "DeriveKey hkdf_New masterKey salt info len =
     (if len \<le> 0 then Err (Msg ''crypt: DeriveKey length must be positive; got %d'')
      else if length masterKey = 0 then Err (Msg ''crypt: DeriveKey masterKey must be non-empty'')
      else
        (case ReadFull (nat len) (hkdf_New masterKey salt info) of
           ((out, None), r) \<Rightarrow> Ok out
         | ((out, Some err), r) \<Rightarrow> Err (Wrap ''crypt: hkdf: %w'' err)))"

definition hkdf_spec :: "(bytes \<Rightarrow> bytes \<Rightarrow> bytes \<Rightarrow> reader) \<Rightarrow> bool" where
  "hkdf_spec hkdf_New \<longleftrightarrow> (\<forall>secret salt info. length (rd_data (hkdf_New secret salt info)) = 255 * 32)"

definition sample_hkdf :: "bytes \<Rightarrow> bytes \<Rightarrow> bytes \<Rightarrow> reader" where
  "sample_hkdf secret salt info =
     \<lparr>rd_data = map (\<lambda>i. word_of_nat i) [0..<255 * 32], rd_end = Msg ''hkdf: entropy limit reached''\<rparr>"

lemma sample_hkdf_spec: "hkdf_spec sample_hkdf"
  by (simp add: hkdf_spec_def sample_hkdf_def)

lemma DeriveKey_Ok_iff:
  "DeriveKey hkdf_New key salt info len = Ok out \<longleftrightarrow>
     0 < len \<and> key \<noteq> [] \<and> nat len \<le> length (rd_data (hkdf_New key salt info)) \<and>
     out = take (nat len) (rd_data (hkdf_New key salt info))"
  by (auto simp: DeriveKey_def ReadFull_def)

subsection \<open>Lengths and prefixes\<close>

text \<open>A key is derived exactly for lengths from 1 to 8160 and a non-empty master key; it has the length
  asked for, and the key of a smaller length is its beginning, so keys of different lengths from the
  same inputs are not independent.\<close>

lemma derive_key_lengths:
  assumes "hkdf_spec hkdf_New"
  shows "(is_ok (DeriveKey hkdf_New key salt info n) \<longleftrightarrow> 0 < n \<and> n \<le> 8160 \<and> key \<noteq> []) \<and>
    (DeriveKey hkdf_New key salt info n = Ok out \<longrightarrow> length out = nat n \<and>
      (0 < m \<and> m \<le> n \<longrightarrow> DeriveKey hkdf_New key salt info m = Ok (take (nat m) out)))"
proof -
  have "length (rd_data (hkdf_New key salt info)) = 8160" using assms by (simp add: hkdf_spec_def)
  then show ?thesis unfolding is_ok_iff DeriveKey_Ok_iff by (auto simp: nat_le_iff min_absorb1)
qed

lemma derive_key_lengths_witness:
  "is_ok (DeriveKey sample_hkdf [1] [] [] 8160) \<and> \<not> is_ok (DeriveKey sample_hkdf [1] [] [] 8161)"
  using conjunct1 [OF derive_key_lengths [OF sample_hkdf_spec, of "[1]" "[]" "[]" 8160]]
    conjunct1 [OF derive_key_lengths [OF sample_hkdf_spec, of "[1]" "[]" "[]" 8161]] by simp

end
