(* ===== verification/Ed25519.thy ===== *)
theory Ed25519
  imports RandomSource
begin

text \<open>
  \<^verbatim>\<open>src/ed25519.go\<close>: the shape checks around \<^verbatim>\<open>crypto/ed25519\<close>. The scheme is the argument \<open>S\<close>, a record of
  its three functions; \<open>ed25519_spec\<close> states the sizes of its outputs and that its signatures verify.
\<close>

subsection \<open>Model\<close>

record ed25519_scheme =
  ed_GenerateKey :: "reader \<Rightarrow> (bytes \<times> bytes) res \<times> reader"
  ed_Sign :: "bytes \<Rightarrow> bytes \<Rightarrow> bytes"
  ed_Verify :: "bytes \<Rightarrow> bytes \<Rightarrow> bytes \<Rightarrow> bool"

definition Ed25519PublicKeySize :: nat where "Ed25519PublicKeySize = 32"

definition Ed25519PrivateKeySize :: nat where "Ed25519PrivateKeySize = 64"

definition Ed25519SignatureSize :: nat where "Ed25519SignatureSize = 64"

definition GenerateEd25519 :: "ed25519_scheme \<Rightarrow> reader \<Rightarrow> (bytes \<times> bytes) res \<times> reader" where
  "GenerateEd25519 S rnd =
     (case ed_GenerateKey S rnd of
        (Ok (pub, priv), rnd) \<Rightarrow> (Ok (pub, priv), rnd)
      | (Err e, rnd) \<Rightarrow> (Err (Wrap ''crypt: ed25519 keygen: %w'' e), rnd)
      | (Panic, rnd) \<Rightarrow> (Panic, rnd))"

definition SignEd25519 :: "ed25519_scheme \<Rightarrow> bytes \<Rightarrow> bytes \<Rightarrow> bytes res" where
  "SignEd25519 S priv data =
     (if length priv \<noteq> Ed25519PrivateKeySize
      then Err (Wrap ''%w: ed25519 private key must be %d bytes; got %d'' ErrInvalidKey)
      else Ok (ed_Sign S priv data))"

definition VerifyEd25519 :: "ed25519_scheme \<Rightarrow> bytes \<Rightarrow> bytes \<Rightarrow> bytes \<Rightarrow> bool res" where
  "VerifyEd25519 S pub data sig =
     (if length pub \<noteq> Ed25519PublicKeySize
      then Err (Wrap ''%w: ed25519 public key must be %d bytes; got %d'' ErrInvalidKey)
      else if length sig \<noteq> Ed25519SignatureSize
      then Err (Wrap ''%w: ed25519 signature must be %d bytes; got %d'' ErrInvalidSignature)
      else Ok (ed_Verify S pub data sig))"

definition ed25519_spec :: "ed25519_scheme \<Rightarrow> bool" where
  "ed25519_spec S \<longleftrightarrow>
     (\<forall>rnd pub priv rnd'. ed_GenerateKey S rnd = (Ok (pub, priv), rnd') \<longrightarrow>
        length pub = 32 \<and> length priv = 64 \<and>
        (\<forall>data. length (ed_Sign S priv data) = 64 \<and> ed_Verify S pub data (ed_Sign S priv data)))"

text \<open>A scheme with that behaviour (and no security), to show the hypothesis can hold.\<close>

definition sample_scheme :: ed25519_scheme where
  "sample_scheme = \<lparr>
     ed_GenerateKey = (\<lambda>rnd. case read_rand (\<lambda>e. e) 32 rnd of
        (Ok s, rnd) \<Rightarrow> (Ok (s, s @ s), rnd) | (Err e, rnd) \<Rightarrow> (Err e, rnd) | (Panic, rnd) \<Rightarrow> (Panic, rnd)),
     ed_Sign = (\<lambda>priv data. take 64 (take 32 priv @ data @ replicate 64 0)),
     ed_Verify = (\<lambda>pub data sig. sig = take 64 (pub @ data @ replicate 64 0))\<rparr>"

lemma sample_scheme_spec: "ed25519_spec sample_scheme"
  by (auto simp: ed25519_spec_def sample_scheme_def read_rand_Ok split: prod.splits res.splits)

lemma GenerateEd25519_Ok:
  "GenerateEd25519 S rnd = (Ok (pub, priv), rnd') \<longleftrightarrow> ed_GenerateKey S rnd = (Ok (pub, priv), rnd')"
  by (auto simp: GenerateEd25519_def split: prod.splits res.splits)

subsection \<open>Properties\<close>

text \<open>A generated key pair signs every message with a 64-byte signature that verifies under the public key;
  keys and signatures of any other size are reported as \<open>ErrInvalidKey\<close> or \<open>ErrInvalidSignature\<close>
  and never reach the scheme, where they would panic.\<close>

lemma ed25519_sign_verify:
  assumes "ed25519_spec S" and "GenerateEd25519 S rnd = (Ok (pub, priv), rnd')"
  shows "(\<exists>sig. SignEd25519 S priv data = Ok sig \<and> length sig = 64 \<and> VerifyEd25519 S pub data sig = Ok True) \<and>
    (err_is (SignEd25519 S k data) ErrInvalidKey \<longleftrightarrow> length k \<noteq> 64) \<and>
    (err_is (VerifyEd25519 S k data s) ErrInvalidKey \<longleftrightarrow> length k \<noteq> 32) \<and>
    (err_is (VerifyEd25519 S k data s) ErrInvalidSignature \<longleftrightarrow> length k = 32 \<and> length s \<noteq> 64)"
proof -
  have "length pub = 32" "length priv = 64" "length (ed_Sign S priv data) = 64"
    "ed_Verify S pub data (ed_Sign S priv data)"
    using assms unfolding ed25519_spec_def GenerateEd25519_Ok by blast+
  then show ?thesis
    by (simp add: SignEd25519_def VerifyEd25519_def Ed25519PrivateKeySize_def Ed25519PublicKeySize_def
        Ed25519SignatureSize_def)
qed

end
