(* ===== verification/Asymmetric.thy ===== *)
theory Asymmetric
  imports AeadChaCha20
begin

text \<open>
  \<^verbatim>\<open>src/asymmetric.go\<close>: sealed boxes. \<^verbatim>\<open>curve25519.X25519\<close> and its base point are the arguments \<open>X25519\<close>
  and \<open>Basepoint\<close>, the ChaCha20-Poly1305 constructor is \<open>chacha_New\<close>; none is in the repository.
  \<open>x25519_spec\<close> states the Diffie-Hellman equation for keys made from the base point, the size of a
  shared secret, and that the function reports errors instead of panicking.
\<close>

subsection \<open>Model\<close>

type_synonym x25519 = "bytes \<Rightarrow> bytes \<Rightarrow> bytes res"

definition X25519KeySize :: nat where "X25519KeySize = 32"

definition versionAsymmetricV1 :: byte where "versionAsymmetricV1 = 0x05"

text \<open>The public and the private key.\<close>

definition GenerateKeyPair :: "x25519 \<Rightarrow> bytes \<Rightarrow> reader \<Rightarrow> (bytes \<times> bytes) res \<times> reader" where
  "GenerateKeyPair X25519 Basepoint rnd =
     (case read_rand (Wrap ''crypt: x25519 keygen: %w'') X25519KeySize rnd of
        (Ok priv, rnd) \<Rightarrow>
          (and_then (or_err (Wrap ''crypt: x25519 derive public: %w'') (X25519 priv Basepoint))
             (\<lambda>pub. Ok (pub, priv)), rnd)
      | (Err e, rnd) \<Rightarrow> (Err e, rnd)
      | (Panic, rnd) \<Rightarrow> (Panic, rnd))"

definition SealAsymmetric ::
    "x25519 \<Rightarrow> bytes \<Rightarrow> (bytes \<Rightarrow> AEAD res) \<Rightarrow> bytes \<Rightarrow> bytes \<Rightarrow> reader \<Rightarrow> gostring res \<times> reader" where
  "SealAsymmetric X25519 Basepoint chacha_New recipientPublicKey plaintext rnd =
     (if length recipientPublicKey \<noteq> X25519KeySize
      then (Err (Wrap ''%w: recipient public key must be %d bytes; got %d'' ErrInvalidKey), rnd)
      else
        case GenerateKeyPair X25519 Basepoint rnd of
          (Err e, rnd) \<Rightarrow> (Err e, rnd)
        | (Panic, rnd) \<Rightarrow> (Panic, rnd)
        | (Ok (ephPub, ephPriv), rnd) \<Rightarrow>
            (case or_err (Wrap ''crypt: x25519 ecdh: %w'') (X25519 ephPriv recipientPublicKey) of
               Err e \<Rightarrow> (Err e, rnd)
             | Panic \<Rightarrow> (Panic, rnd)
             | Ok shared \<Rightarrow>
                 (case or_err (Wrap ''crypt: chacha20poly1305: %w'') (chacha_New shared) of
                    Err e \<Rightarrow> (Err e, rnd)
                  | Panic \<Rightarrow> (Panic, rnd)
                  | Ok c \<Rightarrow>
                      then_do (read_rand (Wrap ''crypt: random nonce: %w'') aeadNonceSize rnd) (\<lambda>nonce rnd.
                      then_do (aead_Seal c nonce plaintext ephPub, rnd) (\<lambda>ct rnd.
                        (Ok (RawURLEncoding_EncodeToString
                          ([versionAsymmetricV1] @ ephPub @ nonce @ ct)), rnd))))))"

definition OpenAsymmetric ::
    "x25519 \<Rightarrow> (bytes \<Rightarrow> AEAD res) \<Rightarrow> bytes \<Rightarrow> gostring \<Rightarrow> bytes res" where
  "OpenAsymmetric X25519 chacha_New recipientPrivateKey ciphertext =
     (if length recipientPrivateKey \<noteq> X25519KeySize
      then Err (Wrap ''%w: recipient private key must be %d bytes; got %d'' ErrInvalidKey)
      else
        and_then (of_option (Wrap ''%w: %v'' ErrInvalidCiphertext)
                   (RawURLEncoding_DecodeString ciphertext)) (\<lambda>raw.
        if length raw < 1 + X25519KeySize + aeadNonceSize + aeadTagSize then Err ErrCiphertextTooShort
        else
          and_then (go_index raw 0) (\<lambda>v.
          if v \<noteq> versionAsymmetricV1 then Err (Wrap ''%w: 0x%02x'' ErrUnsupportedVersion)
          else
            and_then (go_slice raw 1 (1 + X25519KeySize)) (\<lambda>ephPub.
            and_then (go_slice raw (1 + X25519KeySize) (1 + X25519KeySize + aeadNonceSize)) (\<lambda>nonce.
            and_then (go_slice_from raw (1 + X25519KeySize + aeadNonceSize)) (\<lambda>body.
            and_then (or_err (Wrap ''crypt: x25519 ecdh: %w'') (X25519 recipientPrivateKey ephPub)) (\<lambda>shared.
            and_then (or_err (Wrap ''crypt: chacha20poly1305: %w'') (chacha_New shared)) (\<lambda>c.
              or_err (\<lambda>e. Wrap ''%w: %v'' ErrTampered) (aead_Open c nonce body ephPub)))))))))"

definition x25519_spec :: "x25519 \<Rightarrow> bytes \<Rightarrow> bool" where
  "x25519_spec X25519 Basepoint \<longleftrightarrow>
     (\<forall>a P. X25519 a P \<noteq> Panic) \<and>
     (\<forall>a P s. X25519 a P = Ok s \<longrightarrow> length s = 32) \<and>
     (\<forall>a. length a = 32 \<longrightarrow> is_ok (X25519 a Basepoint)) \<and>
     (\<forall>a b A B. length a = 32 \<and> length b = 32 \<and> X25519 a Basepoint = Ok A \<and> X25519 b Basepoint = Ok B \<longrightarrow>
        X25519 a B = X25519 b A)"

subsection \<open>The frame\<close>

definition box_frame :: "bytes \<Rightarrow> bytes \<Rightarrow> bytes \<Rightarrow> bytes" where
  "box_frame ephPub nonce body = versionAsymmetricV1 # ephPub @ nonce @ body"

definition box_open :: "x25519 \<Rightarrow> (bytes \<Rightarrow> AEAD res) \<Rightarrow> bytes \<Rightarrow> bytes \<Rightarrow> bytes \<Rightarrow> bytes \<Rightarrow> bytes res" where
  "box_open X25519 chacha_New priv ephPub nonce body =
     and_then (or_err (Wrap ''crypt: x25519 ecdh: %w'') (X25519 priv ephPub)) (\<lambda>shared.
     and_then (or_err (Wrap ''crypt: chacha20poly1305: %w'') (chacha_New shared)) (\<lambda>c.
       or_err (\<lambda>e. Wrap ''%w: %v'' ErrTampered) (aead_Open c nonce body ephPub)))"

lemma OpenAsymmetric_spec:
  assumes "length priv = 32"
  shows "OpenAsymmetric X25519 chacha_New priv s =
    (case RawURLEncoding_DecodeString s of
       None \<Rightarrow> Err (Wrap ''%w: %v'' ErrInvalidCiphertext)
     | Some raw \<Rightarrow>
         if length raw < 61 then Err ErrCiphertextTooShort
         else if hd raw \<noteq> versionAsymmetricV1 then Err (Wrap ''%w: 0x%02x'' ErrUnsupportedVersion)
         else box_open X25519 chacha_New priv (take 32 (tl raw)) (take 12 (drop 33 raw)) (drop 45 raw))"
proof (cases "RawURLEncoding_DecodeString s")
  case (Some raw)
  show ?thesis
  proof (cases "length raw < 61")
    case False
    then obtain v rest where raw: "raw = v # rest" "60 \<le> length rest" by (cases raw) auto
    then show ?thesis
      using assms Some
      by (simp add: OpenAsymmetric_def box_open_def X25519KeySize_def format_defs go_index_def go_slice_def
          go_slice_from_def drop_Cons')
  qed (use assms Some in \<open>simp add: OpenAsymmetric_def X25519KeySize_def format_defs\<close>)
qed (use assms in \<open>simp add: OpenAsymmetric_def X25519KeySize_def\<close>)

lemma box_frame_parts:
  assumes "length raw = n" and "45 \<le> n" and "hd raw = versionAsymmetricV1"
  shows "raw = box_frame (take 32 (tl raw)) (take 12 (drop 33 raw)) (drop 45 raw)"
proof -
  obtain rest where raw: "raw = versionAsymmetricV1 # rest" using assms by (cases raw) auto
  have "take 12 (drop 32 rest) @ drop 44 rest = drop 32 rest"
    using append_take_drop_id [of 12 "drop 32 rest"] by simp
  then have "rest = take 32 rest @ take 12 (drop 32 rest) @ drop 44 rest" by simp
  then show ?thesis by (simp add: raw box_frame_def)
qed

subsection \<open>Sealing and opening, over any cipher that meets the contract for 32-byte keys\<close>

context aead_new
begin

lemma box_open_iff:
  assumes "\<And>k. length k = 32 \<Longrightarrow> ok k" and "x25519_spec X25519 Basepoint" and "length nonce = 12"
  shows "box_open X25519 new priv ephPub nonce body = Ok p \<longleftrightarrow>
    (\<exists>shared. X25519 priv ephPub = Ok shared \<and> aead_Seal (mk shared) nonce p ephPub = Ok body)"
proof -
  have "length shared = 32" if "X25519 priv ephPub = Ok shared" for shared
    using assms(2) that unfolding x25519_spec_def by blast
  then show ?thesis
    using assms(1,3) by (auto simp: box_open_def go_simps new_Ok open_iff)
qed

lemma OpenAsymmetric_iff:
  assumes "\<And>k. length k = 32 \<Longrightarrow> ok k" and "x25519_spec X25519 Basepoint" and "length priv = 32"
  shows "OpenAsymmetric X25519 new priv s = Ok p \<longleftrightarrow>
    (\<exists>ephPub nonce body shared. RawURLEncoding_DecodeString s = Some (box_frame ephPub nonce body) \<and>
       length ephPub = 32 \<and> length nonce = 12 \<and> X25519 priv ephPub = Ok shared \<and>
       aead_Seal (mk shared) nonce p ephPub = Ok body)" (is "?l \<longleftrightarrow> ?r")
proof
  assume ?l
  then obtain raw where raw: "RawURLEncoding_DecodeString s = Some raw" "61 \<le> length raw"
      "hd raw = versionAsymmetricV1"
      "box_open X25519 new priv (take 32 (tl raw)) (take 12 (drop 33 raw)) (drop 45 raw) = Ok p"
    by (auto simp: OpenAsymmetric_spec [OF assms(3)] split: option.splits if_splits)
  have "length (take 12 (drop 33 raw)) = 12" "length (take 32 (tl raw)) = 32" using raw(2) by simp_all
  moreover from this obtain shared where "X25519 priv (take 32 (tl raw)) = Ok shared"
      "aead_Seal (mk shared) (take 12 (drop 33 raw)) p (take 32 (tl raw)) = Ok (drop 45 raw)"
    using raw(4) box_open_iff [OF assms(1,2)] by blast
  moreover have "raw = box_frame (take 32 (tl raw)) (take 12 (drop 33 raw)) (drop 45 raw)"
    using raw(2,3) by (intro box_frame_parts [of _ "length raw"]) auto
  ultimately show ?r using raw(1) by metis
next
  assume ?r
  then obtain ephPub nonce body shared where b: "RawURLEncoding_DecodeString s = Some (box_frame ephPub nonce body)"
      "length ephPub = 32" "length nonce = 12" "X25519 priv ephPub = Ok shared"
      "aead_Seal (mk shared) nonce p ephPub = Ok body"
    by blast
  have "length shared = 32" using assms(2) b(4) unfolding x25519_spec_def by blast
  then have "length body = length p + 16" using seal_length [OF assms(1) b(5)] by simp
  with b box_open_iff [OF assms(1,2) b(3), of priv ephPub body p] show ?l
    by (simp add: OpenAsymmetric_spec [OF assms(3)] box_frame_def drop_Cons')
qed

lemma OpenAsymmetric_no_panic:
  assumes "\<And>k. length k = 32 \<Longrightarrow> ok k" and "x25519_spec X25519 Basepoint"
  shows "OpenAsymmetric X25519 new priv s \<noteq> Panic"
proof (cases "length priv = 32")
  case True
  have len: "length shared = 32" if "X25519 a P = Ok shared" for a P shared
    using assms(2) that unfolding x25519_spec_def by blast
  have np: "X25519 a P \<noteq> Panic" for a P using assms(2) unfolding x25519_spec_def by blast
  have "box_open X25519 new priv e n b \<noteq> Panic" if "length n = 12" for e n b
    using that len np assms(1) by (auto simp: box_open_def go_simps new_Ok open_no_panic)
  then show ?thesis by (auto simp: OpenAsymmetric_spec [OF True] split: option.split)
qed (simp add: OpenAsymmetric_def X25519KeySize_def)

lemma SealAsymmetric_returns:
  assumes "\<And>k. length k = 32 \<Longrightarrow> ok k" and "x25519_spec X25519 Basepoint" and "length pub = 32"
    and "44 \<le> length (rd_data rnd)" and "length p \<le> maxlen"
    and "X25519 (take 32 (rd_data rnd)) Basepoint = Ok ephPub" and "X25519 (take 32 (rd_data rnd)) pub = Ok shared"
  shows "\<exists>ct. aead_Seal (mk shared) (take 12 (drop 32 (rd_data rnd))) p ephPub = Ok ct \<and>
    length ct = length p + 16 \<and>
    SealAsymmetric X25519 Basepoint new pub p rnd =
      (Ok (RawURLEncoding_EncodeToString (box_frame ephPub (take 12 (drop 32 (rd_data rnd))) ct)),
       rnd\<lparr>rd_data := drop 44 (rd_data rnd)\<rparr>)"
proof -
  have k: "ok shared" using assms(1,2,7) unfolding x25519_spec_def by blast
  have n: "length (take 12 (drop 32 (rd_data rnd))) = 12" using assms(4) by simp
  obtain ct where ct: "aead_Seal (mk shared) (take 12 (drop 32 (rd_data rnd))) p ephPub = Ok ct"
    using seal_Ok [OF k n assms(5)] by blast
  moreover have "GenerateKeyPair X25519 Basepoint rnd =
      (Ok (ephPub, take 32 (rd_data rnd)), rnd\<lparr>rd_data := drop 32 (rd_data rnd)\<rparr>)"
    using assms(4,6) by (simp add: GenerateKeyPair_def X25519KeySize_def read_rand_enough)
  ultimately show ?thesis
    using assms(3,4,7) seal_length [OF k ct]
    by (simp add: SealAsymmetric_def X25519KeySize_def new_Ok [OF k] aeadNonceSize_def read_rand_enough box_frame_def)
qed

end

lemma asymmetric_Seal_Open:
  assumes "aead_new mk (\<lambda>k. length k = 32) maxlen chacha_New" and "x25519_spec X25519 Basepoint"
    and "length priv = 32" and "X25519 priv Basepoint = Ok pub" and "44 \<le> length (rd_data rnd)"
    and "length p \<le> maxlen" and "is_ok (X25519 (take 32 (rd_data rnd)) pub)"
  shows "\<exists>c. SealAsymmetric X25519 Basepoint chacha_New pub p rnd = (Ok c, rnd\<lparr>rd_data := drop 44 (rd_data rnd)\<rparr>) \<and>
    OpenAsymmetric X25519 chacha_New priv c = Ok p \<and> length c = ((61 + length p) * 4 + 2) div 3"
proof -
  let ?eph = "take 32 (rd_data rnd)" and ?nonce = "take 12 (drop 32 (rd_data rnd))"
  have len: "length ?eph = 32" "length ?nonce = 12" using assms(5) by simp_all
  obtain ephPub shared where eph: "X25519 ?eph Basepoint = Ok ephPub" "X25519 ?eph pub = Ok shared"
    using assms(2,7) len(1) unfolding x25519_spec_def is_ok_iff by blast
  have sizes: "length pub = 32" "length ephPub = 32"
    using assms(2,4) eph(1) unfolding x25519_spec_def by blast+
  have dh: "X25519 priv ephPub = Ok shared"
    using assms(2,3,4) len(1) eph unfolding x25519_spec_def by metis
  obtain ct where ct: "aead_Seal (mk shared) ?nonce p ephPub = Ok ct" "length ct = length p + 16"
      "SealAsymmetric X25519 Basepoint chacha_New pub p rnd =
        (Ok (RawURLEncoding_EncodeToString (box_frame ephPub ?nonce ct)), rnd\<lparr>rd_data := drop 44 (rd_data rnd)\<rparr>)"
    using aead_new.SealAsymmetric_returns [OF assms(1) _ assms(2) sizes(1) assms(5,6) eph] by auto
  have "OpenAsymmetric X25519 chacha_New priv (RawURLEncoding_EncodeToString (box_frame ephPub ?nonce ct)) = Ok p"
    unfolding aead_new.OpenAsymmetric_iff [OF assms(1) _ assms(2,3), simplified] b64url.dec_enc
    using sizes(2) len(2) dh ct(1) by blast
  moreover have "length (box_frame ephPub ?nonce ct) = 61 + length p"
    using sizes(2) len(2) ct(2) by (simp add: box_frame_def)
  ultimately show ?thesis using ct(3) by (simp add: length_url_encode)
qed

text \<open>A function with the Diffie-Hellman equation (and no security), to show the hypothesis can hold.\<close>

definition sample_X25519 :: x25519 where
  "sample_X25519 a P = (if length a = 32 \<and> length P = 32 then Ok (xor_bytes a P) else Err (Msg ''bad length''))"

lemma sample_X25519_spec: "x25519_spec sample_X25519 (replicate 32 9)"
proof -
  have "xor_bytes a (xor_bytes b c) = xor_bytes b (xor_bytes a c)" for a b c :: bytes
    unfolding xor_bytes_def by (rule nth_equalityI) (auto simp: ac_simps)
  then show ?thesis by (auto simp: x25519_spec_def sample_X25519_def split: if_splits)
qed

subsection \<open>Properties\<close>

text \<open>Property C20: with X25519 and a cipher that keep their contracts, sealing to the public key of a private key
  succeeds whenever the ephemeral exchange does (it consumes 44 random bytes), has the stated length,
  and opening with the private key gives the plaintext back.\<close>

theorem asymmetric_roundtrip:
  assumes "aead_new mk (\<lambda>k. length k = 32) maxlen chacha_New" and "x25519_spec X25519 Basepoint"
    and "length priv = 32" and "X25519 priv Basepoint = Ok pub" and "44 \<le> length (rd_data rnd)"
    and "length p \<le> maxlen" and "is_ok (X25519 (take 32 (rd_data rnd)) pub)"
  shows "\<exists>c. SealAsymmetric X25519 Basepoint chacha_New pub p rnd = (Ok c, rnd\<lparr>rd_data := drop 44 (rd_data rnd)\<rparr>) \<and>
    OpenAsymmetric X25519 chacha_New priv c = Ok p \<and> length c = ((61 + length p) * 4 + 2) div 3"
  by (rule asymmetric_Seal_Open [OF assms])

lemma asymmetric_roundtrip_witness:
  "\<exists>c. SealAsymmetric sample_X25519 (replicate 32 9) aes_gcm_New (replicate 32 8) [1, 2]
       \<lparr>rd_data = replicate 44 4, rd_end = EOF\<rparr> = (Ok c, \<lparr>rd_data = [], rd_end = EOF\<rparr>) \<and>
     OpenAsymmetric sample_X25519 aes_gcm_New (replicate 32 1) c = Ok [1, 2] \<and> length c = 84"
proof -
  have pub: "sample_X25519 (replicate 32 1) (replicate 32 9) = Ok (replicate 32 8)"
    by (simp add: sample_X25519_def xor_bytes_def)
  have "is_ok (sample_X25519 (take 32 (replicate 44 4)) (replicate 32 8))" by (simp add: sample_X25519_def)
  then show ?thesis
    using asymmetric_roundtrip [OF aes_gcm.aead_new_axioms sample_X25519_spec _ pub,
        of "\<lparr>rd_data = replicate 44 4, rd_end = EOF\<rparr>" "[1, 2]"]
    by (simp add: gcm_max_def)
qed

text \<open>Property C21: \<^verbatim>\<open>OpenAsymmetric\<close> returns a plaintext exactly for a frame whose body is the sealing of that plaintext
  under the shared secret of the private key and the frame's ephemeral key, with this ephemeral key as
  associated data; the secret itself is the cipher key. It panics on no input.\<close>

theorem asymmetric_accepts_exactly:
  assumes "aead_new mk (\<lambda>k. length k = 32) maxlen chacha_New" and "x25519_spec X25519 Basepoint"
    and "length priv = 32"
  shows "(OpenAsymmetric X25519 chacha_New priv s = Ok p \<longleftrightarrow>
      (\<exists>ephPub nonce body shared. RawURLEncoding_DecodeString s = Some (0x05 # ephPub @ nonce @ body) \<and>
         length ephPub = 32 \<and> length nonce = 12 \<and> X25519 priv ephPub = Ok shared \<and>
         aead_Seal (mk shared) nonce p ephPub = Ok body)) \<and>
    OpenAsymmetric X25519 chacha_New priv s \<noteq> Panic"
  using aead_new.OpenAsymmetric_iff [OF assms(1) _ assms(2,3)] aead_new.OpenAsymmetric_no_panic [OF assms(1) _ assms(2)]
  by (simp add: box_frame_def versionAsymmetricV1_def)

lemma asymmetric_accepts_exactly_witness:
  "OpenAsymmetric sample_X25519 aes_gcm_New (replicate 32 1) [] \<noteq> Panic"
  using asymmetric_accepts_exactly [OF aes_gcm.aead_new_axioms sample_X25519_spec, of "replicate 32 1" "[]"] by simp

end
