(* ===== verification/Evaluation.thy ===== *)
theory Evaluation
  imports Sign Aead
begin

unbundle bit_operations_syntax

text \<open>
  Rules with which the simplifier evaluates the ciphers and the hash on concrete bytes, used for the
  known-answer vectors. Literals stay reduced: the S-box and the doubling of the field are tables of
  equations, shifts and rotations of words and the field of GHASH are computed on integers below the word size.
\<close>

subsection \<open>AES\<close>

definition all_bytes :: bytes where
  "all_bytes =
    [0, 1, 0x02, 0x03, 0x04, 0x05, 0x06, 0x07, 0x08, 0x09, 0x0a, 0x0b, 0x0c, 0x0d, 0x0e, 0x0f,
     0x10, 0x11, 0x12, 0x13, 0x14, 0x15, 0x16, 0x17, 0x18, 0x19, 0x1a, 0x1b, 0x1c, 0x1d, 0x1e, 0x1f,
     0x20, 0x21, 0x22, 0x23, 0x24, 0x25, 0x26, 0x27, 0x28, 0x29, 0x2a, 0x2b, 0x2c, 0x2d, 0x2e, 0x2f,
     0x30, 0x31, 0x32, 0x33, 0x34, 0x35, 0x36, 0x37, 0x38, 0x39, 0x3a, 0x3b, 0x3c, 0x3d, 0x3e, 0x3f,
     0x40, 0x41, 0x42, 0x43, 0x44, 0x45, 0x46, 0x47, 0x48, 0x49, 0x4a, 0x4b, 0x4c, 0x4d, 0x4e, 0x4f,
     0x50, 0x51, 0x52, 0x53, 0x54, 0x55, 0x56, 0x57, 0x58, 0x59, 0x5a, 0x5b, 0x5c, 0x5d, 0x5e, 0x5f,
     0x60, 0x61, 0x62, 0x63, 0x64, 0x65, 0x66, 0x67, 0x68, 0x69, 0x6a, 0x6b, 0x6c, 0x6d, 0x6e, 0x6f,
     0x70, 0x71, 0x72, 0x73, 0x74, 0x75, 0x76, 0x77, 0x78, 0x79, 0x7a, 0x7b, 0x7c, 0x7d, 0x7e, 0x7f,
     0x80, 0x81, 0x82, 0x83, 0x84, 0x85, 0x86, 0x87, 0x88, 0x89, 0x8a, 0x8b, 0x8c, 0x8d, 0x8e, 0x8f,
     0x90, 0x91, 0x92, 0x93, 0x94, 0x95, 0x96, 0x97, 0x98, 0x99, 0x9a, 0x9b, 0x9c, 0x9d, 0x9e, 0x9f,
     0xa0, 0xa1, 0xa2, 0xa3, 0xa4, 0xa5, 0xa6, 0xa7, 0xa8, 0xa9, 0xaa, 0xab, 0xac, 0xad, 0xae, 0xaf,
     0xb0, 0xb1, 0xb2, 0xb3, 0xb4, 0xb5, 0xb6, 0xb7, 0xb8, 0xb9, 0xba, 0xbb, 0xbc, 0xbd, 0xbe, 0xbf,
     0xc0, 0xc1, 0xc2, 0xc3, 0xc4, 0xc5, 0xc6, 0xc7, 0xc8, 0xc9, 0xca, 0xcb, 0xcc, 0xcd, 0xce, 0xcf,
     0xd0, 0xd1, 0xd2, 0xd3, 0xd4, 0xd5, 0xd6, 0xd7, 0xd8, 0xd9, 0xda, 0xdb, 0xdc, 0xdd, 0xde, 0xdf,
     0xe0, 0xe1, 0xe2, 0xe3, 0xe4, 0xe5, 0xe6, 0xe7, 0xe8, 0xe9, 0xea, 0xeb, 0xec, 0xed, 0xee, 0xef,
     0xf0, 0xf1, 0xf2, 0xf3, 0xf4, 0xf5, 0xf6, 0xf7, 0xf8, 0xf9, 0xfa, 0xfb, 0xfc, 0xfd, 0xfe, 0xff]"

lemma sbox_values: "map sbox all_bytes = sbox_table"
  by code_simp

lemma xtime_values: "map xtime all_bytes =
    [0x00, 0x02, 0x04, 0x06, 0x08, 0x0a, 0x0c, 0x0e, 0x10, 0x12, 0x14, 0x16, 0x18, 0x1a, 0x1c, 0x1e,
     0x20, 0x22, 0x24, 0x26, 0x28, 0x2a, 0x2c, 0x2e, 0x30, 0x32, 0x34, 0x36, 0x38, 0x3a, 0x3c, 0x3e,
     0x40, 0x42, 0x44, 0x46, 0x48, 0x4a, 0x4c, 0x4e, 0x50, 0x52, 0x54, 0x56, 0x58, 0x5a, 0x5c, 0x5e,
     0x60, 0x62, 0x64, 0x66, 0x68, 0x6a, 0x6c, 0x6e, 0x70, 0x72, 0x74, 0x76, 0x78, 0x7a, 0x7c, 0x7e,
     0x80, 0x82, 0x84, 0x86, 0x88, 0x8a, 0x8c, 0x8e, 0x90, 0x92, 0x94, 0x96, 0x98, 0x9a, 0x9c, 0x9e,
     0xa0, 0xa2, 0xa4, 0xa6, 0xa8, 0xaa, 0xac, 0xae, 0xb0, 0xb2, 0xb4, 0xb6, 0xb8, 0xba, 0xbc, 0xbe,
     0xc0, 0xc2, 0xc4, 0xc6, 0xc8, 0xca, 0xcc, 0xce, 0xd0, 0xd2, 0xd4, 0xd6, 0xd8, 0xda, 0xdc, 0xde,
     0xe0, 0xe2, 0xe4, 0xe6, 0xe8, 0xea, 0xec, 0xee, 0xf0, 0xf2, 0xf4, 0xf6, 0xf8, 0xfa, 0xfc, 0xfe,
     0x1b, 0x19, 0x1f, 0x1d, 0x13, 0x11, 0x17, 0x15, 0x0b, 0x09, 0x0f, 0x0d, 0x03, 0x01, 0x07, 0x05,
     0x3b, 0x39, 0x3f, 0x3d, 0x33, 0x31, 0x37, 0x35, 0x2b, 0x29, 0x2f, 0x2d, 0x23, 0x21, 0x27, 0x25,
     0x5b, 0x59, 0x5f, 0x5d, 0x53, 0x51, 0x57, 0x55, 0x4b, 0x49, 0x4f, 0x4d, 0x43, 0x41, 0x47, 0x45,
     0x7b, 0x79, 0x7f, 0x7d, 0x73, 0x71, 0x77, 0x75, 0x6b, 0x69, 0x6f, 0x6d, 0x63, 0x61, 0x67, 0x65,
     0x9b, 0x99, 0x9f, 0x9d, 0x93, 0x91, 0x97, 0x95, 0x8b, 0x89, 0x8f, 0x8d, 0x83, 0x81, 0x87, 0x85,
     0xbb, 0xb9, 0xbf, 0xbd, 0xb3, 0xb1, 0xb7, 0xb5, 0xab, 0xa9, 0xaf, 0xad, 0xa3, 0xa1, 0xa7, 0xa5,
     0xdb, 0xd9, 0xdf, 0xdd, 0xd3, 0xd1, 0xd7, 0xd5, 0xcb, 0xc9, 0xcf, 0xcd, 0xc3, 0xc1, 0xc7, 0xc5,
     0xfb, 0xf9, 0xff, 0xfd, 0xf3, 0xf1, 0xf7, 0xf5, 0xeb, 0xe9, 0xef, 0xed, 0xe3, 0xe1, 0xe7, 0xe5]"
  by code_simp

lemmas sbox_eval = sbox_values [unfolded all_bytes_def sbox_table_def list.map list.inject simp_thms]

lemmas xtime_eval = xtime_values [unfolded all_bytes_def list.map list.inject simp_thms]

lemma ShiftRows_eval: "ShiftRows [a0, a1, a2, a3, a4, a5, a6, a7, a8, a9, a10, a11, a12, a13, a14, a15] =
    [a0, a5, a10, a15, a4, a9, a14, a3, a8, a13, a2, a7, a12, a1, a6, a11]"
  by (simp add: ShiftRows_def)

lemmas aes_eval = aes_encrypt_def SubBytes_def mix_def sbox_eval xtime_eval ShiftRows_eval

text \<open>The key schedule of a 32-byte key, which only looks at the last eight words.\<close>

definition next8 :: "nat \<Rightarrow> bytes \<Rightarrow> bytes \<Rightarrow> bytes" where
  "next8 i w t = xor_bytes w
     (if i mod 8 = 0 then xor_bytes (map sbox (rotate1 t)) [rcon (i div 8 - 1), 0, 0, 0]
      else if i mod 8 = 4 then map sbox t else t)"

fun key_words :: "nat \<Rightarrow> nat \<Rightarrow> bytes list \<Rightarrow> bytes list" where
  "key_words 0 i win = []"
| "key_words (Suc n) i win = (let w = next8 i (win ! 0) (win ! 7) in w # key_words n (Suc i) (tl win @ [w]))"

lemma expand_key_words: "length win = 8 \<Longrightarrow> expand 8 n (pre @ win) = pre @ win @ key_words n (length pre + 8) win"
proof (induction n arbitrary: pre win)
  case (Suc n)
  let ?w = "next8 (length pre + 8) (win ! 0) (win ! 7)"
  have w: "next_word 8 (pre @ win) = ?w"
    using Suc.prems by (simp add: next_word_def next8_def nth_append Let_def)
  have "expand 8 (Suc n) (pre @ win) = expand 8 n ((pre @ win) @ [?w])" by (simp add: w)
  also have "\<dots> = expand 8 n ((pre @ [hd win]) @ (tl win @ [?w]))"
    using Suc.prems by (cases win) simp_all
  also have "\<dots> = (pre @ [hd win]) @ (tl win @ [?w]) @ key_words n (length (pre @ [hd win]) + 8) (tl win @ [?w])"
    using Suc.prems by (intro Suc.IH) simp
  finally show ?case
    using Suc.prems by (cases win) (simp_all add: Let_def)
qed simp

definition key_cons :: "bytes \<Rightarrow> nat \<Rightarrow> nat \<Rightarrow> bytes list \<Rightarrow> bytes list" where
  "key_cons w n i win = w # key_words n i (win @ [w])"

lemma key_words_eval:
  "key_words (numeral n) i [w0, w1, w2, w3, w4, w5, w6, w7] =
     key_cons (next8 i w0 w7) (pred_numeral n) (Suc i) [w1, w2, w3, w4, w5, w6, w7]"
  "key_words (Suc 0) i [w0, w1, w2, w3, w4, w5, w6, w7] = [next8 i w0 w7]"
  by (simp_all add: numeral_eq_Suc key_cons_def Let_def)

lemma round_keys_32:
  "length (chop4 key) = 8 \<Longrightarrow> length key = 32 \<Longrightarrow> round_keys key = map concat (chop4 (chop4 key @ key_words 52 8 (chop4 key)))"
  using expand_key_words [of "chop4 key" 52 "[]"] by (simp add: round_keys_def)

lemma rcon_values: "rcon 0 = 1" "rcon (Suc 0) = 2" "rcon 2 = 4" "rcon 3 = 8" "rcon 4 = 16" "rcon 5 = 32" "rcon 6 = 64"
  by code_simp+

lemmas schedule_eval = round_keys_32 key_words_eval key_cons_def next8_def rcon_values sbox_eval xtime_eval

subsection \<open>GHASH\<close>

text \<open>A block as the big-endian number of its bytes, and the bits of a number, the most significant first.\<close>

definition block_int :: "bytes \<Rightarrow> int" where
  "block_int bs = foldl (\<lambda>acc b. 256 * acc + uint b) 0 bs"

fun int_bits :: "nat \<Rightarrow> int \<Rightarrow> bool list \<Rightarrow> bool list" where
  "int_bits 0 x acc = acc"
| "int_bits (Suc n) x acc = int_bits n (drop_bit 1 x) (odd x # acc)"

fun gf_bits :: "bool list \<Rightarrow> int \<Rightarrow> int \<Rightarrow> int" where
  "gf_bits [] v z = z"
| "gf_bits (b # bs) v z =
     gf_bits bs (if odd v then drop_bit 1 v XOR 0xe1000000000000000000000000000000 else drop_bit 1 v)
       (if b then z XOR v else z)"

lemma block_word_foldl:
  "foldl (\<lambda>acc b. push_bit 8 acc OR ucast b) (word_of_int k) (bs :: bytes) =
     (word_of_int (foldl (\<lambda>acc b. 256 * acc + uint b) k bs) :: 128 word)"
proof (induction bs arbitrary: k)
  case (Cons b bs)
  have "push_bit 8 k AND uint b = 0"
    by (rule bit_eqI) (auto simp: bit_simps dest: bit_imp_le_length)
  then have "push_bit 8 k + uint b = push_bit 8 k OR uint b" by (rule disjunctive_add_eq_or)
  then have "256 * k + uint b = push_bit 8 k OR uint b" by (simp add: push_bit_eq_mult)
  moreover have "push_bit 8 (word_of_int k) OR ucast b = (word_of_int (push_bit 8 k OR uint b) :: 128 word)"
    by (rule bit_word_eqI) (auto simp: bit_simps)
  ultimately show ?case using Cons [of "256 * k + uint b"] by simp
qed simp

lemma block_word_int: "block_word bs = word_of_int (block_int bs)"
  using block_word_foldl [of 0 bs] by (simp add: block_word_def block_int_def)

lemma int_bits_eq: "int_bits n x acc = map (bit x) (rev [0..<n]) @ acc"
proof (induction n arbitrary: x acc)
  case (Suc n)
  have "map (bit x) (rev [0..<Suc n]) = map (bit (drop_bit 1 x)) (rev [0..<n]) @ [odd x]"
  proof -
    have "[0..<Suc n] = 0 # map Suc [0..<n]"
      by (simp add: map_Suc_upt upt_conv_Cons del: upt_Suc)
    then show ?thesis by (simp add: rev_map bit_0 comp_def bit_simps del: upt_Suc)
  qed
  then show ?case by (simp add: Suc)
qed simp

lemma gf_mul_loop_int:
  "0 \<le> v \<Longrightarrow> v < 2 ^ 128 \<Longrightarrow>
     gf_mul_loop n (word_of_int x) (word_of_int v) (word_of_int z) =
       word_of_int (gf_bits (map (bit x) (rev [0..<n])) v z)" if "n \<le> 128"
  using that
proof (induction n arbitrary: v z)
  case (Suc n)
  let ?v = "if odd v then drop_bit 1 v XOR 0xe1000000000000000000000000000000 else drop_bit 1 v"
  have R: "gcm_R = word_of_int 0xe1000000000000000000000000000000"
    unfolding gcm_R_def by code_simp
  have tb: "take_bit 128 v = v" using Suc.prems by (simp add: take_bit_int_eq_self)
  have range: "m < 128" if "bit v m" for m using tb that by (metis bit_take_bit_iff)
  have half: "drop_bit 1 (word_of_int v) = (word_of_int (drop_bit 1 v) :: 128 word)"
    by (rule bit_word_eqI) (auto simp: bit_simps dest: range)
  have even: "even (word_of_int v :: 128 word) \<longleftrightarrow> even v"
    by transfer (simp add: even_take_bit_eq)
  have xor: "word_of_int a XOR word_of_int b = (word_of_int (a XOR b) :: 128 word)" for a b
    by (rule bit_word_eqI) (simp add: bit_simps)
  have v: "(if bit (word_of_int v :: 128 word) 0 then drop_bit 1 (word_of_int v) XOR gcm_R else drop_bit 1 (word_of_int v)) =
      word_of_int ?v"
    by (simp only: R half bit_0 even xor if_distrib [of word_of_int])
  have d: "0 \<le> drop_bit 1 v" "drop_bit 1 v < 2 ^ 128" using Suc.prems by (simp_all add: drop_bit_eq_div)
  have "0 \<le> ?v \<and> ?v < 2 ^ 128"
    using d XOR_upper [OF d, of "0xe1000000000000000000000000000000"] by simp
  then have ih: "gf_mul_loop n (word_of_int x) (word_of_int ?v) (word_of_int z') =
      word_of_int (gf_bits (map (bit x) (rev [0..<n])) ?v z')" for z'
    using Suc by simp
  have z: "(if bit (word_of_int x :: 128 word) n then word_of_int z XOR word_of_int v else word_of_int z) =
      (word_of_int (if bit x n then z XOR v else z) :: 128 word)"
    using Suc.prems by (simp add: bit_word_of_int_iff xor)
  show ?case
    by (simp only: gf_mul_loop.simps v z ih) simp
qed simp

lemma gf_mul_eval:
  "gf_mul (block_word a) (block_word b) =
     word_of_int (gf_bits (int_bits 128 (block_int a) []) (take_bit 128 (block_int b)) 0)"
proof -
  have "word_of_int (block_int b) = (word_of_int (take_bit 128 (block_int b)) :: 128 word)"
    by (rule bit_word_eqI) (simp add: bit_simps)
  moreover have "take_bit 128 (block_int b) < 2 ^ 128" by (rule take_bit_int_less_exp)
  ultimately show ?thesis
    using gf_mul_loop_int [of 128 "take_bit 128 (block_int b)" "block_int a" 0]
    by (simp add: gf_mul_def block_word_int int_bits_eq)
qed

lemma gf_bits_eval:
  "int_bits (numeral n) x acc = int_bits (pred_numeral n) (drop_bit 1 x) (odd x # acc)"
  "gf_bits (True # bs) v z = gf_bits bs (if odd v then drop_bit 1 v XOR 0xe1000000000000000000000000000000 else drop_bit 1 v) (z XOR v)"
  "gf_bits (False # bs) v z = gf_bits bs (if odd v then drop_bit 1 v XOR 0xe1000000000000000000000000000000 else drop_bit 1 v) z"
  by (simp_all add: numeral_eq_Suc)

lemmas gf_eval = block_int_def gf_bits_eval

subsection \<open>SHA-256\<close>

text \<open>Reduced literals and their shifts.\<close>

definition below32 :: "int \<Rightarrow> bool" where
  "below32 k \<longleftrightarrow> 0 \<le> k \<and> k < 2 ^ 32"

definition reduced :: "32 word \<Rightarrow> 32 word" where
  "reduced w = w"

definition shr :: "nat \<Rightarrow> 32 word \<Rightarrow> 32 word" where
  "shr n w = drop_bit n w"

definition low_bits :: "nat \<Rightarrow> int \<Rightarrow> int" where
  "low_bits n k = k - push_bit n (drop_bit n k)"

lemma low_bits_eq: "low_bits n k = take_bit n k"
  using bits_ident [of n k] by (simp add: low_bits_def)

lemma reduced_int: "reduced (word_of_int k) = word_of_int (low_bits 32 k)"
  unfolding reduced_def low_bits_eq by (rule bit_word_eqI) (simp add: bit_simps)

lemma below32_bit: "below32 k \<Longrightarrow> bit k m \<Longrightarrow> m < 32"
  unfolding below32_def by (metis bit_take_bit_iff take_bit_int_eq_self)

lemma shr_int: "below32 k \<Longrightarrow> shr n (word_of_int k) = word_of_int (drop_bit n k)"
  unfolding shr_def by (rule bit_word_eqI) (auto simp: bit_simps dest: below32_bit)

lemma rotr_int:
  assumes "below32 k" and "n \<le> 32"
  shows "rotr n (word_of_int k) = word_of_int (drop_bit n k + push_bit (32 - n) (low_bits n k))"
proof -
  have "drop_bit n k AND push_bit (32 - n) (take_bit n k) = 0"
    using assms(2) by (intro bit_eqI) (auto simp: bit_simps dest!: below32_bit [OF assms(1)])
  then have "drop_bit n k + push_bit (32 - n) (low_bits n k) = drop_bit n k OR push_bit (32 - n) (take_bit n k)"
    unfolding low_bits_eq by (rule disjunctive_add_eq_or)
  moreover have "rotr n (word_of_int k) = word_of_int (drop_bit n k OR push_bit (32 - n) (take_bit n k))"
    unfolding rotr_def using assms(2)
    by (intro bit_word_eqI) (auto simp: bit_simps dest: below32_bit [OF assms(1)])
  ultimately show ?thesis by simp
qed

lemma below32_numeral: "below32 (numeral k) \<longleftrightarrow> numeral k < (4294967296 :: int)"
  by (simp add: below32_def)

lemma word_literal_eval:
  "reduced (numeral k) = word_of_int (low_bits 32 (numeral k))" "reduced 0 = 0" "reduced 1 = 1"
  "below32 (numeral k) \<Longrightarrow> shr n (numeral k) = word_of_int (drop_bit n (numeral k))" "shr n 0 = 0"
  "below32 (numeral k) \<Longrightarrow> n \<le> 32 \<Longrightarrow>
     rotr n (numeral k) = word_of_int (drop_bit n (numeral k) + push_bit (32 - n) (low_bits n (numeral k)))"
  "rotr n 0 = 0"
  using reduced_int [of "numeral k"] shr_int [of "numeral k" n] rotr_int [of "numeral k" n]
  by (simp_all add: reduced_def shr_def rotr_def)

definition sha_next :: "32 word \<Rightarrow> 32 word \<Rightarrow> 32 word \<Rightarrow> 32 word \<Rightarrow> 32 word \<Rightarrow> 32 word \<Rightarrow> 32 word \<Rightarrow> 32 word \<Rightarrow> 32 word \<Rightarrow> 32 word list" where
  "sha_next t1 t2 a b c d e f g = [reduced (t1 + t2), a, b, c, reduced (d + t1), e, f, g]"

lemma sha_choices: "sha_Ch x y z = z XOR (x AND (y XOR z))" "sha_Maj x y z = (x AND y) XOR (z AND (x XOR y))"
  by (auto simp: sha_Ch_def sha_Maj_def intro!: bit_word_eqI simp: bit_simps)

lemma sha_round_eval: "sha_round (k, w) [a, b, c, d, e, f, g, h] =
    sha_next (h + sha_Sigma1 e + sha_Ch e f g + k + w) (sha_Sigma0 a + sha_Maj a b c) a b c d e f g"
  by (simp add: sha_next_def reduced_def Let_def)

lemma sha_schedule_eval:
  "sha_schedule (numeral n) [w0, w1, w2, w3, w4, w5, w6, w7, w8, w9, w10, w11, w12, w13, w14, w15] =
     w0 # sha_schedule (pred_numeral n) [w1, w2, w3, w4, w5, w6, w7, w8, w9, w10, w11, w12, w13, w14, w15,
       reduced (sha_sigma1 w14 + w9 + sha_sigma0 w1 + w0)]"
  "sha_schedule (Suc 0) ws = [hd ws]"
  by (simp_all add: numeral_eq_Suc reduced_def)

lemma sha_sigma_eval:
  "sha_sigma0 x = rotr 7 x XOR rotr 18 x XOR shr 3 x" "sha_sigma1 x = rotr 17 x XOR rotr 19 x XOR shr 10 x"
  by (simp_all add: sha_sigma0_def sha_sigma1_def shr_def)

lemma sha_K_values: "sha_K =
    [1116352408, 1899447441, 3049323471, 3921009573, 961987163, 1508970993, 2453635748, 2870763221,
     3624381080, 310598401, 607225278, 1426881987, 1925078388, 2162078206, 2614888103, 3248222580,
     3835390401, 4022224774, 264347078, 604807628, 770255983, 1249150122, 1555081692, 1996064986,
     2554220882, 2821834349, 2952996808, 3210313671, 3336571891, 3584528711, 113926993, 338241895,
     666307205, 773529912, 1294757372, 1396182291, 1695183700, 1986661051, 2177026350, 2456956037,
     2730485921, 2820302411, 3259730800, 3345764771, 3516065817, 3600352804, 4094571909, 275423344,
     430227734, 506948616, 659060556, 883997877, 958139571, 1322822218, 1537002063, 1747873779,
     1955562222, 2024104815, 2227730452, 2361852424, 2428436474, 2756734187, 3204031479, 3329325298]"
  by code_simp

lemmas sha_eval = sha_compress_def sha_K_values sha_round_eval sha_next_def sha_schedule_eval sha_sigma_eval
  sha_Sigma0_def sha_Sigma1_def sha_choices word_literal_eval below32_numeral low_bits_def Uint32_def
  fold_simps

lemmas sha_eval_del = sha_round.simps fold.simps fold_Cons sha_schedule.simps

text \<open>HMAC of at most 55 bytes under a 32-byte key compresses four blocks.\<close>

definition sha_tail :: "bytes \<Rightarrow> bytes" where
  "sha_tail msg = msg @ [0x80] @ replicate (55 - length msg) 0 @ PutUint64 (word_of_nat (8 * (64 + length msg)))"

lemma sha256_second_block:
  assumes "length k = 64" and "length msg \<le> 55"
  shows "sha256_Sum (k @ msg) = concat (map PutUint32 (sha_compress (sha_compress sha_H0 k) (sha_tail msg)))"
proof -
  have m: "length (k @ msg) mod 64 = length msg" using assms by simp
  have z: "(119 - length msg) mod 64 = 55 - length msg" using assms(2) by (simp add: mod_if)
  have "sha_pad (k @ msg) = k @ sha_tail msg"
    unfolding sha_pad_def sha_tail_def m z using assms(1) by simp
  moreover have "length (sha_tail msg) = 64" using assms(2) by (simp add: sha_tail_def PutUint64_def PutUint32_def)
  ultimately show ?thesis
    using assms(1) by (simp add: sha256_Sum_def sha_blocks.simps)
qed

lemma hmac_eval:
  assumes "length key = 32" and "length msg \<le> 55"
    and "sha_compress sha_H0 (map ((XOR) 0x36) (key @ replicate 32 0)) = s" and "sha_compress s (sha_tail msg) = t"
    and "sha_compress sha_H0 (map ((XOR) 0x5c) (key @ replicate 32 0)) = u"
    and "sha_compress u (sha_tail (concat (map PutUint32 t))) = w"
  shows "hmac_sha256 key msg = concat (map PutUint32 w)"
proof -
  have k: "hmac_key key = key @ replicate 32 0" using assms(1) by (simp add: hmac_key_def)
  have "sha256_Sum (map ((XOR) 0x36) (hmac_key key) @ msg) = concat (map PutUint32 t)"
    unfolding k assms(3,4) [symmetric] using assms(1,2) by (intro sha256_second_block) simp_all
  moreover have "sha256_Sum (map ((XOR) 0x5c) (hmac_key key) @ concat (map PutUint32 t)) = concat (map PutUint32 w)"
    if "length (concat (map PutUint32 t)) = 32"
    unfolding k assms(5,6) [symmetric] using assms(1) that by (intro sha256_second_block) simp_all
  ultimately show ?thesis
    by (metis hmac_sha256_def sha256_Sum_length)
qed

subsection \<open>Modes\<close>

lemma shift_in_xor:
  "(push_bit 8 A OR ucast a) XOR (push_bit 8 B OR ucast b) = (push_bit 8 (A XOR B) OR ucast (a XOR b) :: 128 word)"
  for a b :: byte
  by (rule bit_word_eqI) (auto simp: bit_simps dest: bit_imp_le_length)

lemma block_word_xor: "length a = length b \<Longrightarrow> block_word a XOR block_word b = block_word (xor_bytes a b)"
proof (induction a b rule: rev_induct2)
  case (4 x xs y ys)
  then show ?case by (simp add: block_word_def xor_bytes_def shift_in_xor)
qed (simp_all add: block_word_def)

lemma word_block_block_word: "length y = 16 \<Longrightarrow> word_block (block_word y) = y"
proof -
  assume "length y = 16"
  then obtain a b c d e f g h i j k l m n x z where "y = [a, b, c, d, e, f, g, h, i, j, k, l, m, n, x, z]"
    unfolding length_16_conv by blast
  then show ?thesis
    by (simp add: block_word_def word_block_def upt_rec) (auto intro!: bit_word_eqI simp: bit_simps dest: bit_imp_le_length)
qed

lemma gf_mul_0 [simp]: "gf_mul 0 h = 0"
proof -
  have "gf_mul_loop n 0 v 0 = 0" for n v by (induction n arbitrary: v) simp_all
  then show ?thesis by (simp add: gf_mul_def)
qed

lemma block_word_0: "block_word [0, 0, 0, 0, 0, 0, 0, 0, 0, 0, 0, 0, 0, 0, 0, 0] = 0"
  by (simp add: block_word_def)

lemmas ghash_eval = ghash.simps block_word_xor block_word_0

lemma block_Encrypt_aes: "block_Encrypt (aes_block key) b = aes_encrypt (round_keys key) b"
  by (simp add: aes_block_def Let_def)

end
