(* ===== verification/AnswersKeys.thy ===== *)
theory AnswersKeys
  imports Evaluation
begin

text \<open>
  The keys of the known-answer vectors and their AES-256 round keys.
\<close>

definition zero_key :: bytes where
  "zero_key =
    [0, 0, 0, 0, 0, 0, 0, 0, 0, 0, 0, 0, 0, 0, 0, 0,
     0, 0, 0, 0, 0, 0, 0, 0, 0, 0, 0, 0, 0, 0, 0, 0]"

definition counting_key :: bytes where
  "counting_key =
    [0, 1, 0x02, 0x03, 0x04, 0x05, 0x06, 0x07, 0x08, 0x09, 0x0a, 0x0b, 0x0c, 0x0d, 0x0e, 0x0f,
     0x10, 0x11, 0x12, 0x13, 0x14, 0x15, 0x16, 0x17, 0x18, 0x19, 0x1a, 0x1b, 0x1c, 0x1d, 0x1e, 0x1f]"

definition digits_key :: bytes where
  "digits_key =
    [1, 0x23, 0x45, 0x67, 0x89, 0xab, 0xcd, 0xef, 1, 0x23, 0x45, 0x67, 0x89, 0xab, 0xcd, 0xef,
     1, 0x23, 0x45, 0x67, 0x89, 0xab, 0xcd, 0xef, 1, 0x23, 0x45, 0x67, 0x89, 0xab, 0xcd, 0xef]"

definition aa_key :: bytes where
  "aa_key =
    [0xaa, 0xaa, 0xaa, 0xaa, 0xaa, 0xaa, 0xaa, 0xaa, 0xaa, 0xaa, 0xaa, 0xaa, 0xaa, 0xaa, 0xaa, 0xaa,
     0xaa, 0xaa, 0xaa, 0xaa, 0xaa, 0xaa, 0xaa, 0xaa, 0xaa, 0xaa, 0xaa, 0xaa, 0xaa, 0xaa, 0xaa, 0xaa]"

definition down_key :: bytes where
  "down_key =
    [0xfe, 0xdc, 0xba, 0x98, 0x76, 0x54, 0x32, 0x10, 0xfe, 0xdc, 0xba, 0x98, 0x76, 0x54, 0x32, 0x10,
     0xfe, 0xdc, 0xba, 0x98, 0x76, 0x54, 0x32, 0x10, 0xfe, 0xdc, 0xba, 0x98, 0x76, 0x54, 0x32, 0x10]"

lemma zero_round_keys: "round_keys zero_key =
    [[0, 0, 0, 0, 0, 0, 0, 0, 0, 0, 0, 0, 0, 0, 0, 0],
     [0, 0, 0, 0, 0, 0, 0, 0, 0, 0, 0, 0, 0, 0, 0, 0],
     [0x62, 0x63, 0x63, 0x63, 0x62, 0x63, 0x63, 0x63, 0x62, 0x63, 0x63, 0x63, 0x62, 0x63, 0x63, 0x63],
     [0xaa, 0xfb, 0xfb, 0xfb, 0xaa, 0xfb, 0xfb, 0xfb, 0xaa, 0xfb, 0xfb, 0xfb, 0xaa, 0xfb, 0xfb, 0xfb],
     [0x6f, 0x6c, 0x6c, 0xcf, 0x0d, 0x0f, 0x0f, 0xac, 0x6f, 0x6c, 0x6c, 0xcf, 0x0d, 0x0f, 0x0f, 0xac],
     [0x7d, 0x8d, 0x8d, 0x6a, 0xd7, 0x76, 0x76, 0x91, 0x7d, 0x8d, 0x8d, 0x6a, 0xd7, 0x76, 0x76, 0x91],
     [0x53, 0x54, 0xed, 0xc1, 0x5e, 0x5b, 0xe2, 0x6d, 0x31, 0x37, 0x8e, 0xa2, 0x3c, 0x38, 0x81, 0x0e],
     [0x96, 0x8a, 0x81, 0xc1, 0x41, 0xfc, 0xf7, 0x50, 0x3c, 0x71, 0x7a, 0x3a, 0xeb, 0x07, 0x0c, 0xab],
     [0x9e, 0xaa, 0x8f, 0x28, 0xc0, 0xf1, 0x6d, 0x45, 0xf1, 0xc6, 0xe3, 0xe7, 0xcd, 0xfe, 0x62, 0xe9],
     [0x2b, 0x31, 0x2b, 0xdf, 0x6a, 0xcd, 0xdc, 0x8f, 0x56, 0xbc, 0xa6, 0xb5, 0xbd, 0xbb, 0xaa, 0x1e],
     [0x64, 0x06, 0xfd, 0x52, 0xa4, 0xf7, 0x90, 0x17, 0x55, 0x31, 0x73, 0xf0, 0x98, 0xcf, 0x11, 0x19],
     [0x6d, 0xbb, 0xa9, 0x0b, 0x07, 0x76, 0x75, 0x84, 0x51, 0xca, 0xd3, 0x31, 0xec, 0x71, 0x79, 0x2f],
     [0xe7, 0xb0, 0xe8, 0x9c, 0x43, 0x47, 0x78, 0x8b, 0x16, 0x76, 0x0b, 0x7b, 0x8e, 0xb9, 0x1a, 0x62],
     [0x74, 0xed, 0x0b, 0xa1, 0x73, 0x9b, 0x7e, 0x25, 0x22, 0x51, 0xad, 0x14, 0xce, 0x20, 0xd4, 0x3b],
     [0x10, 0xf8, 0x0a, 0x17, 0x53, 0xbf, 0x72, 0x9c, 0x45, 0xc9, 0x79, 0xe7, 0xcb, 0x70, 0x63, 0x85]]"
  by (simp add: zero_key_def schedule_eval)

lemma counting_round_keys: "round_keys counting_key =
    [[0, 1, 0x02, 0x03, 0x04, 0x05, 0x06, 0x07, 0x08, 0x09, 0x0a, 0x0b, 0x0c, 0x0d, 0x0e, 0x0f],
     [0x10, 0x11, 0x12, 0x13, 0x14, 0x15, 0x16, 0x17, 0x18, 0x19, 0x1a, 0x1b, 0x1c, 0x1d, 0x1e, 0x1f],
     [0xa5, 0x73, 0xc2, 0x9f, 0xa1, 0x76, 0xc4, 0x98, 0xa9, 0x7f, 0xce, 0x93, 0xa5, 0x72, 0xc0, 0x9c],
     [0x16, 0x51, 0xa8, 0xcd, 0x02, 0x44, 0xbe, 0xda, 0x1a, 0x5d, 0xa4, 0xc1, 0x06, 0x40, 0xba, 0xde],
     [0xae, 0x87, 0xdf, 0xf0, 0x0f, 0xf1, 0x1b, 0x68, 0xa6, 0x8e, 0xd5, 0xfb, 0x03, 0xfc, 0x15, 0x67],
     [0x6d, 0xe1, 0xf1, 0x48, 0x6f, 0xa5, 0x4f, 0x92, 0x75, 0xf8, 0xeb, 0x53, 0x73, 0xb8, 0x51, 0x8d],
     [0xc6, 0x56, 0x82, 0x7f, 0xc9, 0xa7, 0x99, 0x17, 0x6f, 0x29, 0x4c, 0xec, 0x6c, 0xd5, 0x59, 0x8b],
     [0x3d, 0xe2, 0x3a, 0x75, 0x52, 0x47, 0x75, 0xe7, 0x27, 0xbf, 0x9e, 0xb4, 0x54, 0x07, 0xcf, 0x39],
     [0x0b, 0xdc, 0x90, 0x5f, 0xc2, 0x7b, 0x09, 0x48, 0xad, 0x52, 0x45, 0xa4, 0xc1, 0x87, 0x1c, 0x2f],
     [0x45, 0xf5, 0xa6, 0x60, 0x17, 0xb2, 0xd3, 0x87, 0x30, 0x0d, 0x4d, 0x33, 0x64, 0x0a, 0x82, 0x0a],
     [0x7c, 0xcf, 0xf7, 0x1c, 0xbe, 0xb4, 0xfe, 0x54, 0x13, 0xe6, 0xbb, 0xf0, 0xd2, 0x61, 0xa7, 0xdf],
     [0xf0, 0x1a, 0xfa, 0xfe, 0xe7, 0xa8, 0x29, 0x79, 0xd7, 0xa5, 0x64, 0x4a, 0xb3, 0xaf, 0xe6, 0x40],
     [0x25, 0x41, 0xfe, 0x71, 0x9b, 0xf5, 0, 0x25, 0x88, 0x13, 0xbb, 0xd5, 0x5a, 0x72, 0x1c, 0x0a],
     [0x4e, 0x5a, 0x66, 0x99, 0xa9, 0xf2, 0x4f, 0xe0, 0x7e, 0x57, 0x2b, 0xaa, 0xcd, 0xf8, 0xcd, 0xea],
     [0x24, 0xfc, 0x79, 0xcc, 0xbf, 0x09, 0x79, 0xe9, 0x37, 0x1a, 0xc2, 0x3c, 0x6d, 0x68, 0xde, 0x36]]"
  by (simp add: counting_key_def schedule_eval)

lemma digits_round_keys: "round_keys digits_key =
    [[1, 0x23, 0x45, 0x67, 0x89, 0xab, 0xcd, 0xef, 1, 0x23, 0x45, 0x67, 0x89, 0xab, 0xcd, 0xef],
     [1, 0x23, 0x45, 0x67, 0x89, 0xab, 0xcd, 0xef, 1, 0x23, 0x45, 0x67, 0x89, 0xab, 0xcd, 0xef],
     [0x62, 0x9e, 0x9a, 0xc0, 0xeb, 0x35, 0x57, 0x2f, 0xea, 0x16, 0x12, 0x48, 0x63, 0xbd, 0xdf, 0xa7],
     [0xfa, 0x59, 0xdb, 0x3b, 0x73, 0xf2, 0x16, 0xd4, 0x72, 0xd1, 0x53, 0xb3, 0xfb, 0x7a, 0x9e, 0x5c],
     [0xba, 0x95, 0xd0, 0xcf, 0x51, 0xa0, 0x87, 0xe0, 0xbb, 0xb6, 0x95, 0xa8, 0xd8, 0x0b, 0x4a, 0x0f],
     [0x9b, 0x72, 0x0d, 0x4d, 0xe8, 0x80, 0x1b, 0x99, 0x9a, 0x51, 0x48, 0x2a, 0x61, 0x2b, 0xd6, 0x76],
     [0x4f, 0x63, 0xe8, 0x20, 0x1e, 0xc3, 0x6f, 0xc0, 0xa5, 0x75, 0xfa, 0x68, 0x7d, 0x7e, 0xb0, 0x67],
     [0x64, 0x81, 0xea, 0xc8, 0x8c, 1, 0xf1, 0x51, 0x16, 0x50, 0xb9, 0x7b, 0x77, 0x7b, 0x6f, 0x0d],
     [0x66, 0xcb, 0x3f, 0xd5, 0x78, 0x08, 0x50, 0x15, 0xdd, 0x7d, 0xaa, 0x7d, 0xa0, 0x03, 0x1a, 0x1a],
     [0x84, 0xfa, 0x48, 0x6a, 0x08, 0xfb, 0xb9, 0x3b, 0x1e, 0xab, 0, 0x40, 0x69, 0xd0, 0x6f, 0x4d],
     [0x06, 0x63, 0xdc, 0x2c, 0x7e, 0x6b, 0x8c, 0x39, 0xa3, 0x16, 0x26, 0x44, 0x03, 0x15, 0x3c, 0x5e],
     [0xff, 0xa3, 0xa3, 0x32, 0xf7, 0x58, 0x1a, 0x09, 0xe9, 0xf3, 0x1a, 0x49, 0x80, 0x23, 0x75, 0x04],
     [0, 0xfe, 0x2e, 0xe1, 0x7e, 0x95, 0xa2, 0xd8, 0xdd, 0x83, 0x84, 0x9c, 0xde, 0x96, 0xb8, 0xc2],
     [0xe2, 0x33, 0xcf, 0x17, 0x15, 0x6b, 0xd5, 0x1e, 0xfc, 0x98, 0xcf, 0x57, 0x7c, 0xbb, 0xba, 0x53],
     [0xaa, 0x0a, 0xc3, 0xf1, 0xd4, 0x9f, 0x61, 0x29, 0x09, 0x1c, 0xe5, 0xb5, 0xd7, 0x8a, 0x5d, 0x77]]"
  by (simp add: digits_key_def schedule_eval)

lemma key_lengths [simp]:
  "length zero_key = 32" "length counting_key = 32" "length digits_key = 32" "length aa_key = 32" "length down_key = 32"
  by (simp_all add: zero_key_def counting_key_def digits_key_def aa_key_def down_key_def)

end
