(* ===== verification/SealedHex.thy ===== *)
theory SealedHex
  imports AnswersKeys OpenAuto
begin

text \<open>
  An AES-GCM text that is hexadecimal as well. Letters c to f are base64url sextets with two free bits, and the
  tag is linear in the ciphertext, so a plaintext can be solved for that makes every character of the sealed
  text one of them. This one also decrypts as CBC under the same key: \<^verbatim>\<open>src/auto.go\<close> then takes it for CBC as
  soon as \<^verbatim>\<open>Open\<close> refuses it.
\<close>

definition hex_nonce :: bytes where
  "hex_nonce = [0xc7, 0x1c, 0x71, 0xc7, 0x1c, 0x71, 0xc7, 0x1c, 0x71, 0xc7, 0x1c, 0x71]"

definition hex_plaintext :: bytes where
  "hex_plaintext =
    [0x69, 0xba, 0x17, 0xa5, 0x61, 0x29, 0x63, 0xc3, 0xee, 0xfb, 0x68, 0xe6, 0x73, 0xe0, 0x44, 0x51,
     0xbe, 0xf6, 0x5f, 0x8e, 0xfd, 0x04, 0x08, 0xee, 0xb6, 0xc5, 0x13, 0x44, 0xf8, 0xe0, 0x0c, 0x4e,
     0xc3, 0xbe, 0xcd, 0xd7, 0x8f, 0xa4, 0x5f, 0x6a, 0xcc, 0x17, 0x63]"

definition hex_body :: bytes where
  "hex_body =
    [0xc7, 0x1e, 0x75, 0xc7, 0x5f, 0x7d, 0xd7, 0x9d, 0x79, 0xd7, 0xdf, 0x75, 0xc7, 0xdf, 0x79, 0xf7,
     0x9d, 0x71, 0xf7, 0x9e, 0x79, 0xe7, 0x5d, 0x75, 0xc7, 0x5d, 0x71, 0xc7, 0x1c, 0x7d, 0xf7, 0x9f,
     0x7d, 0xf7, 0x5c, 0x79, 0xd7, 0xdd, 0x75, 0xf7, 0x5e, 0x79, 0xe7]"

definition hex_tag :: bytes where
  "hex_tag = [0xdf, 0x71, 0xd7, 0x5d, 0x7d, 0xe7, 0xdc, 0x79, 0xe7, 0x5d, 0x71, 0xc7, 0x9c, 0x71, 0xf7, 0xdd]"

text \<open>The sealed text, and the bytes CBC decryption makes of it.\<close>

definition hex_text :: gostring where
  "hex_text = lit ''Accccccccccccccccccedcdffdededffdcffefedcfeeeedddcddccccffefffdcedfddfdeeeffcdddfefceeddcceccffd''"

definition hex_garbage :: bytes where
  "hex_garbage =
    [0x7b, 0xda, 0x7f, 0x44, 0xf0, 0x9d, 0xd5, 0x59, 0x6e, 0x30, 0xd7, 0x2d, 0x90, 0x55, 0x28, 0x53,
     0x5b, 0xe2, 0xea, 0x19, 0xae, 0x9d, 0x67, 0xdf, 0xc9, 0xed, 0x91, 0x2e, 0xc9, 0x8d, 0x32]"

lemmas hex_defs = hex_nonce_def hex_plaintext_def hex_body_def hex_tag_def

subsection \<open>Sealing\<close>

lemma hex_block1: "block_Encrypt (aes_block zero_key)
    [0, 0, 0, 0, 0, 0, 0, 0, 0, 0, 0, 0, 0, 0, 0, 0] =
    [0xdc, 0x95, 0xc0, 0x78, 0xa2, 0x40, 0x89, 0x89, 0xad, 0x48, 0xa2, 0x14, 0x92, 0x84, 0x20, 0x87]"
  by (simp add: block_Encrypt_aes zero_round_keys aes_eval)

lemma hex_block2: "block_Encrypt (aes_block zero_key)
    [0xc7, 0x1c, 0x71, 0xc7, 0x1c, 0x71, 0xc7, 0x1c, 0x71, 0xc7, 0x1c, 0x71, 0, 0, 0, 1] =
    [0x0e, 0xe0, 0xd7, 0x97, 0x2d, 0x61, 0x8a, 0xf0, 0x9a, 0x62, 0xb2, 0x08, 0x3c, 0x4b, 0x6c, 0xf0]"
  by (simp add: block_Encrypt_aes zero_round_keys aes_eval)

lemma hex_block3: "block_Encrypt (aes_block zero_key)
    [0xc7, 0x1c, 0x71, 0xc7, 0x1c, 0x71, 0xc7, 0x1c, 0x71, 0xc7, 0x1c, 0x71, 0, 0, 0, 0x02] =
    [0xae, 0xa4, 0x62, 0x62, 0x3e, 0x54, 0xb4, 0x5e, 0x97, 0x2c, 0xb7, 0x93, 0xb4, 0x3f, 0x3d, 0xa6]"
  by (simp add: block_Encrypt_aes zero_round_keys aes_eval)

lemma hex_block4: "block_Encrypt (aes_block zero_key)
    [0xc7, 0x1c, 0x71, 0xc7, 0x1c, 0x71, 0xc7, 0x1c, 0x71, 0xc7, 0x1c, 0x71, 0, 0, 0, 0x03] =
    [0x23, 0x87, 0xa8, 0x10, 0x84, 0xe3, 0x55, 0x9b, 0x71, 0x98, 0x62, 0x83, 0xe4, 0x9d, 0xfb, 0xd1]"
  by (simp add: block_Encrypt_aes zero_round_keys aes_eval)

lemma hex_block5: "block_Encrypt (aes_block zero_key)
    [0xc7, 0x1c, 0x71, 0xc7, 0x1c, 0x71, 0xc7, 0x1c, 0x71, 0xc7, 0x1c, 0x71, 0, 0, 0, 0x04] =
    [0xbe, 0x49, 0x91, 0xae, 0x58, 0x79, 0x2a, 0x9d, 0x92, 0x6e, 0x84, 0x20, 0, 0x24, 0x34, 0x10]"
  by (simp add: block_Encrypt_aes zero_round_keys aes_eval)

lemma hex_ctr: "ctr_mode (aes_block zero_key) hex_nonce 2 hex_plaintext = hex_body"
  by (simp add: hex_defs ctr_mode.simps PutUint32_def hex_block3 hex_block4 hex_block5)

lemma hex_product1: "gf_mul (block_word [0xc7, 0x1e, 0x75, 0xc7, 0x5f, 0x7d, 0xd7, 0x9d, 0x79, 0xd7, 0xdf, 0x75, 0xc7, 0xdf, 0x79, 0xf7])
    (block_word [0xdc, 0x95, 0xc0, 0x78, 0xa2, 0x40, 0x89, 0x89, 0xad, 0x48, 0xa2, 0x14, 0x92, 0x84, 0x20, 0x87]) =
    block_word [0x25, 0x22, 0x31, 0xe0, 0x13, 0x6a, 0xf5, 0x4a, 0xbf, 0x9d, 0xa5, 0xd6, 0x79, 0xe6, 0x77, 0xd6]"
  unfolding gf_mul_eval by (simp add: gf_eval block_word_int)

lemma hex_product2: "gf_mul (block_word [0xb8, 0x53, 0xc6, 0x7e, 0x6a, 0x8d, 0xa8, 0x3f, 0x78, 0xc0, 0xd4, 0x11, 0x65, 0x9b, 0x80, 0x49])
    (block_word [0xdc, 0x95, 0xc0, 0x78, 0xa2, 0x40, 0x89, 0x89, 0xad, 0x48, 0xa2, 0x14, 0x92, 0x84, 0x20, 0x87]) =
    block_word [0x12, 0x67, 0xd5, 0x5f, 0x14, 0xc9, 0xa7, 0x02, 0x13, 0xeb, 0x61, 0xa3, 0xc4, 0xe9, 0xd4, 0xfa]"
  unfolding gf_mul_eval by (simp add: gf_eval block_word_int)

lemma hex_product3: "gf_mul (block_word [0x6f, 0x90, 0x89, 0x26, 0xc3, 0x14, 0xd2, 0xf5, 0x4d, 0x92, 0x86, 0xa3, 0xc4, 0xe9, 0xd4, 0xfa])
    (block_word [0xdc, 0x95, 0xc0, 0x78, 0xa2, 0x40, 0x89, 0x89, 0xad, 0x48, 0xa2, 0x14, 0x92, 0x84, 0x20, 0x87]) =
    block_word [0x50, 0x42, 0, 0x93, 0x4b, 0x0e, 0x7e, 0xbc, 0xdd, 0x16, 0x50, 0x5d, 0x57, 0xfe, 0x4e, 0x4e]"
  unfolding gf_mul_eval by (simp add: gf_eval block_word_int)

lemma hex_product4: "gf_mul (block_word [0x50, 0x42, 0, 0x93, 0x4b, 0x0e, 0x7e, 0xbc, 0xdd, 0x16, 0x50, 0x5d, 0x57, 0xfe, 0x4f, 0x16])
    (block_word [0xdc, 0x95, 0xc0, 0x78, 0xa2, 0x40, 0x89, 0x89, 0xad, 0x48, 0xa2, 0x14, 0x92, 0x84, 0x20, 0x87]) =
    block_word [0xd1, 0x91, 0, 0xca, 0x50, 0x86, 0x56, 0x89, 0x7d, 0x3f, 0xc3, 0xcf, 0xa0, 0x3a, 0x9b, 0x2d]"
  unfolding gf_mul_eval by (simp add: gf_eval block_word_int)

lemma hex_ghash: "ghash (block_word [0xdc, 0x95, 0xc0, 0x78, 0xa2, 0x40, 0x89, 0x89, 0xad, 0x48, 0xa2, 0x14, 0x92, 0x84, 0x20, 0x87]) 0
    [0xc7, 0x1e, 0x75, 0xc7, 0x5f, 0x7d, 0xd7, 0x9d, 0x79, 0xd7, 0xdf, 0x75, 0xc7, 0xdf, 0x79, 0xf7,
     0x9d, 0x71, 0xf7, 0x9e, 0x79, 0xe7, 0x5d, 0x75, 0xc7, 0x5d, 0x71, 0xc7, 0x1c, 0x7d, 0xf7, 0x9f,
     0x7d, 0xf7, 0x5c, 0x79, 0xd7, 0xdd, 0x75, 0xf7, 0x5e, 0x79, 0xe7, 0, 0, 0, 0, 0,
     0, 0, 0, 0, 0, 0, 0, 0, 0, 0, 0, 0, 0, 0, 1, 0x58] =
    block_word [0xd1, 0x91, 0, 0xca, 0x50, 0x86, 0x56, 0x89, 0x7d, 0x3f, 0xc3, 0xcf, 0xa0, 0x3a, 0x9b, 0x2d]"
  by (simp add: ghash_eval hex_product1 hex_product2 hex_product3 hex_product4)

lemma hex_ghash_tag: "gcm_tag (aes_block zero_key) hex_nonce [] hex_body =
    hex_tag"
proof -
  have "pad16 [] @ pad16 hex_body @ PutUint64 (word_of_nat (8 * length ([] :: bytes))) @
      PutUint64 (word_of_nat (8 * length hex_body)) =
    [0xc7, 0x1e, 0x75, 0xc7, 0x5f, 0x7d, 0xd7, 0x9d, 0x79, 0xd7, 0xdf, 0x75, 0xc7, 0xdf, 0x79, 0xf7,
     0x9d, 0x71, 0xf7, 0x9e, 0x79, 0xe7, 0x5d, 0x75, 0xc7, 0x5d, 0x71, 0xc7, 0x1c, 0x7d, 0xf7, 0x9f,
     0x7d, 0xf7, 0x5c, 0x79, 0xd7, 0xdd, 0x75, 0xf7, 0x5e, 0x79, 0xe7, 0, 0, 0, 0, 0,
     0, 0, 0, 0, 0, 0, 0, 0, 0, 0, 0, 0, 0, 0, 1, 0x58]"
    unfolding hex_body_def by code_simp
  moreover have "(replicate 16 0 :: bytes) = [0, 0, 0, 0, 0, 0, 0, 0, 0, 0, 0, 0, 0, 0, 0, 0]" by code_simp
  ultimately show ?thesis
    by (simp add: gcm_tag_def hex_block1 hex_nonce_def hex_tag_def PutUint32_def hex_block2 hex_ghash word_block_block_word)
qed

lemma hex_product5: "gf_mul (block_word [1, 0, 0, 0, 0, 0, 0, 0, 0, 0, 0, 0, 0, 0, 0, 0])
    (block_word [0xdc, 0x95, 0xc0, 0x78, 0xa2, 0x40, 0x89, 0x89, 0xad, 0x48, 0xa2, 0x14, 0x92, 0x84, 0x20, 0x87]) =
    block_word [0x0b, 0x25, 0x2b, 0x80, 0xf1, 0x44, 0x81, 0x13, 0x13, 0x5a, 0x91, 0x44, 0x29, 0x25, 0x08, 0x41]"
  unfolding gf_mul_eval by (simp add: gf_eval block_word_int)

lemma hex_product6: "gf_mul (block_word [0xcc, 0x3b, 0x5e, 0x47, 0xae, 0x39, 0x56, 0x8e, 0x6a, 0x8d, 0x4e, 0x31, 0xee, 0xfa, 0x71, 0xb6])
    (block_word [0xdc, 0x95, 0xc0, 0x78, 0xa2, 0x40, 0x89, 0x89, 0xad, 0x48, 0xa2, 0x14, 0x92, 0x84, 0x20, 0x87]) =
    block_word [0x66, 0xf1, 0xb5, 0x1d, 0x15, 0xf4, 0xc9, 0x38, 0xc7, 0xc8, 0xa0, 0x74, 0x08, 0x7b, 0x53, 0x15]"
  unfolding gf_mul_eval by (simp add: gf_eval block_word_int)

lemma hex_product7: "gf_mul (block_word [0xfb, 0x80, 0x42, 0x83, 0x6c, 0x13, 0x94, 0x4d, 0, 0x95, 0xd1, 0xb3, 0x14, 0x06, 0xa4, 0x8a])
    (block_word [0xdc, 0x95, 0xc0, 0x78, 0xa2, 0x40, 0x89, 0x89, 0xad, 0x48, 0xa2, 0x14, 0x92, 0x84, 0x20, 0x87]) =
    block_word [0x05, 0x0e, 0x8b, 0x2c, 0x22, 0x21, 0xe6, 0x8c, 0xf3, 0x67, 0xa2, 0x1c, 0x56, 0x5a, 0x11, 0x9b]"
  unfolding gf_mul_eval by (simp add: gf_eval block_word_int)

lemma hex_product8: "gf_mul (block_word [0x78, 0xf9, 0xd7, 0x55, 0xf5, 0xfc, 0x93, 0x7b, 0xad, 0x1e, 0x45, 0x1c, 0x56, 0x5a, 0x11, 0x9b])
    (block_word [0xdc, 0x95, 0xc0, 0x78, 0xa2, 0x40, 0x89, 0x89, 0xad, 0x48, 0xa2, 0x14, 0x92, 0x84, 0x20, 0x87]) =
    block_word [0x53, 0x8e, 0xfa, 0x31, 0x46, 0xce, 0xa0, 0xae, 0x22, 0xe4, 0x2b, 0x3d, 0x13, 0xa7, 0xec, 0x8a]"
  unfolding gf_mul_eval by (simp add: gf_eval block_word_int)

lemma hex_product9: "gf_mul (block_word [0x53, 0x8e, 0xfa, 0x31, 0x46, 0xce, 0xa0, 0xa6, 0x22, 0xe4, 0x2b, 0x3d, 0x13, 0xa7, 0xed, 0xd2])
    (block_word [0xdc, 0x95, 0xc0, 0x78, 0xa2, 0x40, 0x89, 0x89, 0xad, 0x48, 0xa2, 0x14, 0x92, 0x84, 0x20, 0x87]) =
    block_word [0x8e, 0x5d, 0x1c, 0xf6, 0xdf, 0x15, 0, 0x85, 0x4d, 0x90, 0x58, 0xd7, 0x87, 0x97, 0x8f, 0xb3]"
  unfolding gf_mul_eval by (simp add: gf_eval block_word_int)

lemma hex_ghash_aad: "ghash (block_word [0xdc, 0x95, 0xc0, 0x78, 0xa2, 0x40, 0x89, 0x89, 0xad, 0x48, 0xa2, 0x14, 0x92, 0x84, 0x20, 0x87]) 0
    [1, 0, 0, 0, 0, 0, 0, 0, 0, 0, 0, 0, 0, 0, 0, 0,
     0xc7, 0x1e, 0x75, 0xc7, 0x5f, 0x7d, 0xd7, 0x9d, 0x79, 0xd7, 0xdf, 0x75, 0xc7, 0xdf, 0x79, 0xf7,
     0x9d, 0x71, 0xf7, 0x9e, 0x79, 0xe7, 0x5d, 0x75, 0xc7, 0x5d, 0x71, 0xc7, 0x1c, 0x7d, 0xf7, 0x9f,
     0x7d, 0xf7, 0x5c, 0x79, 0xd7, 0xdd, 0x75, 0xf7, 0x5e, 0x79, 0xe7, 0, 0, 0, 0, 0,
     0, 0, 0, 0, 0, 0, 0, 0x08, 0, 0, 0, 0, 0, 0, 1, 0x58] =
    block_word [0x8e, 0x5d, 0x1c, 0xf6, 0xdf, 0x15, 0, 0x85, 0x4d, 0x90, 0x58, 0xd7, 0x87, 0x97, 0x8f, 0xb3]"
  by (simp add: ghash_eval hex_product5 hex_product6 hex_product7 hex_product8 hex_product9)

lemma hex_ghash_aad_tag: "gcm_tag (aes_block zero_key) hex_nonce [1] hex_body =
    [0x80, 0xbd, 0xcb, 0x61, 0xf2, 0x74, 0x8a, 0x75, 0xd7, 0xf2, 0xea, 0xdf, 0xbb, 0xdc, 0xe3, 0x43]"
proof -
  have "pad16 [1] @ pad16 hex_body @ PutUint64 (word_of_nat (8 * length ([1] :: bytes))) @
      PutUint64 (word_of_nat (8 * length hex_body)) =
    [1, 0, 0, 0, 0, 0, 0, 0, 0, 0, 0, 0, 0, 0, 0, 0,
     0xc7, 0x1e, 0x75, 0xc7, 0x5f, 0x7d, 0xd7, 0x9d, 0x79, 0xd7, 0xdf, 0x75, 0xc7, 0xdf, 0x79, 0xf7,
     0x9d, 0x71, 0xf7, 0x9e, 0x79, 0xe7, 0x5d, 0x75, 0xc7, 0x5d, 0x71, 0xc7, 0x1c, 0x7d, 0xf7, 0x9f,
     0x7d, 0xf7, 0x5c, 0x79, 0xd7, 0xdd, 0x75, 0xf7, 0x5e, 0x79, 0xe7, 0, 0, 0, 0, 0,
     0, 0, 0, 0, 0, 0, 0, 0x08, 0, 0, 0, 0, 0, 0, 1, 0x58]"
    unfolding hex_body_def by code_simp
  moreover have "(replicate 16 0 :: bytes) = [0, 0, 0, 0, 0, 0, 0, 0, 0, 0, 0, 0, 0, 0, 0, 0]" by code_simp
  ultimately show ?thesis
    by (simp add: gcm_tag_def hex_block1 hex_nonce_def hex_tag_def PutUint32_def hex_block2 hex_ghash_aad word_block_block_word)
qed

lemma hex_lengths [simp]:
  "length hex_nonce = 12" "length hex_plaintext = 43" "length hex_body = 43" "length hex_tag = 16"
  by (simp_all add: hex_defs)

lemma hex_sealed: "gcm_Seal (aes_block zero_key) hex_nonce hex_plaintext [] = Ok (hex_body @ hex_tag)"
  by (simp add: gcm_Seal_def hex_ctr hex_ghash_tag gcm_max_def)

lemma hex_text_frame: "hex_text = RawURLEncoding_EncodeToString (frame VersionAEADv1 hex_nonce (hex_body @ hex_tag))"
  unfolding hex_text_def frame_def hex_defs VersionAEADv1_def by code_simp

lemma hex_text_Seal: "Seal zero_key hex_plaintext [] \<lparr>rd_data = hex_nonce, rd_end = EOF\<rparr> = (Ok hex_text, \<lparr>rd_data = [], rd_end = EOF\<rparr>)"
  by (simp add: Seal_Ok_iff aes_gcm_def gcm_aead_def hex_sealed hex_text_frame)

lemma hex_text_other_aad: "Open zero_key hex_text [1] = Err (Wrap ''%w: %v'' ErrTampered)"
proof -
  have "hex_tag \<noteq> gcm_tag (aes_block zero_key) hex_nonce [1] hex_body"
    by (simp add: hex_ghash_aad_tag hex_tag_def)
  then show ?thesis
    by (simp add: Open_spec open_spec_def hex_text_frame frame_def aes_gcm_def gcm_aead_def gcm_Open_def)
qed

subsection \<open>The same text as CBC\<close>

lemma hex_block6: "block_Encrypt (aes_block zero_key)
    [0xd7, 0x16, 0xb3, 0x88, 0x3c, 0x51, 0x19, 0x95, 0xa2, 0xfe, 0x0b, 0xf2, 0x6d, 0xb8, 0xc5, 0xac] =
    [0xdc, 0xff, 0xef, 0xed, 0xcf, 0xee, 0xee, 0xdd, 0xdc, 0xdd, 0xcc, 0xcc, 0xff, 0xef, 0xff, 0xdc]"
  by (simp add: block_Encrypt_aes zero_round_keys aes_eval)

lemma hex_block7: "block_Encrypt (aes_block zero_key)
    [0x87, 0x1d, 0x05, 0xf4, 0x61, 0x73, 0x89, 0x02, 0x15, 0x30, 0x5d, 0xe2, 0x36, 0x62, 0xcd, 0xdd] =
    [0xed, 0xfd, 0xdf, 0xde, 0xee, 0xff, 0xcd, 0xdd, 0xfe, 0xfc, 0xee, 0xdd, 0xcc, 0xec, 0xcf, 0xfd]"
  by (simp add: block_Encrypt_aes zero_round_keys aes_eval)

lemma hex_text_bytes: "hex_DecodeString hex_text = Some (
    [0xac, 0xcc, 0xcc, 0xcc, 0xcc, 0xcc, 0xcc, 0xcc, 0xcc, 0xce, 0xdc, 0xdf, 0xfd, 0xed, 0xed, 0xff] @
    [0xdc, 0xff, 0xef, 0xed, 0xcf, 0xee, 0xee, 0xdd, 0xdc, 0xdd, 0xcc, 0xcc, 0xff, 0xef, 0xff, 0xdc,
     0xed, 0xfd, 0xdf, 0xde, 0xee, 0xff, 0xcd, 0xdd, 0xfe, 0xfc, 0xee, 0xdd, 0xcc, 0xec, 0xcf, 0xfd])"
  unfolding hex_text_def by code_simp

lemma hex_cbc: "cbc_encrypt (aes_block zero_key) [0xac, 0xcc, 0xcc, 0xcc, 0xcc, 0xcc, 0xcc, 0xcc, 0xcc, 0xce, 0xdc, 0xdf, 0xfd, 0xed, 0xed, 0xff]
    [0x7b, 0xda, 0x7f, 0x44, 0xf0, 0x9d, 0xd5, 0x59, 0x6e, 0x30, 0xd7, 0x2d, 0x90, 0x55, 0x28, 0x53,
     0x5b, 0xe2, 0xea, 0x19, 0xae, 0x9d, 0x67, 0xdf, 0xc9, 0xed, 0x91, 0x2e, 0xc9, 0x8d, 0x32, 1] =
    [0xdc, 0xff, 0xef, 0xed, 0xcf, 0xee, 0xee, 0xdd, 0xdc, 0xdd, 0xcc, 0xcc, 0xff, 0xef, 0xff, 0xdc,
     0xed, 0xfd, 0xdf, 0xde, 0xee, 0xff, 0xcd, 0xdd, 0xfe, 0xfc, 0xee, 0xdd, 0xcc, 0xec, 0xcf, 0xfd]"
  by (simp add: cbc_encrypt.simps xor_bytes_def hex_block6 hex_block7)

lemma DecryptCBC_same_bytes:
  "hex_DecodeString s = hex_DecodeString t \<Longrightarrow> DecryptCBC key s = DecryptCBC key t"
  by (simp add: DecryptCBC_def)

lemma hex_text_DecryptCBC: "DecryptCBC zero_key hex_text = Ok hex_garbage"
proof -
  let ?iv = "[0xac, 0xcc, 0xcc, 0xcc, 0xcc, 0xcc, 0xcc, 0xcc, 0xcc, 0xce, 0xdc, 0xdf, 0xfd, 0xed, 0xed, 0xff] :: bytes"
  let ?body = "cbc_encrypt (aes_block zero_key) ?iv (hex_garbage @ [1])"
  have "pad hex_garbage 16 = Ok (hex_garbage @ [1])" by (simp add: pad_eq hex_garbage_def)
  then have "EncryptCBC zero_key hex_garbage \<lparr>rd_data = ?iv, rd_end = EOF\<rparr> =
      (Ok (hex_EncodeToString (?iv @ ?body)), \<lparr>rd_data = [], rd_end = EOF\<rparr>)"
    by (simp add: EncryptCBC_Ok_iff aes_key_size_def)
  from EncryptCBC_DecryptCBC [OF this] have dec: "DecryptCBC zero_key (hex_EncodeToString (?iv @ ?body)) = Ok hex_garbage" .
  have "hex_DecodeString hex_text = hex_DecodeString (hex_EncodeToString (?iv @ ?body))"
    by (simp only: hex_text_bytes hex_garbage_def append.simps hex_cbc hex_decode_encode)
  from DecryptCBC_same_bytes [OF this] have
    "DecryptCBC zero_key hex_text = DecryptCBC zero_key (hex_EncodeToString (?iv @ ?body))" .
  also note dec
  finally show ?thesis .
qed

lemma sealed_text_read_as_cbc:
  "Seal zero_key hex_plaintext [] \<lparr>rd_data = hex_nonce, rd_end = EOF\<rparr> = (Ok hex_text, \<lparr>rd_data = [], rd_end = EOF\<rparr>)"
  "Open zero_key hex_text [1] = Err (Wrap ''%w: %v'' ErrTampered)"
  "OpenAuto zero_key hex_text [1] = Ok hex_garbage"
  "hex_garbage \<noteq> hex_plaintext"
proof -
  show "hex_garbage \<noteq> hex_plaintext" by (simp add: hex_garbage_def hex_plaintext_def)
qed (simp_all only: hex_text_Seal hex_text_other_aad OpenAuto_eq hex_text_DecryptCBC if_False if_True is_ok.simps not_False_eq_True)

end
