(* ===== verification/WireFormats.thy ===== *)
theory WireFormats
  imports KeyRing SealedHex AeadChaCha20 Kms Asymmetric
begin

text \<open>
  The text formats of the package side by side: AES-GCM (version 1), ChaCha20-Poly1305 (2), key ring (3),
  sealed box (5), envelope (6) and CBC, which is hexadecimal and carries no version. The first byte a text
  decodes to tells the others apart: each sealing function writes its own, and each opening function refuses
  the others before it uses a key. The CBC decoder reads any hexadecimal text; version bytes 2 and 6 put a
  character into the text that is no hexadecimal digit.
\<close>

definition wire_version :: "gostring \<Rightarrow> byte option" where
  "wire_version s =
     (case RawURLEncoding_DecodeString s of
        None \<Rightarrow> None
      | Some raw \<Rightarrow> (case raw of [] \<Rightarrow> None | v # rest \<Rightarrow> Some v))"

lemma wire_version_encode: "wire_version (RawURLEncoding_EncodeToString (v # rest)) = Some v"
  by (simp add: wire_version_def)

subsection \<open>What the sealing functions write\<close>

lemma Seal_wire: "Seal key p a rnd = (Ok c, rnd') \<Longrightarrow> wire_version c = Some VersionAEADv1"
  by (auto simp: Seal_Ok_iff frame_def wire_version_encode)

lemma SealChaCha20_wire: "SealChaCha20 new key p a rnd = (Ok c, rnd') \<Longrightarrow> wire_version c = Some VersionAEADv2"
  by (auto simp: SealChaCha20_def sealChaCha20WithNonce_def then_do_eq_Ok wire_version_encode split: if_splits)

lemma KeyRing_Seal_wire: "KeyRing_Seal r p a rnd = (Ok c, rnd') \<Longrightarrow> wire_version c = Some VersionAEADv3"
  by (auto simp: KeyRing_Seal_def Let_def then_do_eq_Ok wire_version_encode)

lemma EnvelopeSealer_Seal_wire:
  "EnvelopeSealer_Seal e p a rnd = ((Ok c, dek), rnd') \<Longrightarrow> wire_version c = Some versionEnvelopeV1"
  by (auto simp: EnvelopeSealer_Seal_def Let_def then_do_eq_Ok wire_version_encode split: prod.splits res.splits)

lemma SealAsymmetric_wire:
  "SealAsymmetric X25519 Basepoint new pub p rnd = (Ok c, rnd') \<Longrightarrow> wire_version c = Some versionAsymmetricV1"
  by (auto simp: SealAsymmetric_def then_do_eq_Ok wire_version_encode split: if_splits prod.splits res.splits)

lemma EncryptCBC_wire: "EncryptCBC key p rnd = (Ok c, rnd') \<Longrightarrow> wire_version c = Some v \<Longrightarrow> bit v 6"
  using hex_first_byte by (fastforce simp: EncryptCBC_Ok_iff wire_version_def split: option.splits list.splits)

subsection \<open>What the opening functions accept\<close>

lemma wire_version_nth:
  "RawURLEncoding_DecodeString s = Some raw \<Longrightarrow> raw \<noteq> [] \<Longrightarrow> wire_version s = Some (raw ! 0)"
  by (cases raw) (simp_all add: wire_version_def)

lemma Open_wire: "is_ok (Open key s a) \<Longrightarrow> wire_version s = Some VersionAEADv1"
  by (auto simp: is_ok_iff Open_Ok_iff frame_def wire_version_def)

lemma OpenChaCha20_wire: "is_ok (OpenChaCha20 new key s a) \<Longrightarrow> wire_version s = Some VersionAEADv2"
  by (auto simp: is_ok_iff OpenChaCha20_def and_then_eq_Ok of_option_eq go_index_def format_defs wire_version_def
      split: if_splits list.split)

lemma KeyRing_Open_wire:
  "is_ok (KeyRing_Open r order s a) \<Longrightarrow> wire_version s = Some VersionAEADv1 \<or> wire_version s = Some VersionAEADv3"
  by (auto simp: is_ok_iff KeyRing_Open_def and_then_eq_Ok of_option_eq go_index_def format_defs wire_version_def
      split: if_splits list.split)

lemma EnvelopeSealer_Open_wire: "is_ok (fst (EnvelopeSealer_Open e s a)) \<Longrightarrow> wire_version s = Some versionEnvelopeV1"
  by (auto simp: EnvelopeSealer_Open_spec unwrap_spec_def Let_def wire_version_def
      split: option.splits res.splits if_splits list.split)

lemma OpenAsymmetric_wire: "is_ok (OpenAsymmetric X25519 new priv s) \<Longrightarrow> wire_version s = Some versionAsymmetricV1"
  by (auto simp: is_ok_iff OpenAsymmetric_def and_then_eq_Ok of_option_eq go_index_def wire_version_def
      split: if_splits list.split)

subsection \<open>What the CBC decoder accepts\<close>

text \<open>The sextet of a hexadecimal digit, of either case, never starts with the bits 10.\<close>

lemma hex_sextet:
  assumes "fromHexChar c \<noteq> None"
  shows "c \<noteq> 10 \<and> c \<noteq> 13 \<and> (\<exists>s. b64_index url_alphabet c 0 = Some s \<and> (bit s 5 \<longrightarrow> bit s 4))"
proof -
  have "list_all (\<lambda>n. let c = word_of_nat n in fromHexChar c = None \<or> c \<noteq> 10 \<and> c \<noteq> 13 \<and>
      (case b64_index url_alphabet c 0 of None \<Rightarrow> False | Some s \<Rightarrow> bit s 5 \<longrightarrow> bit s 4)) [0..<256]"
    by code_simp
  moreover have "unat c < 256" using unsigned_less [of c] by simp
  ultimately have "let c = word_of_nat (unat c) in fromHexChar c = None \<or> c \<noteq> 10 \<and> c \<noteq> 13 \<and>
      (case b64_index url_alphabet c 0 of None \<Rightarrow> False | Some s \<Rightarrow> bit s 5 \<longrightarrow> bit s 4)"
    unfolding list_all_iff by fastforce
  with assms show ?thesis by (simp split: option.splits)
qed

lemma b64_join_head2:
  "b64_join (s # t # ss) = Some raw \<Longrightarrow> \<exists>rest. raw = (push_bit 2 s OR drop_bit 4 t) # rest"
  by (cases "s # t # ss" rule: b64_join.cases) auto

lemma hex_wire_version:
  assumes "hex_DecodeString s = Some bs" and "wire_version s = Some v"
  shows "bit v 1 \<longrightarrow> bit v 0"
proof (cases s rule: hex_DecodeString.cases)
  case (3 c d r)
  then have "fromHexChar c \<noteq> None" "fromHexChar d \<noteq> None" using assms(1) by (auto split: option.splits)
  then obtain x y where c: "c \<noteq> 10" "c \<noteq> 13" "b64_index url_alphabet c 0 = Some x"
    and d: "d \<noteq> 10" "d \<noteq> 13" "b64_index url_alphabet d 0 = Some y" and y: "bit y 5 \<longrightarrow> bit y 4"
    using hex_sextet by metis
  obtain raw where raw: "RawURLEncoding_DecodeString s = Some raw" "raw \<noteq> []" "hd raw = v"
    using assms(2) by (auto simp: wire_version_def split: option.splits list.splits)
  then obtain ss where "b64_join (x # y # ss) = Some raw"
    using c d by (auto simp: 3 RawURLEncoding_DecodeString_def b64_decode_def b64_skip_def bind_eq_Some_conv)
  with raw(3) have "v = push_bit 2 x OR drop_bit 4 y" using b64_join_head2 by fastforce
  with y show ?thesis by (simp add: bit_simps)
qed (use assms in \<open>simp_all add: wire_version_def RawURLEncoding_DecodeString_def b64_decode_def b64_skip_def\<close>)

lemma DecryptCBC_wire:
  "is_ok (DecryptCBC key s) \<Longrightarrow> wire_version s = Some v \<Longrightarrow> bit v 1 \<longrightarrow> bit v 0"
proof -
  assume "is_ok (DecryptCBC key s)" and v: "wire_version s = Some v"
  then have "isLikelyCBC s" using not_CBC_not_Decrypt by blast
  then obtain bs where "hex_DecodeString s = Some bs" by (auto simp: isLikelyCBC_def split: option.splits)
  from hex_wire_version [OF this v] show "bit v 1 \<longrightarrow> bit v 0" .
qed

lemma OpenAuto_is_ok: "is_ok (OpenAuto key s a) \<longleftrightarrow> is_ok (Open key s a) \<or> is_ok (DecryptCBC key s)"
  by (simp add: OpenAuto_eq)

subsection \<open>Properties\<close>

text \<open>Property C16: which formats can be confused. Take what each sealing function writes, whatever its keys, plaintext,
  data and randomness (\<open>c1\<close> AES-GCM, \<open>c2\<close> ChaCha20-Poly1305, \<open>c3\<close> key ring, \<open>c5\<close> sealed box, \<open>c6\<close> envelope, \<open>c7\<close>
  CBC). Under no key at all does \<^verbatim>\<open>Open\<close>, \<^verbatim>\<open>OpenChaCha20\<close>, \<^verbatim>\<open>KeyRing.Open\<close>, \<^verbatim>\<open>OpenAsymmetric\<close> or \<^verbatim>\<open>EnvelopeSealer.Open\<close>
  return a plaintext for another format's text, except that a key ring reads AES-GCM ciphertexts, as intended.
  CBC has no version byte: \<^verbatim>\<open>DecryptCBC\<close> and \<^verbatim>\<open>OpenAuto\<close> refuse every ChaCha20-Poly1305 text and every envelope, and
  from the other formats \<^verbatim>\<open>DecryptCBC\<close> takes nothing, and \<^verbatim>\<open>OpenAuto\<close> nothing but what \<^verbatim>\<open>Open\<close> opens, unless the text happens to be
  hexadecimal of a CBC ciphertext's length. Such texts exist: an AES-GCM text that \<^verbatim>\<open>Open\<close> refuses for its
  associated data and for which \<^verbatim>\<open>OpenAuto\<close> returns other bytes than the plaintext.\<close>

theorem formats_separate:
  assumes "Seal k1 p1 a1 rnd1 = (Ok c1, rnd1')" and "SealChaCha20 new k2 p2 a2 rnd2 = (Ok c2, rnd2')"
    and "KeyRing_Seal ring p3 a3 rnd3 = (Ok c3, rnd3')"
    and "SealAsymmetric X25519 Basepoint new pub p5 rnd5 = (Ok c5, rnd5')"
    and "EnvelopeSealer_Seal env p6 a6 rnd6 = ((Ok c6, dek), rnd6')"
    and "EncryptCBC k7 p7 rnd7 = (Ok c7, rnd7')"
  shows "list_all (\<lambda>c. \<not> is_ok (Open k c a)) [c2, c3, c5, c6, c7] \<and>
    list_all (\<lambda>c. \<not> is_ok (OpenChaCha20 new k c a)) [c1, c3, c5, c6, c7] \<and>
    list_all (\<lambda>c. \<not> is_ok (KeyRing_Open r order c a)) [c2, c5, c6, c7] \<and>
    list_all (\<lambda>c. \<not> is_ok (OpenAsymmetric X25519 new priv c)) [c1, c2, c3, c6, c7] \<and>
    list_all (\<lambda>c. \<not> is_ok (fst (EnvelopeSealer_Open e c a))) [c1, c2, c3, c5, c7] \<and>
    list_all (\<lambda>c. \<not> is_ok (DecryptCBC k c) \<and> \<not> is_ok (OpenAuto k c a)) [c2, c6] \<and>
    list_all (\<lambda>c. is_ok (DecryptCBC k c) \<longrightarrow> isLikelyCBC c) [c1, c3, c5] \<and>
    list_all (\<lambda>c. is_ok (OpenAuto k c a) \<longrightarrow> isLikelyCBC c) [c3, c5] \<and>
    (is_ok (OpenAuto k c1 a) \<longrightarrow> is_ok (Open k c1 a) \<or> isLikelyCBC c1) \<and>
    (\<exists>key pt rnd rnd' c garbage. Seal key pt [] rnd = (Ok c, rnd') \<and> \<not> is_ok (Open key c [1]) \<and>
      OpenAuto key c [1] = Ok garbage \<and> garbage \<noteq> pt)"
proof -
  have cbc: "wire_version c7 \<noteq> Some v" if "\<not> bit v 6" for v
    using EncryptCBC_wire [OF assms(6)] that by blast
  have small: "\<not> bit VersionAEADv1 6" "\<not> bit VersionAEADv2 6" "\<not> bit VersionAEADv3 6"
    "\<not> bit versionAsymmetricV1 6" "\<not> bit versionEnvelopeV1 6"
    by (simp_all add: VersionAEADv1_def VersionAEADv2_def VersionAEADv3_def versionAsymmetricV1_def versionEnvelopeV1_def)
  have distinct: "distinct [VersionAEADv1, VersionAEADv2, VersionAEADv3, versionAsymmetricV1, versionEnvelopeV1]"
    by (simp add: VersionAEADv1_def VersionAEADv2_def VersionAEADv3_def versionAsymmetricV1_def versionEnvelopeV1_def)
  note sealed = Seal_wire [OF assms(1)] SealChaCha20_wire [OF assms(2)] KeyRing_Seal_wire [OF assms(3)]
    SealAsymmetric_wire [OF assms(4)] EnvelopeSealer_Seal_wire [OF assms(5)] small [THEN cbc]
  have refused: "wire_version c \<noteq> Some VersionAEADv1 \<Longrightarrow> \<not> is_ok (Open k c a)"
    "wire_version c \<noteq> Some VersionAEADv2 \<Longrightarrow> \<not> is_ok (OpenChaCha20 new k c a)"
    "wire_version c \<noteq> Some VersionAEADv1 \<Longrightarrow> wire_version c \<noteq> Some VersionAEADv3 \<Longrightarrow> \<not> is_ok (KeyRing_Open r order c a)"
    "wire_version c \<noteq> Some versionAsymmetricV1 \<Longrightarrow> \<not> is_ok (OpenAsymmetric X25519 new priv c)"
    "wire_version c \<noteq> Some versionEnvelopeV1 \<Longrightarrow> \<not> is_ok (fst (EnvelopeSealer_Open e c a))" for c
    using Open_wire OpenChaCha20_wire KeyRing_Open_wire OpenAsymmetric_wire EnvelopeSealer_Open_wire by blast+
  have hex: "is_ok (DecryptCBC k c) \<longrightarrow> isLikelyCBC c" for c using not_CBC_not_Decrypt by blast
  have not_hex: "\<not> is_ok (DecryptCBC k c2)" "\<not> is_ok (DecryptCBC k c6)"
    using DecryptCBC_wire [of k c2] DecryptCBC_wire [of k c6]
    by (auto simp: sealed VersionAEADv2_def versionEnvelopeV1_def)
  have "\<exists>key pt rnd rnd' c garbage. Seal key pt [] rnd = (Ok c, rnd') \<and> \<not> is_ok (Open key c [1]) \<and>
      OpenAuto key c [1] = Ok garbage \<and> garbage \<noteq> pt"
    using sealed_text_read_as_cbc by fastforce
  with distinct hex not_hex show ?thesis by (simp add: refused sealed OpenAuto_is_ok not_sym)
qed

lemma formats_separate_witness:
  "\<exists>c1 c2 c3 c5 c6 c7.
     fst (Seal (replicate 32 1) [1] [] \<lparr>rd_data = replicate 12 0, rd_end = EOF\<rparr>) = Ok c1 \<and>
     fst (SealChaCha20 aes_gcm_New (replicate 32 1) [1] [] \<lparr>rd_data = replicate 12 0, rd_end = EOF\<rparr>) = Ok c2 \<and>
     fst (KeyRing_Seal demo_ring [1] [] \<lparr>rd_data = replicate 12 0, rd_end = EOF\<rparr>) = Ok c3 \<and>
     fst (SealAsymmetric sample_X25519 (replicate 32 9) aes_gcm_New (replicate 32 8) [1]
       \<lparr>rd_data = replicate 44 4, rd_end = EOF\<rparr>) = Ok c5 \<and>
     fst (EncryptCBC (replicate 32 1) [1] \<lparr>rd_data = replicate 16 0, rd_end = EOF\<rparr>) = Ok c7 \<and>
     \<not> is_ok (Open (replicate 32 1) c2 []) \<and> \<not> is_ok (OpenChaCha20 aes_gcm_New (replicate 32 1) c1 []) \<and>
     \<not> is_ok (KeyRing_Open demo_ring [] c5 []) \<and> \<not> is_ok (Open (replicate 32 1) c6 []) \<and>
     \<not> is_ok (OpenAsymmetric sample_X25519 aes_gcm_New (replicate 32 1) c7) \<and>
     \<not> is_ok (DecryptCBC (replicate 32 1) c2) \<and> \<not> is_ok (OpenAuto (replicate 32 1) c6 [])"
proof -
  let ?rnd = "\<lambda>n. \<lparr>rd_data = replicate n 0, rd_end = EOF\<rparr>" and ?key = "replicate 32 (1 :: byte)"
  let ?kms = "snd (StaticKMS_AddKey NewStaticKMS (lit ''k'') ?key)"
  have fits: "length [1 :: byte] \<le> gcm_max" by (simp add: gcm_max_def)
  obtain c1 where c1: "Seal ?key [1] [] (?rnd 12) = (Ok c1, (?rnd 12)\<lparr>rd_data := drop 12 (rd_data (?rnd 12))\<rparr>)"
    using Seal_returns [of ?key "[1]" "?rnd 12" "[]"] fits by auto
  obtain c2 where c2: "SealChaCha20 aes_gcm_New ?key [1] [] (?rnd 12) = (Ok c2, (?rnd 12)\<lparr>rd_data := drop 12 (rd_data (?rnd 12))\<rparr>)"
    using aes_gcm.SealChaCha20_OpenChaCha20 [of ?key "[1]" "?rnd 12" "[]"] fits by auto
  obtain c3 rnd3 where c3: "KeyRing_Seal demo_ring [1] [] (?rnd 12) = (Ok c3, rnd3)"
    using KeyRing_Seal_returns [OF ring_reachable_wf [OF demo_ring_reachable] fits, of "?rnd 12" "[]"] by auto
  have pub: "sample_X25519 ?key (replicate 32 9) = Ok (replicate 32 8)"
    by (simp add: sample_X25519_def xor_bytes_def)
  obtain c5 rnd5 where c5: "SealAsymmetric sample_X25519 (replicate 32 9) aes_gcm_New (replicate 32 8) [1]
      \<lparr>rd_data = replicate 44 4, rd_end = EOF\<rparr> = (Ok c5, rnd5)"
  proof -
    have "is_ok (sample_X25519 (take 32 (replicate 44 4)) (replicate 32 8))" by (simp add: sample_X25519_def)
    then show thesis
      using asymmetric_Seal_Open [OF aes_gcm.aead_new_axioms sample_X25519_spec _ pub _ fits,
          of "\<lparr>rd_data = replicate 44 4, rd_end = EOF\<rparr>"] that by auto
  qed
  have "kek_registered ?kms (lit ''k'')"
    using StaticKMS_AddKey_registered [of ?key NewStaticKMS "lit ''k''"] by auto
  from static.envelope_Seal_Open [OF this fits, of "?rnd 56" "[]"] obtain c6 rnd6 where
    c6: "EnvelopeSealer_Seal (NewEnvelopeSealer (static_kms ?kms) (lit ''k'')) [1] [] (?rnd 56) = ((Ok c6, replicate 32 0), rnd6)"
    by auto
  obtain c7 rnd7 where c7: "EncryptCBC ?key [1] (?rnd 16) = (Ok c7, rnd7)"
    using EncryptCBC_returns [of ?key "?rnd 16" "[1]"] by (auto simp: aes_key_size_def)
  note sep = formats_separate [OF c1 c2 c3 c5 c6 c7, unfolded list.pred_inject]
  show ?thesis
    by (rule exI [of _ c1], rule exI [of _ c2], rule exI [of _ c3], rule exI [of _ c5], rule exI [of _ c6],
        rule exI [of _ c7]) (simp only: c1 c2 c3 c5 c7 fst_conv sep simp_thms)
qed

end
