(* ===== verification/Utf8.thy ===== *)
theory Utf8
  imports Prelude
begin

text \<open>
  \<^verbatim>\<open>unicode/utf8\<close>: \<^verbatim>\<open>DecodeRune\<close> and \<^verbatim>\<open>EncodeRune\<close>, which \<^verbatim>\<open>encoding/json\<close> reads and writes strings with. A rune is
  a number; the masks and shifts of the library are written as arithmetic on the byte ranges in which they
  apply. An invalid sequence decodes to \<open>(RuneError, 1)\<close>, the empty one to \<open>(RuneError, 0)\<close>.
\<close>

subsection \<open>Model\<close>

definition RuneError :: nat where
  "RuneError = 0xFFFD"

definition cont_range :: "byte \<Rightarrow> byte \<times> byte" where
  "cont_range b0 =
     (if b0 = 0xE0 then (0xA0, 0xBF) else if b0 = 0xED then (0x80, 0x9F)
      else if b0 = 0xF0 then (0x90, 0xBF) else if b0 = 0xF4 then (0x80, 0x8F) else (0x80, 0xBF))"

definition in_range :: "byte \<Rightarrow> byte \<times> byte \<Rightarrow> bool" where
  "in_range b r \<longleftrightarrow> fst r \<le> b \<and> b \<le> snd r"

definition DecodeRune :: "bytes \<Rightarrow> nat \<times> nat" where
  "DecodeRune p =
     (case p of
        [] \<Rightarrow> (RuneError, 0)
      | b0 # p' \<Rightarrow>
          if b0 < 0x80 then (unat b0, 1)
          else if b0 < 0xC2 \<or> 0xF4 < b0 then (RuneError, 1)
          else
            let sz = (if b0 < 0xE0 then 2 else if b0 < 0xF0 then 3 else 4) in
            if length p < sz then (RuneError, 1)
            else if \<not> in_range (p ! 1) (cont_range b0) then (RuneError, 1)
            else if sz = 2 then ((unat b0 - 0xC0) * 64 + (unat (p ! 1) - 0x80), 2)
            else if \<not> in_range (p ! 2) (0x80, 0xBF) then (RuneError, 1)
            else if sz = 3
            then ((unat b0 - 0xE0) * 4096 + (unat (p ! 1) - 0x80) * 64 + (unat (p ! 2) - 0x80), 3)
            else if \<not> in_range (p ! 3) (0x80, 0xBF) then (RuneError, 1)
            else ((unat b0 - 0xF0) * 262144 + (unat (p ! 1) - 0x80) * 4096 + (unat (p ! 2) - 0x80) * 64
                    + (unat (p ! 3) - 0x80), 4))"

definition EncodeRune :: "nat \<Rightarrow> bytes" where
  "EncodeRune r =
     (let r = (if (0xD800 \<le> r \<and> r \<le> 0xDFFF) \<or> 0x10FFFF < r then RuneError else r) in
      if r \<le> 0x7F then [word_of_nat r]
      else if r \<le> 0x7FF then [word_of_nat (0xC0 + r div 64), word_of_nat (0x80 + r mod 64)]
      else if r \<le> 0xFFFF
      then [word_of_nat (0xE0 + r div 4096), word_of_nat (0x80 + r div 64 mod 64), word_of_nat (0x80 + r mod 64)]
      else [word_of_nat (0xF0 + r div 262144), word_of_nat (0x80 + r div 4096 mod 64),
            word_of_nat (0x80 + r div 64 mod 64), word_of_nat (0x80 + r mod 64)])"

text \<open>The conversion of a byte string to valid UTF-8: every invalid byte becomes U+FFFD.\<close>

function ToValidUTF8 :: "bytes \<Rightarrow> bytes" where
  "ToValidUTF8 p =
     (if p = [] then []
      else case DecodeRune p of (r, n) \<Rightarrow>
        (if r = RuneError \<and> n = 1 then EncodeRune RuneError else take n p) @ ToValidUTF8 (drop (max 1 n) p))"
  by pat_completeness auto
termination
  by (relation "measure length") auto

declare ToValidUTF8.simps [simp del]

definition ValidUTF8 :: "bytes \<Rightarrow> bool" where
  "ValidUTF8 p \<longleftrightarrow> ToValidUTF8 p = p"

subsection \<open>A decoded rune is encoded by the bytes it was read from\<close>

lemma byte_le_iff: "(b :: byte) \<le> c \<longleftrightarrow> unat b \<le> unat c" "(b :: byte) < c \<longleftrightarrow> unat b < unat c"
  by (simp_all add: word_le_nat_alt word_less_nat_alt)

lemma byte_of_unat: "unat (b :: byte) = n \<Longrightarrow> word_of_nat n = b"
  by auto

lemma DecodeRune_ascii: "b < 0x80 \<Longrightarrow> DecodeRune (b # p) = (unat b, 1)"
  by (simp add: DecodeRune_def)

lemma ToValidUTF8_Nil [simp]: "ToValidUTF8 [] = []"
  by (simp add: ToValidUTF8.simps)

lemma ToValidUTF8_ascii: "b < 0x80 \<Longrightarrow> ToValidUTF8 (b # p) = b # ToValidUTF8 p"
  by (subst ToValidUTF8.simps) (simp add: DecodeRune_ascii RuneError_def byte_le_iff)

lemma EncodeRune_2:
  assumes "unat b0 = 0xC0 + x" and "2 \<le> x" and "x < 32" and "unat b1 = 0x80 + y" and "y < 64"
  shows "EncodeRune (x * 64 + y) = [b0, b1]"
  using assms byte_of_unat [OF assms(1)] byte_of_unat [OF assms(4)]
  by (simp add: EncodeRune_def Let_def)

lemma horner_digits:
  fixes y z :: nat
  assumes "z < 64"
  shows "(y * 64 + z) div 64 = y" "(y * 64 + z) mod 64 = z"
  using assms by simp_all

lemma div_64_powers: "(n :: nat) div 4096 = n div 64 div 64" "(n :: nat) div 262144 = n div 64 div 64 div 64"
  by (simp_all flip: div_mult2_eq)

lemma horner_3: "x * 4096 + y * 64 + z = (x * 64 + y) * 64 + (z :: nat)"
  and horner_4: "x * 262144 + y * 4096 + z * 64 + w = ((x * 64 + y) * 64 + z) * 64 + (w :: nat)"
  by simp_all

lemma byte_eq_iff: "(b :: byte) = c \<longleftrightarrow> unat b = unat c"
  by (rule word_unat_eq_iff)

lemma EncodeRune_3:
  assumes "unat b0 = 0xE0 + x" and "x < 16" and "unat b1 = 0x80 + y" and "y < 64" and "unat b2 = 0x80 + z" and "z < 64"
    and "x = 0 \<longrightarrow> 32 \<le> y" and "x = 13 \<longrightarrow> y < 32"
  shows "EncodeRune ((x * 64 + y) * 64 + z) = [b0, b1, b2]"
proof -
  define r where "r = (x * 64 + y) * 64 + z"
  have parts: "r div 4096 = x" "r div 64 mod 64 = y" "r mod 64 = z"
    by (simp_all only: r_def div_64_powers horner_digits assms(4,6))
  have x: "x < 13 \<or> x = 13 \<or> 14 \<le> x" by linarith
  have "0x7FF < r" using assms(7) unfolding r_def by (cases "x = 0") auto
  moreover have "r \<le> 0xFFFF" using assms(2,4,6) by (simp add: r_def)
  moreover have "\<not> (0xD800 \<le> r \<and> r \<le> 0xDFFF)" using x assms(4,6,8) unfolding r_def by (elim disjE) auto
  ultimately show ?thesis
    using byte_of_unat [OF assms(1)] byte_of_unat [OF assms(3)] byte_of_unat [OF assms(5)]
    unfolding r_def [symmetric] by (auto simp: EncodeRune_def Let_def parts)
qed

lemma EncodeRune_4:
  assumes "unat b0 = 0xF0 + x" and "x \<le> 4" and "unat b1 = 0x80 + y" and "y < 64" and "unat b2 = 0x80 + z" and "z < 64"
    and "unat b3 = 0x80 + w" and "w < 64" and "x = 0 \<longrightarrow> 16 \<le> y" and "x = 4 \<longrightarrow> y < 16"
  shows "EncodeRune (((x * 64 + y) * 64 + z) * 64 + w) = [b0, b1, b2, b3]"
proof -
  define r where "r = ((x * 64 + y) * 64 + z) * 64 + w"
  have parts: "r div 262144 = x" "r div 4096 mod 64 = y" "r div 64 mod 64 = z" "r mod 64 = w"
    by (simp_all only: r_def div_64_powers horner_digits assms(4,6,8))
  have "0xFFFF < r" using assms(9) unfolding r_def by (cases "x = 0") auto
  moreover have "r \<le> 0x10FFFF"
    using assms(2,4,6,8,10) unfolding r_def by (cases "x = 4") auto
  ultimately show ?thesis
    using byte_of_unat [OF assms(1)] byte_of_unat [OF assms(3)] byte_of_unat [OF assms(5)] byte_of_unat [OF assms(7)]
    unfolding r_def [symmetric] by (auto simp: EncodeRune_def Let_def parts)
qed

text \<open>
  What the decoder accepts as a multi-byte rune it encodes back to the bytes read, whatever follows them.
\<close>

lemma DecodeRune_multi:
  assumes "DecodeRune p = (r, n)" and "p \<noteq> []" and "0x80 \<le> hd p" and "\<not> (r = RuneError \<and> n = 1)"
  shows "2 \<le> n \<and> n \<le> length p \<and> EncodeRune r = take n p \<and> DecodeRune (take n p @ q) = (r, n) \<and>
    list_all (\<lambda>b. 0x80 \<le> b) (take n p)"
proof -
  obtain b0 p' where p: "p = b0 # p'" using assms(2) by (cases p) auto
  have b0: "\<not> b0 < 0x80" using assms(3) by (simp add: p byte_le_iff)
  note dec = assms(1) [unfolded p DecodeRune_def list.case Let_def]
  have lead: "\<not> (b0 < 0xC2 \<or> 0xF4 < b0)" using dec assms(4) b0 by (auto split: if_splits)
  then have lead': "0xC2 \<le> unat b0" "unat b0 \<le> 0xF4" by (simp_all add: byte_le_iff)
  consider (two) "b0 < 0xE0" | (three) "\<not> b0 < 0xE0" "b0 < 0xF0" | (four) "\<not> b0 < 0xF0" "\<not> b0 < 0xE0"
    by (metis order.strict_trans2 linorder_not_less order.trans)
  then show ?thesis
  proof cases
    case two
    with dec assms(4) b0 lead obtain b1 p'' where p': "p' = b1 # p''"
      by (cases p') (auto split: if_splits)
    from two dec assms(4) b0 lead have r: "in_range b1 (cont_range b0)" "n = 2"
        "r = (unat b0 - 0xC0) * 64 + (unat b1 - 0x80)"
      by (auto simp: p' split: if_splits)
    have "b0 \<noteq> 0xE0" "b0 \<noteq> 0xED" "b0 \<noteq> 0xF0" "b0 \<noteq> 0xF4" using two by (auto simp: byte_le_iff)
    then have b1: "0x80 \<le> unat b1" "unat b1 \<le> 0xBF" using r(1) by (auto simp: cont_range_def in_range_def byte_le_iff)
    have "EncodeRune r = [b0, b1]"
      unfolding r(3) using lead' two b1 by (intro EncodeRune_2) (auto simp: byte_le_iff)
    moreover have "list_all (\<lambda>b. 0x80 \<le> b) [b0, b1]" using lead' b1 by (simp add: byte_le_iff)
    ultimately show ?thesis using r b0 lead two by (simp add: p p' DecodeRune_def)
  next
    case three
    with dec assms(4) b0 lead obtain b1 b2 p'' where p': "p' = b1 # b2 # p''"
      by (cases p'; cases "tl p'") (auto split: if_splits)
    from three dec assms(4) b0 lead have r: "in_range b1 (cont_range b0)" "in_range b2 (0x80, 0xBF)" "n = 3"
        "r = (unat b0 - 0xE0) * 4096 + (unat b1 - 0x80) * 64 + (unat b2 - 0x80)"
      by (auto simp: p' split: if_splits)
    have b1: "0x80 \<le> unat b1" "unat b1 \<le> 0xBF" "b0 = 0xE0 \<longrightarrow> 0xA0 \<le> unat b1" "b0 = 0xED \<longrightarrow> unat b1 \<le> 0x9F"
      using r(1) three by (auto simp: cont_range_def in_range_def byte_le_iff split: if_splits)
    have b2: "0x80 \<le> unat b2" "unat b2 \<le> 0xBF" using r(2) by (simp_all add: in_range_def byte_le_iff)
    have "EncodeRune r = [b0, b1, b2]"
      unfolding r(4) horner_3 using lead' three b1 b2
      by (intro EncodeRune_3) (auto simp: byte_le_iff byte_eq_iff)
    moreover have "list_all (\<lambda>b. 0x80 \<le> b) [b0, b1, b2]" using lead' b1 b2 by (simp add: byte_le_iff)
    ultimately show ?thesis using r b0 lead three by (simp add: p p' DecodeRune_def)
  next
    case four
    with dec assms(4) b0 lead obtain b1 b2 b3 p'' where p': "p' = b1 # b2 # b3 # p''"
      by (cases p'; cases "tl p'"; cases "tl (tl p')") (auto split: if_splits)
    from four dec assms(4) b0 lead have r: "in_range b1 (cont_range b0)" "in_range b2 (0x80, 0xBF)"
        "in_range b3 (0x80, 0xBF)" "n = 4"
        "r = (unat b0 - 0xF0) * 262144 + (unat b1 - 0x80) * 4096 + (unat b2 - 0x80) * 64 + (unat b3 - 0x80)"
      by (auto simp: p' split: if_splits)
    have b1: "0x80 \<le> unat b1" "unat b1 \<le> 0xBF" "b0 = 0xF0 \<longrightarrow> 0x90 \<le> unat b1" "b0 = 0xF4 \<longrightarrow> unat b1 \<le> 0x8F"
      using r(1) four by (auto simp: cont_range_def in_range_def byte_le_iff split: if_splits)
    have b23: "0x80 \<le> unat b2" "unat b2 \<le> 0xBF" "0x80 \<le> unat b3" "unat b3 \<le> 0xBF"
      using r(2,3) by (simp_all add: in_range_def byte_le_iff)
    have "EncodeRune r = [b0, b1, b2, b3]"
      unfolding r(5) horner_4 using lead' four b1 b23
      by (intro EncodeRune_4) (auto simp: byte_le_iff byte_eq_iff)
    moreover have "list_all (\<lambda>b. 0x80 \<le> b) [b0, b1, b2, b3]" using lead' b1 b23 by (simp add: byte_le_iff)
    ultimately show ?thesis using r b0 lead four by (simp add: p p' DecodeRune_def)
  qed
qed

end
