(* ===== verification/Json.thy ===== *)
theory Json
  imports GoText Utf8
begin

text \<open>
  \<^verbatim>\<open>encoding/json\<close> as far as the examples use it: \<^verbatim>\<open>Marshal\<close> of structs with string, integer and
  string-slice fields (HTML escaping on, invalid UTF-8 replaced), and \<^verbatim>\<open>Unmarshal\<close> of any input into such a
  struct. Reading is split as in the library: the text is first checked and cut into values (a document
  tree here), then the tree is assigned to the fields. A failed assignment makes the whole call fail, as
  the callers discard the struct on error; keys match a field name up to case, unknown keys are skipped,
  the last of several equal keys wins and \<^verbatim>\<open>null\<close> changes nothing.
\<close>

subsection \<open>Writing\<close>

definition html_safe :: "byte \<Rightarrow> bool" where
  "html_safe b \<longleftrightarrow> 0x20 \<le> b \<and> b < 0x80 \<and> b \<noteq> 34 \<and> b \<noteq> 92 \<and> b \<noteq> 60 \<and> b \<noteq> 62 \<and> b \<noteq> 38"

definition hex_digit :: "nat \<Rightarrow> byte" where
  "hex_digit d = (if d < 10 then 48 + word_of_nat d else 87 + word_of_nat d)"

definition escape :: "byte \<Rightarrow> gostring" where
  "escape b =
     (if b = 34 \<or> b = 92 then [92, b]
      else if b = 8 then [92, 98] else if b = 12 then [92, 102] else if b = 10 then [92, 110]
      else if b = 13 then [92, 114] else if b = 9 then [92, 116]
      else [92, 117, 48, 48, hex_digit (unat b div 16), hex_digit (unat b mod 16)])"

text \<open>The text of one rune of \<open>n\<close> bytes at the head of \<open>p\<close>, outside ASCII.\<close>

definition quote_rune :: "nat \<Rightarrow> nat \<Rightarrow> gostring \<Rightarrow> gostring" where
  "quote_rune r n p =
     (if r = RuneError \<and> n = 1 then 92 # lit ''ufffd''
      else if r = 0x2028 \<or> r = 0x2029 then 92 # lit ''u202'' @ [hex_digit (r mod 16)]
      else take n p)"

function quote_body :: "gostring \<Rightarrow> gostring" where
  "quote_body p =
     (if p = [] then []
      else if hd p < 0x80 then (if html_safe (hd p) then [hd p] else escape (hd p)) @ quote_body (tl p)
      else case DecodeRune p of (r, n) \<Rightarrow> quote_rune r n p @ quote_body (drop (max 1 n) p))"
  by pat_completeness auto
termination
  by (relation "measure length") auto

declare quote_body.simps [simp del]

definition json_quote :: "gostring \<Rightarrow> gostring" where
  "json_quote p = [34] @ quote_body p @ [34]"

subsection \<open>Strings and numbers read from the text\<close>

definition hex_value :: "byte \<Rightarrow> nat option" where
  "hex_value c =
     (if 48 \<le> c \<and> c \<le> 57 then Some (unat c - 48)
      else if 97 \<le> c \<and> c \<le> 102 then Some (unat c - 87)
      else if 65 \<le> c \<and> c \<le> 70 then Some (unat c - 55) else None)"

text \<open>The raw text of a string literal after its opening quote, and what follows the closing one.\<close>

fun scan_string :: "gostring \<Rightarrow> (gostring \<times> gostring) option" where
  "scan_string [] = None"
| "scan_string (c # s) =
     (if c = 34 then Some ([], s)
      else if c = 92 then
        (case s of
           [] \<Rightarrow> None
         | e # s' \<Rightarrow>
             if e = 117 then
               (case s' of
                  h1 # h2 # h3 # h4 # s'' \<Rightarrow>
                    if hex_value h1 = None \<or> hex_value h2 = None \<or> hex_value h3 = None \<or> hex_value h4 = None then None
                    else map_option (\<lambda>(t, r). (92 # 117 # h1 # h2 # h3 # h4 # t, r)) (scan_string s'')
                | _ \<Rightarrow> None)
             else if e \<in> {98, 102, 110, 114, 116, 92, 47, 34}
             then map_option (\<lambda>(t, r). (92 # e # t, r)) (scan_string s')
             else None)
      else if c < 0x20 then None
      else map_option (\<lambda>(t, r). (c # t, r)) (scan_string s))"

definition getu4 :: "gostring \<Rightarrow> nat option" where
  "getu4 s =
     (case s of
        b # u # h1 # h2 # h3 # h4 # s' \<Rightarrow>
          if b = 92 \<and> u = 117 then
            (case (hex_value h1, hex_value h2, hex_value h3, hex_value h4) of
               (Some a1, Some a2, Some a3, Some a4) \<Rightarrow> Some (((a1 * 16 + a2) * 16 + a3) * 16 + a4)
             | _ \<Rightarrow> None)
          else None
      | _ \<Rightarrow> None)"

definition IsSurrogate :: "nat \<Rightarrow> bool" where
  "IsSurrogate r \<longleftrightarrow> 0xD800 \<le> r \<and> r < 0xE000"

text \<open>\<^verbatim>\<open>utf16.DecodeRune\<close>: \<open>None\<close> where the library returns U+FFFD.\<close>

definition utf16_DecodeRune :: "nat \<Rightarrow> nat \<Rightarrow> nat option" where
  "utf16_DecodeRune r1 r2 =
     (if 0xD800 \<le> r1 \<and> r1 < 0xDC00 \<and> 0xDC00 \<le> r2 \<and> r2 < 0xE000
      then Some ((r1 - 0xD800) * 1024 + (r2 - 0xDC00) + 0x10000) else None)"

definition unescape :: "byte \<Rightarrow> byte option" where
  "unescape e =
     (if e \<in> {34, 92, 47, 39} then Some e
      else if e = 98 then Some 8 else if e = 102 then Some 12 else if e = 110 then Some 10
      else if e = 114 then Some 13 else if e = 116 then Some 9 else None)"

function unquote :: "gostring \<Rightarrow> gostring option" where
  "unquote s =
     (if s = [] then Some []
      else if hd s = 92 then
        (if tl s = [] then None
         else if hd (tl s) = 117 then
           (case getu4 s of
              None \<Rightarrow> None
            | Some rr \<Rightarrow>
                if IsSurrogate rr then
                  (case (case getu4 (drop 6 s) of None \<Rightarrow> None | Some rr1 \<Rightarrow> utf16_DecodeRune rr rr1) of
                     Some d \<Rightarrow> map_option ((@) (EncodeRune d)) (unquote (drop 12 s))
                   | None \<Rightarrow> map_option ((@) (EncodeRune RuneError)) (unquote (drop 6 s)))
                else map_option ((@) (EncodeRune rr)) (unquote (drop 6 s)))
         else
           (case unescape (hd (tl s)) of
              None \<Rightarrow> None
            | Some c \<Rightarrow> map_option ((#) c) (unquote (drop 2 s))))
      else if hd s = 34 \<or> hd s < 0x20 then None
      else if hd s < 0x80 then map_option ((#) (hd s)) (unquote (tl s))
      else case DecodeRune s of (r, n) \<Rightarrow> map_option ((@) (EncodeRune r)) (unquote (drop (max 1 n) s)))"
  by pat_completeness auto
termination
  by (relation "measure length") auto

declare unquote.simps [simp del]

text \<open>The raw text of a number, and what follows it.\<close>

definition scan_digits :: "gostring \<Rightarrow> gostring \<times> gostring" where
  "scan_digits s = (takeWhile is_digit s, dropWhile is_digit s)"

definition scan_int_part :: "gostring \<Rightarrow> (gostring \<times> gostring) option" where
  "scan_int_part s =
     (case s of
        [] \<Rightarrow> None
      | c # s' \<Rightarrow> if c = 48 then Some ([c], s') else if is_digit c then Some (scan_digits s) else None)"

definition scan_frac :: "gostring \<Rightarrow> (gostring \<times> gostring) option" where
  "scan_frac s =
     (if s \<noteq> [] \<and> hd s = 46 then
        (case scan_digits (tl s) of (d, r) \<Rightarrow> if d = [] then None else Some (46 # d, r))
      else Some ([], s))"

definition scan_exp :: "gostring \<Rightarrow> (gostring \<times> gostring) option" where
  "scan_exp s =
     (if s \<noteq> [] \<and> (hd s = 101 \<or> hd s = 69) then
        (let sg = (if tl s \<noteq> [] \<and> (hd (tl s) = 43 \<or> hd (tl s) = 45) then [hd (tl s)] else []) in
         case scan_digits (drop (1 + length sg) s) of
           (d, r) \<Rightarrow> if d = [] then None else Some (hd s # sg @ d, r))
      else Some ([], s))"

definition scan_number :: "gostring \<Rightarrow> (gostring \<times> gostring) option" where
  "scan_number s =
     (let sg = (if s \<noteq> [] \<and> hd s = 45 then [45] else []) in
      case scan_int_part (drop (length sg) s) of
        None \<Rightarrow> None
      | Some (i, s) \<Rightarrow>
          (case scan_frac s of
             None \<Rightarrow> None
           | Some (f, s) \<Rightarrow>
               (case scan_exp s of None \<Rightarrow> None | Some (e, s) \<Rightarrow> Some (sg @ i @ f @ e, s))))"

subsection \<open>The document tree\<close>

datatype json =
    JNull
  | JBool bool
  | JNum gostring
  | JStr gostring
  | JArr "json list"
  | JObj "(gostring \<times> json) list"

definition skip_ws :: "gostring \<Rightarrow> gostring" where
  "skip_ws s = dropWhile (\<lambda>c. c \<in> {32, 9, 10, 13}) s"

definition parse_string :: "gostring \<Rightarrow> (gostring \<times> gostring) option" where
  "parse_string s =
     (case scan_string s of
        None \<Rightarrow> None
      | Some (t, r) \<Rightarrow> map_option (\<lambda>u. (u, r)) (unquote t))"

definition parse_word :: "gostring \<Rightarrow> json \<Rightarrow> gostring \<Rightarrow> (json \<times> gostring) option" where
  "parse_word w v s = (if take (length w) s = w then Some (v, drop (length w) s) else None)"

text \<open>
  \<open>d\<close> is the number of further levels the nesting limit of the library (10000) leaves. The values before
  the recursive calls are shorter than the input; the tests that say so make the functions total and are
  always true (\<open>parse_shrinks\<close>).
\<close>

function parse_value :: "nat \<Rightarrow> gostring \<Rightarrow> (json \<times> gostring) option"
  and parse_elems :: "nat \<Rightarrow> gostring \<Rightarrow> (json list \<times> gostring) option"
  and parse_members :: "nat \<Rightarrow> gostring \<Rightarrow> ((gostring \<times> json) list \<times> gostring) option" where
  "parse_value d s =
     (case skip_ws s of
        [] \<Rightarrow> None
      | c # r \<Rightarrow>
          if c = 34 then map_option (\<lambda>(t, r). (JStr t, r)) (parse_string r)
          else if c = 123 then
            (if d = 0 then None
             else if skip_ws r \<noteq> [] \<and> hd (skip_ws r) = 125 then Some (JObj [], tl (skip_ws r))
             else if length r < length s then map_option (\<lambda>(ms, r). (JObj ms, r)) (parse_members (d - 1) r)
             else None)
          else if c = 91 then
            (if d = 0 then None
             else if skip_ws r \<noteq> [] \<and> hd (skip_ws r) = 93 then Some (JArr [], tl (skip_ws r))
             else if length r < length s then map_option (\<lambda>(vs, r). (JArr vs, r)) (parse_elems (d - 1) r)
             else None)
          else if c = 116 then parse_word (lit ''true'') (JBool True) (c # r)
          else if c = 102 then parse_word (lit ''false'') (JBool False) (c # r)
          else if c = 110 then parse_word (lit ''null'') JNull (c # r)
          else map_option (\<lambda>(t, r). (JNum t, r)) (scan_number (c # r)))"
| "parse_elems d s =
     (case parse_value d s of
        None \<Rightarrow> None
      | Some (v, r) \<Rightarrow>
          (case skip_ws r of
             [] \<Rightarrow> None
           | c # r \<Rightarrow>
               if c = 93 then Some ([v], r)
               else if c = 44 \<and> length r < length s
               then map_option (\<lambda>(vs, r). (v # vs, r)) (parse_elems d r)
               else None))"
| "parse_members d s =
     (case skip_ws s of
        [] \<Rightarrow> None
      | c # r \<Rightarrow>
          if c \<noteq> 34 then None
          else
            (case parse_string r of
               None \<Rightarrow> None
             | Some (k, r) \<Rightarrow>
                 (case skip_ws r of
                    [] \<Rightarrow> None
                  | c # r \<Rightarrow>
                      if c \<noteq> 58 \<or> \<not> length r < length s then None
                      else
                        (case parse_value d r of
                           None \<Rightarrow> None
                         | Some (v, r) \<Rightarrow>
                             (case skip_ws r of
                                [] \<Rightarrow> None
                              | c # r \<Rightarrow>
                                  if c = 125 then Some ([(k, v)], r)
                                  else if c = 44 \<and> length r < length s
                                  then map_option (\<lambda>(ms, r). ((k, v) # ms, r)) (parse_members d r)
                                  else None)))))"
  by pat_completeness auto
termination
  by (relation "measure (\<lambda>x. case x of Inl (d, s) \<Rightarrow> 2 * length s
      | Inr (Inl (d, s)) \<Rightarrow> 2 * length s + 1 | Inr (Inr (d, s)) \<Rightarrow> 2 * length s + 1)") auto

declare parse_value.simps [simp del] parse_elems.simps [simp del] parse_members.simps [simp del]

definition parse_json :: "gostring \<Rightarrow> json option" where
  "parse_json s =
     (case parse_value 10000 s of
        None \<Rightarrow> None
      | Some (v, r) \<Rightarrow> if skip_ws r = [] then Some v else None)"

subsection \<open>Assignment to the fields\<close>

definition assign_string :: "json \<Rightarrow> gostring \<Rightarrow> gostring option" where
  "assign_string v old = (case v of JNull \<Rightarrow> Some old | JStr t \<Rightarrow> Some t | _ \<Rightarrow> None)"

definition assign_int64 :: "json \<Rightarrow> int \<Rightarrow> int option" where
  "assign_int64 v old = (case v of JNull \<Rightarrow> Some old | JNum t \<Rightarrow> ParseInt t | _ \<Rightarrow> None)"

text \<open>
  A slice is its backing array and its length. Elements are assigned in place, so that a \<^verbatim>\<open>null\<close> element
  keeps what an earlier array under the same key had put there.
\<close>

fun assign_elems :: "json list \<Rightarrow> nat \<Rightarrow> gostring list \<Rightarrow> gostring list option" where
  "assign_elems [] i backing = Some backing"
| "assign_elems (v # vs) i backing =
     (case assign_string v (if i < length backing then backing ! i else []) of
        None \<Rightarrow> None
      | Some t \<Rightarrow> assign_elems vs (Suc i) (if i < length backing then backing[i := t] else backing @ [t]))"

definition assign_slice :: "json \<Rightarrow> gostring list \<times> nat \<Rightarrow> (gostring list \<times> nat) option" where
  "assign_slice v old =
     (case v of
        JNull \<Rightarrow> Some ([], 0)
      | JArr vs \<Rightarrow>
          if vs = [] then Some ([], 0) else map_option (\<lambda>b. (b, length vs)) (assign_elems vs 0 (fst old))
      | _ \<Rightarrow> None)"

text \<open>
  The field names are single lower-case letters. A key matches one when it is that letter, its upper
  case, or, for \<open>s\<close>, the long s U+017F, which folds to it.
\<close>

definition key_matches :: "byte \<Rightarrow> gostring \<Rightarrow> bool" where
  "key_matches name key \<longleftrightarrow> key = [name] \<or> key = [name - 32] \<or> name = 115 \<and> key = [0xC5, 0xBF]"

text \<open>\<open>assign_fields f v x\<close>: the object \<open>v\<close> assigned key by key with \<open>f\<close> to the struct \<open>x\<close>.\<close>

fun assign_members :: "(gostring \<Rightarrow> json \<Rightarrow> 'r \<Rightarrow> 'r option) \<Rightarrow> (gostring \<times> json) list \<Rightarrow> 'r \<Rightarrow> 'r option" where
  "assign_members f [] x = Some x"
| "assign_members f ((k, v) # ms) x =
     (case f k v x of None \<Rightarrow> None | Some x \<Rightarrow> assign_members f ms x)"

definition Unmarshal :: "(gostring \<Rightarrow> json \<Rightarrow> 'r \<Rightarrow> 'r option) \<Rightarrow> 'r \<Rightarrow> gostring \<Rightarrow> 'r option" where
  "Unmarshal f x s =
     (case parse_json s of
        None \<Rightarrow> None
      | Some v \<Rightarrow> (case v of JNull \<Rightarrow> Some x | JObj ms \<Rightarrow> assign_members f ms x | _ \<Rightarrow> None))"

subsection \<open>Each parser consumes input\<close>

lemma scan_string_shrinks: "scan_string s = Some (t, r) \<Longrightarrow> length r < length s"
proof (induction s arbitrary: t rule: scan_string.induct)
  case (2 c s)
  then show ?case by (fastforce split: if_splits list.splits)
qed simp

lemma parse_string_shrinks: "parse_string s = Some (t, r) \<Longrightarrow> length r < length s"
  by (auto simp: parse_string_def split: option.splits dest: scan_string_shrinks)

lemma scan_digits_shrinks: "scan_digits s = (d, r) \<Longrightarrow> length r \<le> length s"
  by (auto simp: scan_digits_def length_dropWhile_le)

lemma scan_int_part_shrinks: "scan_int_part s = Some (t, r) \<Longrightarrow> length r < length s"
  by (cases s) (auto simp: scan_int_part_def scan_digits_def less_Suc_eq_le length_dropWhile_le split: if_splits)

lemma scan_frac_shrinks: "scan_frac s = Some (t, r) \<Longrightarrow> length r \<le> length s"
  using scan_digits_shrinks [of "tl s"] by (fastforce simp: scan_frac_def split: if_splits prod.splits)

lemma scan_exp_shrinks: "scan_exp s = Some (t, r) \<Longrightarrow> length r \<le> length s"
  using scan_digits_shrinks by (fastforce simp: scan_exp_def Let_def split: if_splits prod.splits)

lemma scan_number_shrinks:
  assumes "scan_number s = Some (t, r)"
  shows "length r < length s"
proof -
  let ?sg = "if s \<noteq> [] \<and> hd s = 45 then [45 :: byte] else []"
  obtain i s1 f s2 e where s: "scan_int_part (drop (length ?sg) s) = Some (i, s1)" "scan_frac s1 = Some (f, s2)"
      "scan_exp s2 = Some (e, r)"
    using assms by (auto simp: scan_number_def Let_def split: option.splits prod.splits if_splits)
  show ?thesis
    using scan_int_part_shrinks [OF s(1)] scan_frac_shrinks [OF s(2)] scan_exp_shrinks [OF s(3)] by simp
qed

lemma skip_ws_shrinks: "length (skip_ws s) \<le> length s"
  by (simp add: skip_ws_def length_dropWhile_le)

lemma skip_ws_Cons_shrinks: "skip_ws s = c # r \<Longrightarrow> length r < length s"
  using skip_ws_shrinks [of s] by simp

lemma parse_value_shrinks:
  assumes "parse_value d s = Some (v, r)"
    and elems: "\<And>d s' vs r. length s' < length s \<Longrightarrow> parse_elems d s' = Some (vs, r) \<Longrightarrow> length r < length s'"
    and members: "\<And>d s' ms r. length s' < length s \<Longrightarrow> parse_members d s' = Some (ms, r) \<Longrightarrow> length r < length s'"
  shows "length r < length s"
proof -
  obtain c s' where s': "skip_ws s = c # s'" "length s' < length s"
    using assms(1) skip_ws_Cons_shrinks [of s] by (auto simp: parse_value.simps [of d s] split: list.splits)
  have "length r < length (c # s')"
    using assms(1) s' skip_ws_shrinks [of s'] unfolding parse_value.simps [of d s]
    by (auto simp: parse_word_def lit_def less_Suc_eq_le split: if_splits
        dest!: parse_string_shrinks scan_number_shrinks elems [OF s'(2)] members [OF s'(2)])
  then show ?thesis using s' skip_ws_shrinks [of s] by simp
qed

lemma parse_shrinks:
  "(parse_value d s = Some (v, r) \<longrightarrow> length r < length s) \<and>
   (parse_elems d s = Some (vs, r) \<longrightarrow> length r < length s) \<and>
   (parse_members d s = Some (ms, r) \<longrightarrow> length r < length s)"
proof (induction s arbitrary: d v vs ms r rule: length_induct)
  case (1 s)
  have val: "length r < length s" if "parse_value d s = Some (v, r)" for d v r
    using parse_value_shrinks [OF that] 1 by blast
  have "length r < length s" if "parse_elems d s = Some (vs, r)"
  proof -
    note unfold = that [unfolded parse_elems.simps [of d s]]
    obtain v1 r1 where r1: "parse_value d s = Some (v1, r1)"
      using unfold by (cases "parse_value d s") auto
    obtain c r2 where r2: "skip_ws r1 = c # r2" using unfold r1 by (cases "skip_ws r1") auto
    then have "length r2 < length s" using val [OF r1] skip_ws_Cons_shrinks by fastforce
    then show ?thesis using unfold r1 r2 1 by (auto split: if_splits) fastforce
  qed
  moreover have "length r < length s" if "parse_members d s = Some (ms, r)"
  proof -
    note unfold = that [unfolded parse_members.simps [of d s]]
    obtain c1 s1 where s1: "skip_ws s = c1 # s1" "c1 = 34" using unfold by (auto split: list.splits if_splits)
    obtain k s2 where s2: "parse_string s1 = Some (k, s2)"
      using unfold s1 by (cases "parse_string s1") auto
    obtain s3 where s3: "skip_ws s2 = 58 # s3" "length s3 < length s"
      using unfold s1 s2 by (cases "skip_ws s2") (auto split: if_splits)
    obtain v s4 where s4: "parse_value d s3 = Some (v, s4)"
      using unfold s1 s2 s3 by (cases "parse_value d s3") auto
    have "length s4 < length s3" using 1 s3(2) s4 by blast
    obtain c5 s5 where s5: "skip_ws s4 = c5 # s5" using unfold s1 s2 s3 s4 by (cases "skip_ws s4") auto
    then have "length s5 < length s" using \<open>length s4 < length s3\<close> s3(2) skip_ws_Cons_shrinks by fastforce
    then show ?thesis using unfold s1 s2 s3 s4 s5 1 by (auto split: if_splits) fastforce
  qed
  ultimately show ?case using val by blast
qed

subsection \<open>Strings are read back as valid UTF-8\<close>

lemma hex_value_digit: "d < 16 \<Longrightarrow> hex_value (hex_digit d) = Some d"
proof -
  assume "d < 16"
  then have "unat (48 + word_of_nat d :: byte) = 48 + d" "unat (87 + word_of_nat d :: byte) = 87 + d"
    by (simp_all add: unat_word_ariths unat_of_nat)
  with \<open>d < 16\<close> show ?thesis
    by (auto simp: hex_value_def hex_digit_def byte_le_iff)
qed

lemma quote_body_Nil [simp]: "quote_body [] = []"
  by (subst quote_body.simps) simp

lemma quote_body_ascii:
  "b < 0x80 \<Longrightarrow> quote_body (b # p) = (if html_safe b then [b] else escape b) @ quote_body p"
  by (subst quote_body.simps) simp

lemma unquote_Nil [simp]: "unquote [] = Some []"
  by (subst unquote.simps) simp

lemma unquote_plain:
  "html_safe b \<Longrightarrow> unquote (b # t) = map_option ((#) b) (unquote t)"
  by (subst unquote.simps) (auto simp: html_safe_def)

lemma unquote_u4:
  assumes "getu4 (92 # 117 # h1 # h2 # h3 # h4 # []) = Some rr" and "\<not> IsSurrogate rr"
  shows "unquote (92 # 117 # h1 # h2 # h3 # h4 # t) = map_option ((@) (EncodeRune rr)) (unquote t)"
proof -
  have "getu4 (92 # 117 # h1 # h2 # h3 # h4 # t) = Some rr" using assms(1) by (simp add: getu4_def)
  with assms(2) show ?thesis by (subst unquote.simps) simp
qed

lemma getu4_digits:
  assumes "hex_value h1 = Some a1" and "hex_value h2 = Some a2" and "hex_value h3 = Some a3" and "hex_value h4 = Some a4"
  shows "getu4 (92 # 117 # h1 # h2 # h3 # h4 # t) = Some (((a1 * 16 + a2) * 16 + a3) * 16 + a4)"
  using assms by (simp add: getu4_def)

lemma EncodeRune_ascii: "b < 0x80 \<Longrightarrow> EncodeRune (unat b) = [b]"
  by (simp add: EncodeRune_def byte_le_iff)

lemma unquote_escape:
  assumes "b < 0x80"
  shows "unquote (escape b @ t) = map_option ((#) b) (unquote t)"
proof (cases "b \<in> {34, 92, 8, 12, 10, 13, 9}")
  case True
  then show ?thesis by (auto simp: escape_def unescape_def unquote.simps [of "92 # x # t" for x])
next
  case False
  have n: "unat b < 128" using assms by (simp add: byte_le_iff)
  have "getu4 [92, 117, 48, 48, hex_digit (unat b div 16), hex_digit (unat b mod 16)] =
      Some (((0 * 16 + 0) * 16 + unat b div 16) * 16 + unat b mod 16)"
    using n by (intro getu4_digits hex_value_digit) (simp_all add: hex_value_def)
  moreover have "((0 * 16 + 0) * 16 + unat b div 16) * 16 + unat b mod 16 = unat b" by simp
  moreover have "\<not> IsSurrogate (unat b)" using n by (simp add: IsSurrogate_def)
  ultimately have "unquote (92 # 117 # 48 # 48 # hex_digit (unat b div 16) # hex_digit (unat b mod 16) # t) =
      map_option ((@) (EncodeRune (unat b))) (unquote t)"
    by (intro unquote_u4) simp_all
  moreover have "(@) [b] = (#) b" by auto
  ultimately show ?thesis using False by (simp add: escape_def EncodeRune_ascii assms)
qed

lemma unquote_rune:
  assumes "DecodeRune p = (r, n)" and "p \<noteq> []" and "0x80 \<le> hd p" and "\<not> (r = RuneError \<and> n = 1)"
  shows "unquote (take n p @ t) = map_option ((@) (take n p)) (unquote t)"
proof -
  note multi = DecodeRune_multi [OF assms]
  then obtain b q where q: "take n p = b # q" "b = hd p" using assms(2) by (cases p; cases n) auto
  have "\<not> b < 0x80" "b \<noteq> 92" "b \<noteq> 34" "\<not> b < 0x20" using assms(3) q(2) by (auto simp: byte_le_iff)
  moreover have "max 1 n = length (take n p)" using multi [of t] by simp
  ultimately show ?thesis
    using multi [of t] q by (subst unquote.simps) (simp del: append_take_drop_id)
qed

lemma unquote_quote_rune:
  assumes "DecodeRune p = (r, n)" and "p \<noteq> []" and "0x80 \<le> hd p"
  shows "unquote (quote_rune r n p @ t) =
    map_option ((@) (if r = RuneError \<and> n = 1 then EncodeRune RuneError else take n p)) (unquote t)"
proof -
  consider (bad) "r = RuneError \<and> n = 1" | (ls) "\<not> (r = RuneError \<and> n = 1)" "r = 0x2028 \<or> r = 0x2029"
    | (other) "\<not> (r = RuneError \<and> n = 1)" "\<not> (r = 0x2028 \<or> r = 0x2029)" by blast
  then show ?thesis
  proof cases
    case bad
    have h: "hex_value 102 = Some 15" "hex_value 100 = Some 13" by (simp_all add: hex_value_def)
    have "unquote ((92 # lit ''ufffd'') @ t) = map_option ((@) (EncodeRune RuneError)) (unquote t)"
      using unquote_u4 [OF getu4_digits [OF h(1) h(1) h(1) h(2)], of t]
      by (simp add: IsSurrogate_def RuneError_def lit_def)
    then show ?thesis unfolding quote_rune_def if_P [OF bad] .
  next
    case ls
    have h: "hex_value 50 = Some 2" "hex_value 48 = Some 0" "hex_value (hex_digit (r mod 16)) = Some (r mod 16)"
      by (simp_all add: hex_value_digit) (simp_all add: hex_value_def)
    have "((2 * 16 + 0) * 16 + 2) * 16 + r mod 16 = r" "\<not> IsSurrogate r" using ls(2) by (auto simp: IsSurrogate_def)
    then have "unquote ((92 # lit ''u202'' @ [hex_digit (r mod 16)]) @ t) = map_option ((@) (EncodeRune r)) (unquote t)"
      using unquote_u4 [of 50 48 50 "hex_digit (r mod 16)" r t] getu4_digits [OF h(1) h(2) h(1) h(3), of "[]"]
      by (simp add: lit_def)
    moreover have "EncodeRune r = take n p" using DecodeRune_multi [OF assms ls(1)] by simp
    ultimately show ?thesis unfolding quote_rune_def if_not_P [OF ls(1)] if_P [OF ls(2)] by simp
  next
    case other
    show ?thesis
      unfolding quote_rune_def if_not_P [OF other(1)] if_not_P [OF other(2)] by (rule unquote_rune [OF assms other(1)])
  qed
qed

text \<open>Induction along the runes of a string, as \<open>quote_body\<close> and \<open>ToValidUTF8\<close> walk it.\<close>

lemma rune_induct [case_names Nil ascii rune]:
  assumes "P []"
    and "\<And>b q. b < 0x80 \<Longrightarrow> P q \<Longrightarrow> P (b # q)"
    and "\<And>p r n. p \<noteq> [] \<Longrightarrow> 0x80 \<le> hd p \<Longrightarrow> DecodeRune p = (r, n) \<Longrightarrow> P (drop (max 1 n) p) \<Longrightarrow> P p"
  shows "P p"
proof (induction p rule: length_induct)
  case (1 p)
  show ?case
  proof (cases p)
    case (Cons b q)
    obtain r n where "DecodeRune p = (r, n)" by (cases "DecodeRune p")
    moreover have "length (drop (max 1 n) p) < length p" using Cons by simp
    ultimately show ?thesis using 1 assms(2) [of b q] assms(3) [of p r n] Cons by (cases "b < 0x80") auto
  qed (simp add: assms(1))
qed

lemma quote_body_rune:
  assumes "p \<noteq> []" and "0x80 \<le> hd p" and "DecodeRune p = (r, n)"
  shows "quote_body p = quote_rune r n p @ quote_body (drop (max 1 n) p)"
  using assms by (subst quote_body.simps) auto

lemma ToValidUTF8_rune:
  assumes "p \<noteq> []" and "DecodeRune p = (r, n)"
  shows "ToValidUTF8 p =
    (if r = RuneError \<and> n = 1 then EncodeRune RuneError else take n p) @ ToValidUTF8 (drop (max 1 n) p)"
  using assms by (subst ToValidUTF8.simps) simp

lemma length_json_quote: "length (json_quote p) \<le> 6 * length p + 2"
proof -
  have "length (quote_body p) \<le> 6 * length p"
  proof (induction p rule: rune_induct)
    case (ascii b q)
    then show ?case by (auto simp: quote_body_ascii escape_def)
  next
    case (rune p r n)
    have "length (quote_rune r n p) \<le> 6 * min (max 1 n) (length p)"
      using rune(1) DecodeRune_multi [OF rune(3,1,2)]
      by (cases "r = RuneError \<and> n = 1") (cases p; auto simp: quote_rune_def lit_def)+
    with rune(4) show ?case unfolding quote_body_rune [OF rune(1-3)] by simp
  qed simp
  then show ?thesis by (simp add: json_quote_def)
qed

lemma unquote_quote: "unquote (quote_body p) = Some (ToValidUTF8 p)"
proof (induction p rule: rune_induct)
  case (ascii b q)
  then show ?case by (simp add: quote_body_ascii unquote_plain unquote_escape ToValidUTF8_ascii)
next
  case (rune p r n)
  then show ?case
    by (simp only: quote_body_rune [OF rune(1-3)] ToValidUTF8_rune [OF rune(1,3)]
        unquote_quote_rune [OF rune(3,1,2)] option.map)
qed simp

lemma scan_string_plain:
  "html_safe b \<Longrightarrow> scan_string (b # t) = map_option (\<lambda>(u, r). (b # u, r)) (scan_string t)"
  by (auto simp: html_safe_def)

lemma scan_string_high:
  assumes "list_all (\<lambda>b. 0x80 \<le> b) u"
  shows "scan_string (u @ t) = map_option (\<lambda>(v, r). (u @ v, r)) (scan_string t)"
  using assms
proof (induction u)
  case (Cons b u)
  then have "b \<noteq> 34" "b \<noteq> 92" "\<not> b < 0x20" by (auto simp: byte_le_iff)
  with Cons show ?case by (cases "scan_string t") auto
qed (cases "scan_string t", auto)

lemma scan_string_u4:
  assumes "hex_value h1 \<noteq> None" and "hex_value h2 \<noteq> None" and "hex_value h3 \<noteq> None" and "hex_value h4 \<noteq> None"
  shows "scan_string (92 # 117 # h1 # h2 # h3 # h4 # t) =
    map_option (\<lambda>(v, r). (92 # 117 # h1 # h2 # h3 # h4 # v, r)) (scan_string t)"
  using assms by auto

lemma scan_string_escape:
  assumes "b < 0x80"
  shows "scan_string (escape b @ t) = map_option (\<lambda>(v, r). (escape b @ v, r)) (scan_string t)"
proof (cases "b \<in> {34, 92, 8, 12, 10, 13, 9}")
  case True
  then show ?thesis by (auto simp: escape_def)
next
  case False
  have "unat b div 16 < 16" "unat b mod 16 < 16" using assms by (simp_all add: byte_le_iff)
  then have "hex_value (hex_digit (unat b div 16)) \<noteq> None" "hex_value (hex_digit (unat b mod 16)) \<noteq> None"
    by (simp_all add: hex_value_digit)
  moreover have "hex_value 48 \<noteq> None" by (simp add: hex_value_def)
  ultimately show ?thesis using False by (simp add: escape_def scan_string_u4 del: scan_string.simps)
qed

lemma scan_quote_rune:
  assumes "DecodeRune p = (r, n)" and "p \<noteq> []" and "0x80 \<le> hd p"
  shows "scan_string (quote_rune r n p @ t) = map_option (\<lambda>(v, s). (quote_rune r n p @ v, s)) (scan_string t)"
proof -
  consider (bad) "r = RuneError \<and> n = 1" | (ls) "\<not> (r = RuneError \<and> n = 1)" "r = 0x2028 \<or> r = 0x2029"
    | (other) "\<not> (r = RuneError \<and> n = 1)" "\<not> (r = 0x2028 \<or> r = 0x2029)" by blast
  then show ?thesis
  proof cases
    case bad
    have "hex_value 102 \<noteq> None" "hex_value 100 \<noteq> None" by (simp_all add: hex_value_def)
    with bad show ?thesis
      using scan_string_u4 [of 102 102 102 100 t] by (simp add: quote_rune_def lit_def del: scan_string.simps)
  next
    case ls
    have "hex_value 50 \<noteq> None" "hex_value 48 \<noteq> None" "hex_value (hex_digit (r mod 16)) \<noteq> None"
      by (simp_all add: hex_value_digit) (simp_all add: hex_value_def)
    then show ?thesis
      using scan_string_u4 [of 50 48 50 "hex_digit (r mod 16)" t]
      unfolding quote_rune_def if_not_P [OF ls(1)] if_P [OF ls(2)] by (simp add: lit_def del: scan_string.simps)
  next
    case other
    have "list_all (\<lambda>b. 0x80 \<le> b) (take n p)" using DecodeRune_multi [OF assms other(1)] by blast
    then show ?thesis
      unfolding quote_rune_def if_not_P [OF other(1)] if_not_P [OF other(2)] by (rule scan_string_high)
  qed
qed

lemma scan_quote_body:
  "scan_string (quote_body p @ t) = map_option (\<lambda>(v, r). (quote_body p @ v, r)) (scan_string t)"
proof (induction p rule: rune_induct)
  case Nil
  show ?case by (cases "scan_string t") auto
next
  case (ascii b q)
  then show ?case
    by (cases "scan_string t")
      (auto simp: quote_body_ascii scan_string_plain scan_string_escape simp del: scan_string.simps)
next
  case (rune p r n)
  then show ?case unfolding quote_body_rune [OF rune(1-3)]
    by (cases "scan_string t") (auto simp: scan_quote_rune [OF rune(3,1,2)] simp del: scan_string.simps)
qed

lemma parse_string_quote: "parse_string (quote_body p @ 34 # t) = Some (ToValidUTF8 p, t)"
  by (simp add: parse_string_def scan_quote_body unquote_quote)

subsection \<open>Values are read back\<close>

definition number_end :: "gostring \<Rightarrow> bool" where
  "number_end t \<longleftrightarrow> t = [] \<or> \<not> is_digit (hd t) \<and> hd t \<noteq> 46 \<and> hd t \<noteq> 101 \<and> hd t \<noteq> 69"

lemma scan_digits_decimal: "number_end t \<Longrightarrow> scan_digits (decimal n @ t) = (decimal n, t)"
  using decimal_digits by (cases t; force simp: scan_digits_def number_end_def takeWhile_append dropWhile_append)

lemma scan_int_part_decimal:
  assumes "number_end t"
  shows "scan_int_part (decimal n @ t) = Some (decimal n, t)"
proof (cases "n = 0")
  case True
  then show ?thesis by (simp add: scan_int_part_def decimal.simps [of 0] digit_def)
next
  case False
  obtain c q where c: "decimal n = c # q" using decimal_not_Nil by (cases "decimal n") blast+
  have "is_digit c" using decimal_digits [of c n] by (simp add: c)
  moreover have "c \<noteq> 48" using decimal_hd_nonzero [of n] False by (simp add: c)
  ultimately show ?thesis using scan_digits_decimal [OF assms, of n] by (simp add: scan_int_part_def c)
qed

lemma scan_number_FormatInt:
  assumes "number_end t"
  shows "scan_number (FormatInt i @ t) = Some (FormatInt i, t)"
proof -
  have rest: "scan_frac t = Some ([], t)" "scan_exp t = Some ([], t)"
    using assms by (auto simp: number_end_def scan_frac_def scan_exp_def)
  show ?thesis
  proof (cases "i < 0")
    case True
    then have "FormatInt i = 45 # decimal (nat (- i))" by (simp add: FormatInt_def lit_def)
    with rest show ?thesis by (simp add: scan_number_def scan_int_part_decimal [OF assms])
  next
    case False
    then have f: "FormatInt i = decimal (nat i)" by (simp add: FormatInt_def)
    obtain c q where c: "decimal (nat i) = c # q" using decimal_not_Nil by (cases "decimal (nat i)") blast+
    have "c \<noteq> 45" using decimal_head [of "nat i"] by (simp add: c)
    with rest show ?thesis
      using scan_int_part_decimal [OF assms, of "nat i"] by (simp add: scan_number_def f c)
  qed
qed

lemma skip_ws_nonspace: "c \<notin> {32, 9, 10, 13} \<Longrightarrow> skip_ws (c # t) = c # t"
  by (simp add: skip_ws_def)

lemma parse_value_string: "parse_value d (json_quote p @ t) = Some (JStr (ToValidUTF8 p), t)"
  by (simp add: parse_value.simps [of d "34 # x" for x] json_quote_def skip_ws_nonspace parse_string_quote)

lemma parse_value_int:
  assumes "number_end t"
  shows "parse_value d (FormatInt i @ t) = Some (JNum (FormatInt i), t)"
proof -
  obtain c q where c: "FormatInt i = c # q" using FormatInt_not_Nil by (cases "FormatInt i") blast+
  have "c = 45 \<or> is_digit c"
    using decimal_digits [of c "nat i"] c by (cases "i < 0") (auto simp: FormatInt_def lit_def)
  then have "c \<notin> {32, 9, 10, 13}" "c \<notin> {34, 123, 91, 116, 102, 110}" by (auto simp: is_digit_def)
  with scan_number_FormatInt [OF assms, of i] show ?thesis
    by (simp add: parse_value.simps [of d "c # x" for x] c skip_ws_nonspace)
qed

text \<open>An object or an array as \<^verbatim>\<open>Marshal\<close> writes it: no spaces, commas between.\<close>

lemma parse_members_last:
  assumes "parse_value d (v @ 125 # t) = Some (x, 125 # t)"
  shows "parse_members d (json_quote k @ 58 # v @ 125 # t) = Some ([(ToValidUTF8 k, x)], t)"
  using assms parse_string_quote [of k "58 # v @ 125 # t"]
  by (simp add: parse_members.simps [of d "34 # s" for s] json_quote_def skip_ws_nonspace)

lemma parse_members_more:
  assumes "parse_value d (v @ 44 # t) = Some (x, 44 # t)"
  shows "parse_members d (json_quote k @ 58 # v @ 44 # t) =
    map_option (\<lambda>(ms, r). ((ToValidUTF8 k, x) # ms, r)) (parse_members d t)"
  using assms parse_string_quote [of k "58 # v @ 44 # t"]
  by (simp add: parse_members.simps [of d "34 # s" for s] json_quote_def skip_ws_nonspace)

lemma parse_value_object:
  assumes "parse_members d (json_quote k @ s) = Some (ms, t)"
  shows "parse_value (Suc d) (123 # json_quote k @ s) = Some (JObj ms, t)"
  using assms by (simp add: parse_value.simps [of "Suc d" "123 # x" for x] json_quote_def skip_ws_nonspace)

fun comma_list :: "gostring list \<Rightarrow> gostring" where
  "comma_list [] = []"
| "comma_list [p] = json_quote p"
| "comma_list (p # q # ps) = json_quote p @ 44 # comma_list (q # ps)"

definition json_strings :: "gostring list \<Rightarrow> gostring" where
  "json_strings ps = [91] @ comma_list ps @ [93]"

lemma parse_elems_comma_list:
  "ps \<noteq> [] \<Longrightarrow> parse_elems d (comma_list ps @ 93 # t) = Some (map (\<lambda>p. JStr (ToValidUTF8 p)) ps, t)"
proof (induction ps rule: comma_list.induct)
  case (2 p)
  show ?case using parse_value_string [of d p "93 # t"]
    by (simp add: parse_elems.simps [of d "json_quote p @ x" for x] skip_ws_nonspace)
next
  case (3 p q ps)
  then show ?case
    using parse_value_string [of d p "44 # comma_list (q # ps) @ 93 # t"]
    by (simp add: parse_elems.simps [of d "json_quote p @ x" for x] skip_ws_nonspace)
qed simp

lemma parse_value_strings:
  "parse_value (Suc d) (json_strings ps @ t) = Some (JArr (map (\<lambda>p. JStr (ToValidUTF8 p)) ps), t)"
proof (cases ps)
  case Nil
  then show ?thesis by (simp add: json_strings_def parse_value.simps [of "Suc d" "91 # x" for x] skip_ws_nonspace)
next
  case (Cons p qs)
  then obtain x where "comma_list ps = 34 # x" by (cases qs) (auto simp: json_quote_def)
  then show ?thesis
    using parse_elems_comma_list [of ps d t] Cons
    by (simp add: json_strings_def parse_value.simps [of "Suc d" "91 # x" for x] skip_ws_nonspace)
qed

lemma assign_elems_strings:
  "assign_elems (map (\<lambda>p. JStr (f p)) ps) (length ys) ys = Some (ys @ map f ps)"
proof (induction ps arbitrary: ys)
  case (Cons p ps)
  then show ?case using Cons.IH [of "ys @ [f p]"] by (simp add: assign_string_def)
qed simp

end
