(* ===== verification/JsonIndent.thy ===== *)
theory JsonIndent
  imports Json
begin

text \<open>
  \<^verbatim>\<open>encoding/json\<close> with \<^verbatim>\<open>SetIndent("", "  ")\<close>, as the vector generator uses it: every member and element is
  on a line of its own, indented by two spaces per level, with a space after the colon of a member; an
  empty object or array stays on its line. Any document printed so parses back to the same tree.
\<close>

subsection \<open>Writing\<close>

definition fresh_line :: "nat \<Rightarrow> gostring" where
  "fresh_line d = 10 # replicate (2 * d) 32"

fun comma_join :: "gostring list \<Rightarrow> gostring" where
  "comma_join [] = []"
| "comma_join [x] = x"
| "comma_join (x # y # xs) = x @ 44 # comma_join (y # xs)"

fun indented :: "nat \<Rightarrow> json \<Rightarrow> gostring" where
  "indented d JNull = lit ''null''"
| "indented d (JBool b) = (if b then lit ''true'' else lit ''false'')"
| "indented d (JNum t) = t"
| "indented d (JStr p) = json_quote p"
| "indented d (JArr vs) =
     (if vs = [] then [91, 93]
      else 91 # comma_join (map (\<lambda>v. fresh_line (d + 1) @ indented (d + 1) v) vs) @ fresh_line d @ [93])"
| "indented d (JObj ms) =
     (if ms = [] then [123, 125]
      else 123 # comma_join (map (\<lambda>(k, v). fresh_line (d + 1) @ json_quote k @ [58, 32] @ indented (d + 1) v) ms)
             @ fresh_line d @ [125])"

text \<open>\<^verbatim>\<open>Encode\<close> ends the document with a line feed.\<close>

definition Encode_indented :: "json \<Rightarrow> gostring" where
  "Encode_indented v = indented 0 v @ [10]"

subsection \<open>Reading it back\<close>

text \<open>
  Trees the encoder produces from Go values: integers, strings that are valid UTF-8 and at most \<open>n\<close> levels of
  nesting.
\<close>

fun encodable :: "nat \<Rightarrow> json \<Rightarrow> bool" where
  "encodable n JNull \<longleftrightarrow> True"
| "encodable n (JBool b) \<longleftrightarrow> True"
| "encodable n (JNum t) \<longleftrightarrow> (case ParseInt t of None \<Rightarrow> False | Some i \<Rightarrow> t = FormatInt i)"
| "encodable n (JStr p) \<longleftrightarrow> ToValidUTF8 p = p"
| "encodable n (JArr vs) \<longleftrightarrow> 0 < n \<and> list_all (encodable (n - 1)) vs"
| "encodable n (JObj ms) \<longleftrightarrow> 0 < n \<and> list_all (\<lambda>(k, v). ToValidUTF8 k = k \<and> encodable (n - 1) v) ms"

lemma skip_fresh_line [simp]: "skip_ws (fresh_line d @ s) = skip_ws s"
  by (induction d) (simp_all add: skip_ws_def fresh_line_def)

lemma skip_blank [simp]: "skip_ws (32 # s) = skip_ws s"
  by (simp add: skip_ws_def)

lemma parse_value_skip: "skip_ws s = skip_ws s' \<Longrightarrow> parse_value d s = parse_value d s'"
  using skip_ws_Cons_shrinks [of s] skip_ws_Cons_shrinks [of s']
  by (simp add: parse_value.simps [of d s] parse_value.simps [of d s'] split: list.split)

lemma parse_value_spaces [simp]:
  "parse_value d (fresh_line k @ s) = parse_value d s" "parse_value d (32 # s) = parse_value d s"
  by (rule parse_value_skip; simp)+

lemma number_end_marks [simp]: "number_end (44 # s)" "number_end (fresh_line k @ s)" "number_end [10]"
  by (simp_all add: number_end_def fresh_line_def is_digit_def)

text \<open>One member or element, whatever spaces stand around it.\<close>

lemma parse_members_step:
  assumes "skip_ws s = json_quote k @ 58 # rest" and "parse_value d rest = Some (x, r)" and "skip_ws r = c # t"
  shows "parse_members d s =
    (if c = 125 then Some ([(ToValidUTF8 k, x)], t)
     else if c = 44 then map_option (\<lambda>(ms, r). ((ToValidUTF8 k, x) # ms, r)) (parse_members d t) else None)"
proof -
  have "length (json_quote k @ 58 # rest) \<le> length s" using skip_ws_shrinks [of s] assms(1) by simp
  then have rest: "length rest < length s" by simp
  moreover have "length r < length rest" using assms(2) parse_shrinks by blast
  ultimately have "length t < length s" using skip_ws_Cons_shrinks [OF assms(3)] by simp
  then show ?thesis
    using assms rest parse_string_quote [of k "58 # rest"]
    by (simp add: parse_members.simps [of d s] json_quote_def skip_ws_nonspace)
qed

lemma parse_elems_step:
  assumes "parse_value d s = Some (x, r)" and "skip_ws r = c # t"
  shows "parse_elems d s =
    (if c = 93 then Some ([x], t)
     else if c = 44 then map_option (\<lambda>(vs, r). (x # vs, r)) (parse_elems d t) else None)"
proof -
  have "length r < length s" using assms(1) parse_shrinks by blast
  then have "length t < length s" using skip_ws_Cons_shrinks [OF assms(2)] by simp
  then show ?thesis using assms by (simp add: parse_elems.simps [of d s])
qed

lemma parse_elems_lines:
  assumes "vs \<noteq> []" and "\<forall>v \<in> set vs. \<forall>r. number_end r \<longrightarrow> parse_value d (f v @ r) = Some (v, r)"
  shows "parse_elems d (comma_join (map (\<lambda>v. fresh_line k @ f v) vs) @ fresh_line j @ 93 # t) = Some (vs, t)"
  using assms
proof (induction vs rule: induct_list012)
  case (2 v)
  then have "parse_value d (fresh_line k @ f v @ fresh_line j @ 93 # t) = Some (v, fresh_line j @ 93 # t)" by simp
  from parse_elems_step [OF this] show ?case by (simp add: skip_ws_nonspace)
next
  case (3 v w vs)
  let ?rest = "comma_join (map (\<lambda>v. fresh_line k @ f v) (w # vs)) @ fresh_line j @ 93 # t"
  have "parse_value d (fresh_line k @ f v @ 44 # ?rest) = Some (v, 44 # ?rest)" using 3 by simp
  from parse_elems_step [OF this, of 44 ?rest] 3 show ?case by (simp add: skip_ws_nonspace)
qed simp

lemma parse_members_lines:
  assumes "ms \<noteq> []"
    and "\<forall>(n, v) \<in> set ms. ToValidUTF8 n = n \<and> (\<forall>r. number_end r \<longrightarrow> parse_value d (f v @ r) = Some (v, r))"
  shows "parse_members d (comma_join (map (\<lambda>(n, v). fresh_line k @ json_quote n @ [58, 32] @ f v) ms) @ fresh_line j @ 125 # t) =
    Some (ms, t)"
  using assms
proof (induction ms rule: induct_list012)
  case (2 m)
  obtain n v where m: "m = (n, v)" by (cases m)
  let ?s = "fresh_line k @ json_quote n @ 58 # 32 # f v @ fresh_line j @ 125 # t"
  have "parse_value d (32 # f v @ fresh_line j @ 125 # t) = Some (v, fresh_line j @ 125 # t)" using 2 m by simp
  from parse_members_step [OF _ this, of ?s n 125 t] 2 show ?case by (simp add: m json_quote_def skip_ws_nonspace)
next
  case (3 m m' ms)
  obtain n v where m: "m = (n, v)" by (cases m)
  let ?rest = "comma_join (map (\<lambda>(n, v). fresh_line k @ json_quote n @ [58, 32] @ f v) (m' # ms)) @ fresh_line j @ 125 # t"
  let ?s = "fresh_line k @ json_quote n @ 58 # 32 # f v @ 44 # ?rest"
  have "parse_value d (32 # f v @ 44 # ?rest) = Some (v, 44 # ?rest)" using 3 m by simp
  from parse_members_step [OF _ this, of ?s n 44 ?rest] 3 show ?case by (simp add: m json_quote_def skip_ws_nonspace)
qed simp

text \<open>A printed tree parses back.\<close>

lemma indented_head:
  "encodable n v \<Longrightarrow> \<exists>c s. indented d v = c # s \<and> c \<notin> {32, 9, 10, 13} \<and> c \<noteq> 93 \<and> c \<noteq> 125"
proof (cases v)
  case (JNum t)
  assume "encodable n v"
  with JNum obtain i where t: "t = FormatInt i" by (auto split: option.splits)
  obtain c q where c: "FormatInt i = c # q" using FormatInt_not_Nil by (cases "FormatInt i") blast+
  have "c = 45 \<or> is_digit c"
    using decimal_digits [of c "nat i"] c by (cases "i < 0") (auto simp: FormatInt_def lit_def)
  then have "c \<notin> {32, 9, 10, 13}" "c \<noteq> 93" "c \<noteq> 125" by (auto simp: is_digit_def)
  with c show ?thesis by (simp add: JNum t)
qed (auto simp: lit_def json_quote_def)

lemma comma_join_head: "\<exists>y. comma_join (x # xs) = x @ y"
  by (cases xs) auto

lemma elems_head:
  assumes "v \<in> set (take 1 vs)" and "encodable n v"
  shows "\<exists>c s. skip_ws (comma_join (map (\<lambda>v. fresh_line k @ indented d v) vs) @ t) = c # s \<and> c \<noteq> 93"
proof -
  obtain ws where vs: "vs = v # ws" using assms(1) by (cases vs) auto
  obtain y where "comma_join (map (\<lambda>v. fresh_line k @ indented d v) vs) = fresh_line k @ indented d v @ y"
    using comma_join_head [of "fresh_line k @ indented d v" "map (\<lambda>v. fresh_line k @ indented d v) ws"] by (auto simp: vs)
  with indented_head [OF assms(2), of d] show ?thesis by (auto simp: skip_ws_nonspace)
qed

lemma members_head:
  assumes "ms \<noteq> []"
  shows "\<exists>s. skip_ws (comma_join (map (\<lambda>(n, v). fresh_line k @ json_quote n @ [58, 32] @ f v) ms) @ t) = 34 # s"
proof -
  obtain n v ws where ms: "ms = (n, v) # ws" using assms by (cases ms) auto
  show ?thesis
    using comma_join_head [of "fresh_line k @ json_quote n @ [58, 32] @ f v"
        "map (\<lambda>(n, v). fresh_line k @ json_quote n @ [58, 32] @ f v) ws"]
    by (auto simp: ms json_quote_def skip_ws_nonspace)
qed

lemma parse_indented:
  "encodable n v \<Longrightarrow> number_end r \<Longrightarrow> parse_value n (indented d v @ r) = Some (v, r)"
proof (induction v arbitrary: n d r)
  case (JNum t)
  then obtain i where "t = FormatInt i" by (auto split: option.splits)
  with parse_value_int [OF JNum.prems(2)] show ?case by simp
next
  case (JArr vs)
  show ?case
  proof (cases "vs = []")
    case False
    have vs: "\<forall>v \<in> set vs. encodable (n - 1) v" using JArr.prems(1) by (simp add: list_all_iff)
    then have "\<forall>v \<in> set vs. \<forall>r. number_end r \<longrightarrow> parse_value (n - 1) (indented (d + 1) v @ r) = Some (v, r)"
      using JArr.IH by blast
    note elems = parse_elems_lines [OF False this, of "d + 1" d r]
    have "hd vs \<in> set (take 1 vs)" "encodable (n - 1) (hd vs)" using False vs by (cases vs; simp)+
    from elems_head [OF this, of "d + 1" "d + 1" "fresh_line d @ 93 # r"] elems False JArr.prems(1) show ?thesis
      by (auto simp: parse_value.simps [of n "91 # x" for x] skip_ws_nonspace)
  qed (use JArr.prems in \<open>simp add: parse_value.simps [of n "91 # x" for x] skip_ws_nonspace\<close>)
next
  case (JObj ms)
  show ?case
  proof (cases "ms = []")
    case False
    have "\<forall>(k, v) \<in> set ms. ToValidUTF8 k = k \<and>
        (\<forall>r. number_end r \<longrightarrow> parse_value (n - 1) (indented (d + 1) v @ r) = Some (v, r))"
      using JObj.IH JObj.prems(1) by (fastforce simp: list_all_iff)
    from parse_members_lines [OF False this, of "d + 1" d r] members_head [OF False, of "d + 1" "indented (d + 1)" "fresh_line d @ 125 # r"]
      False JObj.prems(1) show ?thesis
      by (auto simp: parse_value.simps [of n "123 # x" for x] skip_ws_nonspace)
  qed (use JObj.prems in \<open>simp add: parse_value.simps [of n "123 # x" for x] skip_ws_nonspace\<close>)
qed (auto simp: parse_value_string parse_value.simps [of n "c # x" for n c x] lit_def skip_ws_nonspace parse_word_def)

theorem parse_Encode_indented: "encodable 10000 v \<Longrightarrow> parse_json (Encode_indented v) = Some v"
  by (simp add: parse_json_def Encode_indented_def parse_indented skip_ws_def)

end
