(* ===== verification/GenVectors.thy ===== *)
theory GenVectors
  imports Cbc Sign JsonIndent
begin

text \<open>
  \<^verbatim>\<open>src/cmd/gen-vectors/main.go\<close>: the generator of the known-answer vectors shared with the TypeScript
  implementation. It computes them from the standard library, without the package; the properties state
  that the package accepts every vector it writes.
  Leaving the process with \<^verbatim>\<open>os.Exit(1)\<close> is an \<open>Err\<close> with the message printed.
\<close>

subsection \<open>Data\<close>

record AEADVector =
  av_Name :: string
  av_KeyHex :: gostring
  av_NonceHex :: gostring
  av_AADHex :: gostring
  av_PlaintextHex :: gostring
  av_ExpectedB64URL :: gostring

record HMACVector =
  hv_Name :: string
  hv_KeyHex :: gostring
  hv_DataHex :: gostring
  hv_ExpectedHex :: gostring

record CBCVector =
  cv_Name :: string
  cv_KeyHex :: gostring
  cv_IVHex :: gostring
  cv_PlaintextHex :: gostring
  cv_ExpectedHex :: gostring

text \<open>\<^verbatim>\<open>key, _ := hex.DecodeString(s)\<close> keeps the bytes decoded before an error.\<close>

fun hex_decoded_prefix :: "gostring \<Rightarrow> bytes" where
  "hex_decoded_prefix (c # d # s) =
     (case fromHexChar c of None \<Rightarrow> []
      | Some hi \<Rightarrow> (case fromHexChar d of None \<Rightarrow> []
        | Some lo \<Rightarrow> (push_bit 4 hi OR lo) # hex_decoded_prefix s))"
| "hex_decoded_prefix s = []"

fun repeatHex :: "gostring \<Rightarrow> nat \<Rightarrow> gostring" where
  "repeatHex twoChar 0 = []"
| "repeatHex twoChar (Suc n) = twoChar @ repeatHex twoChar n"

definition pkcs7Pad :: "bytes \<Rightarrow> nat \<Rightarrow> bytes res" where
  "pkcs7Pad buf sz =
     (if sz = 0 then Panic
      else let padLen = sz - length buf mod sz
           in Ok (buf @ map (\<lambda>i. word_of_nat padLen) [length buf..<length buf + padLen]))"

subsection \<open>AEAD vectors\<close>

type_synonym aead_vector_spec = "string \<times> gostring \<times> gostring \<times> gostring \<times> gostring"

definition aead_vector :: "aead_vector_spec \<Rightarrow> AEADVector res" where
  "aead_vector = (\<lambda>(name, keyHex, nonceHex, aadHex, plaintextHex).
     let key = hex_decoded_prefix keyHex; nonce = hex_decoded_prefix nonceHex in
     and_then (of_option (Msg ''decode plaintext_hex %q: %v'') (hex_DecodeString plaintextHex)) (\<lambda>plaintext.
     and_then (if aadHex \<noteq> [] then of_option (Msg ''decode aad_hex %q: %v'') (hex_DecodeString aadHex)
               else Ok []) (\<lambda>aad.
     and_then (or_err (\<lambda>e. Msg ''aes.NewCipher:'') (aes_NewCipher key)) (\<lambda>block.
     and_then (or_err (\<lambda>e. Msg ''cipher.NewGCM:'') (cipher_NewGCM block)) (\<lambda>gcm.
     and_then (aead_Seal gcm nonce plaintext aad) (\<lambda>ct.
     let buf = [VersionAEADv1] @ nonce @ ct; expected = RawURLEncoding_EncodeToString buf in
     Ok \<lparr>av_Name = name, av_KeyHex = keyHex, av_NonceHex = nonceHex, av_AADHex = aadHex,
         av_PlaintextHex = plaintextHex, av_ExpectedB64URL = expected\<rparr>))))))"

fun collect :: "('a \<Rightarrow> 'b res) \<Rightarrow> 'a list \<Rightarrow> 'b list res" where
  "collect f [] = Ok []"
| "collect f (x # xs) = and_then (f x) (\<lambda>y. and_then (collect f xs) (\<lambda>ys. Ok (y # ys)))"

definition aead_specs :: "aead_vector_spec list" where
  "aead_specs =
    [(''all-zero key, all-zero nonce, empty plaintext, no AAD'',
       repeatHex (lit ''00'') 32, repeatHex (lit ''00'') 12, [], []),
     (''all-zero key, all-zero nonce, ASCII plaintext, no AAD'',
       repeatHex (lit ''00'') 32, repeatHex (lit ''00'') 12, [], hex_EncodeToString (lit ''hello, world'')),
     (''all-zero key, all-zero nonce, ASCII plaintext, ASCII AAD'',
       repeatHex (lit ''00'') 32, repeatHex (lit ''00'') 12, hex_EncodeToString (lit ''user:42''),
       hex_EncodeToString (lit ''hello, world'')),
     (''patterned key, patterned nonce, longer plaintext'',
       lit ''000102030405060708090a0b0c0d0e0f101112131415161718191a1b1c1d1e1f'',
       lit ''111213141516171819101a1b'', hex_EncodeToString (lit ''context-binding-string''),
       hex_EncodeToString (lit ''the quick brown fox jumps over the lazy dog 0123456789'')),
     (''binary plaintext, no AAD'',
       lit ''0123456789abcdef0123456789abcdef0123456789abcdef0123456789abcdef'',
       lit ''fedcba9876543210fedcba98'', [],
       lit ''000102030405060708090a0b0c0d0e0ffefcfdf8f0e0d0c0b0a0908070605040'')]"

definition aeadVectors :: "AEADVector list res" where
  "aeadVectors = collect aead_vector aead_specs"

subsection \<open>HMAC vectors\<close>

type_synonym hmac_vector_spec = "string \<times> gostring \<times> gostring"

definition hmac_vector :: "hmac_vector_spec \<Rightarrow> HMACVector res" where
  "hmac_vector = (\<lambda>(name, keyHex, dataHex).
     let key = hex_decoded_prefix keyHex in
     and_then (of_option (Msg ''decode data_hex %q: %v'') (hex_DecodeString dataHex)) (\<lambda>data.
     let mac = hmac_sha256 key data in
     Ok \<lparr>hv_Name = name, hv_KeyHex = keyHex, hv_DataHex = dataHex, hv_ExpectedHex = hex_EncodeToString mac\<rparr>))"

definition hmac_specs :: "hmac_vector_spec list" where
  "hmac_specs =
    [(''empty data'', repeatHex (lit ''aa'') 32, []),
     (''short ASCII data'', repeatHex (lit ''aa'') 32, hex_EncodeToString (lit ''hello'')),
     (''long ASCII data'', lit ''0123456789abcdef0123456789abcdef0123456789abcdef0123456789abcdef'',
       hex_EncodeToString (lit ''the quick brown fox jumps over the lazy dog'')),
     (''binary data'', lit ''fedcba9876543210fedcba9876543210fedcba9876543210fedcba9876543210'',
       lit ''000102fffefd'')]"

definition hmacVectors :: "HMACVector list res" where
  "hmacVectors = collect hmac_vector hmac_specs"

subsection \<open>CBC vectors\<close>

type_synonym cbc_vector_spec = "string \<times> gostring \<times> gostring \<times> gostring"

definition cbc_vector :: "cbc_vector_spec \<Rightarrow> CBCVector res" where
  "cbc_vector = (\<lambda>(name, keyHex, ivHex, plaintextHex).
     let key = hex_decoded_prefix keyHex; iv = hex_decoded_prefix ivHex in
     and_then (of_option (Msg ''decode plaintext_hex: %v'') (hex_DecodeString plaintextHex)) (\<lambda>plaintext.
     and_then (or_err (\<lambda>e. Msg ''aes.NewCipher:'') (aes_NewCipher key)) (\<lambda>block.
     and_then (pkcs7Pad plaintext aes_BlockSize) (\<lambda>padded.
     and_then (CBCEncrypter_CryptBlocks block iv padded) (\<lambda>ct.
     Ok \<lparr>cv_Name = name, cv_KeyHex = keyHex, cv_IVHex = ivHex, cv_PlaintextHex = plaintextHex,
         cv_ExpectedHex = hex_EncodeToString (iv @ ct)\<rparr>)))))"

definition cbc_specs :: "cbc_vector_spec list" where
  "cbc_specs =
    [(''AES-256-CBC, short plaintext'', repeatHex (lit ''00'') 32, repeatHex (lit ''11'') 16,
       hex_EncodeToString (lit ''hello'')),
     (''AES-256-CBC, exact-block plaintext'', repeatHex (lit ''00'') 32, repeatHex (lit ''22'') 16,
       hex_EncodeToString (lit ''0123456789abcdef'')),
     (''AES-256-CBC, longer plaintext'', lit ''0123456789abcdef0123456789abcdef0123456789abcdef0123456789abcdef'',
       lit ''fedcba9876543210fedcba9876543210'',
       hex_EncodeToString (lit ''the quick brown fox jumps over the lazy dog''))]"

definition cbcVectors :: "CBCVector list res" where
  "cbcVectors = collect cbc_vector cbc_specs"

subsection \<open>The padding of the generator is that of the package\<close>

lemma pkcs7Pad_pad: "pkcs7Pad buf sz = pad buf sz"
  by (simp add: pkcs7Pad_def pad_def Let_def map_replicate_const)

subsection \<open>Each vector is accepted\<close>

lemma hex_decoded_prefix_valid: "hex_DecodeString s = Some bs \<Longrightarrow> hex_decoded_prefix s = bs"
  by (induction s arbitrary: bs rule: hex_DecodeString.induct) (auto split: option.splits)

definition hex_size :: "nat \<Rightarrow> gostring \<Rightarrow> bool" where
  "hex_size n s \<longleftrightarrow> (case hex_DecodeString s of None \<Rightarrow> False | Some bs \<Rightarrow> length bs = n)"

lemma collect_Ok:
  "list_all (\<lambda>x. \<exists>y. f x = Ok y \<and> P y) xs \<Longrightarrow> \<exists>ys. collect f xs = Ok ys \<and> length ys = length xs \<and> list_all P ys"
  by (induction xs) auto

lemma EncryptCBC_iv:
  assumes "aes_key_size (length key)" and "length iv = 16"
  shows "\<exists>padded ct. pad p 16 = Ok padded \<and> CBCEncrypter_CryptBlocks (aes_block key) iv padded = Ok ct \<and>
    DecryptCBC key (hex_EncodeToString (iv @ ct)) = Ok p"
proof -
  let ?rnd = "\<lparr>rd_data = iv, rd_end = EOF\<rparr>"
  obtain c r where c: "EncryptCBC key p ?rnd = (Ok c, r)"
    using EncryptCBC_returns [OF assms(1), of ?rnd p] assms(2) by auto
  then obtain padded ct where "pad p aes_BlockSize = Ok padded"
      "CBCEncrypter_CryptBlocks (aes_block key) iv padded = Ok ct" "c = hex_EncodeToString (iv @ ct)"
    using assms
    by (auto simp: EncryptCBC_def valid_aes_key then_do_eq_Ok read_rand_Ok aes_BlockSize_def or_err_eq_Ok
        split: if_splits)
  with EncryptCBC_DecryptCBC [OF c] show ?thesis by (auto simp: aes_BlockSize_def)
qed

definition aead_spec_valid :: "aead_vector_spec \<Rightarrow> bool" where
  "aead_spec_valid = (\<lambda>(name, keyHex, nonceHex, aadHex, plaintextHex).
     hex_size 32 keyHex \<and> hex_size 12 nonceHex \<and> hex_DecodeString aadHex \<noteq> None \<and>
     hex_DecodeString plaintextHex \<noteq> None \<and> length plaintextHex \<le> 1000)"

definition aead_vector_opens :: "AEADVector \<Rightarrow> bool" where
  "aead_vector_opens v \<longleftrightarrow>
     Open (hex_decoded_prefix (av_KeyHex v)) (av_ExpectedB64URL v) (hex_decoded_prefix (av_AADHex v)) =
       Ok (hex_decoded_prefix (av_PlaintextHex v))"

lemma aead_vector_accepted:
  assumes "aead_spec_valid spec"
  shows "\<exists>v. aead_vector spec = Ok v \<and> aead_vector_opens v"
proof -
  obtain name keyHex nonceHex aadHex plaintextHex where spec: "spec = (name, keyHex, nonceHex, aadHex, plaintextHex)"
    by (cases spec) auto
  obtain key nonce aad p where h: "hex_DecodeString keyHex = Some key" "length key = 32"
      "hex_DecodeString nonceHex = Some nonce" "length nonce = 12" "hex_DecodeString aadHex = Some aad"
      "hex_DecodeString plaintextHex = Some p" "length plaintextHex \<le> 1000"
    using assms by (auto simp: aead_spec_valid_def spec hex_size_def split: option.splits)
  note pre = h(1,3,5,6)[THEN hex_decoded_prefix_valid]
  have "length p \<le> gcm_max" using h(7) length_hex_decode [OF h(6)] by (simp add: gcm_max_def)
  then obtain ct where ct: "aead_Seal (aes_gcm key) nonce p aad = Ok ct"
    using aes_gcm.seal_Ok [OF h(2,4)] by blast
  have "Open key (RawURLEncoding_EncodeToString (frame VersionAEADv1 nonce ct)) aad = Ok p"
    unfolding Open_spec [OF h(2)] by (rule aes_gcm.open_spec_frame [OF h(2,4) ct])
  moreover have "(if aadHex \<noteq> [] then of_option (Msg ''decode aad_hex %q: %v'') (hex_DecodeString aadHex) else Ok []) = Ok aad"
    using h(5) by auto
  ultimately show ?thesis
    using h(2,6) ct by (simp add: spec aead_vector_def pre aead_vector_opens_def frame_def Let_def)
qed

definition hmac_vector_verifies :: "HMACVector \<Rightarrow> bool" where
  "hmac_vector_verifies v \<longleftrightarrow>
     Verify (hex_decoded_prefix (hv_KeyHex v)) (hex_decoded_prefix (hv_DataHex v)) (hex_decoded_prefix (hv_ExpectedHex v))"

lemma hmac_vector_accepted:
  assumes "hex_DecodeString (snd (snd spec)) \<noteq> None"
  shows "\<exists>v. hmac_vector spec = Ok v \<and> hmac_vector_verifies v"
proof -
  obtain name keyHex dataHex data where spec: "spec = (name, keyHex, dataHex)" "hex_DecodeString dataHex = Some data"
    using assms by (cases spec) auto
  moreover have "hex_decoded_prefix (hex_EncodeToString (hmac_sha256 k data)) = hmac_sha256 k data" for k
    by (rule hex_decoded_prefix_valid) simp
  ultimately show ?thesis
    by (simp add: hmac_vector_def hmac_vector_verifies_def Verify_iff Sign_def hex_decoded_prefix_valid)
qed

definition cbc_spec_valid :: "cbc_vector_spec \<Rightarrow> bool" where
  "cbc_spec_valid = (\<lambda>(name, keyHex, ivHex, plaintextHex).
     hex_size 32 keyHex \<and> hex_size 16 ivHex \<and> hex_DecodeString plaintextHex \<noteq> None)"

definition cbc_vector_decrypts :: "CBCVector \<Rightarrow> bool" where
  "cbc_vector_decrypts v \<longleftrightarrow>
     DecryptCBC (hex_decoded_prefix (cv_KeyHex v)) (cv_ExpectedHex v) = Ok (hex_decoded_prefix (cv_PlaintextHex v))"

lemma cbc_vector_accepted:
  assumes "cbc_spec_valid spec"
  shows "\<exists>v. cbc_vector spec = Ok v \<and> cbc_vector_decrypts v"
proof -
  obtain name keyHex ivHex plaintextHex where spec: "spec = (name, keyHex, ivHex, plaintextHex)"
    by (cases spec) auto
  obtain key iv p where h: "hex_DecodeString keyHex = Some key" "length key = 32"
      "hex_DecodeString ivHex = Some iv" "length iv = 16" "hex_DecodeString plaintextHex = Some p"
    using assms by (auto simp: cbc_spec_valid_def spec hex_size_def split: option.splits)
  note pre = h(1,3,5)[THEN hex_decoded_prefix_valid]
  have "aes_key_size (length key)" by (simp add: h(2) aes_key_size_def)
  from EncryptCBC_iv [OF this h(4), of p] show ?thesis
    using h(2,5)
    by (auto simp: spec cbc_vector_def pre cbc_vector_decrypts_def pkcs7Pad_pad aes_BlockSize_def Let_def)
qed

text \<open>The hexadecimal literals of the tables decode; those of the form \<^verbatim>\<open>hex.EncodeToString\<close> do by the codec's contract.\<close>

lemma hex_size_literals:
  "hex_size 32 (lit ''000102030405060708090a0b0c0d0e0f101112131415161718191a1b1c1d1e1f'')"
  "hex_size 32 (lit ''0123456789abcdef0123456789abcdef0123456789abcdef0123456789abcdef'')"
  "hex_size 32 (lit ''000102030405060708090a0b0c0d0e0ffefcfdf8f0e0d0c0b0a0908070605040'')"
  "hex_size 16 (lit ''fedcba9876543210fedcba9876543210'')"
  "hex_size 12 (lit ''111213141516171819101a1b'')"
  "hex_size 12 (lit ''fedcba9876543210fedcba98'')"
  "hex_size 6 (lit ''000102fffefd'')"
  "hex_size 32 (repeatHex (lit ''00'') 32)"
  "hex_size 12 (repeatHex (lit ''00'') 12)"
  "hex_size 16 (repeatHex (lit ''11'') 16)"
  "hex_size 16 (repeatHex (lit ''22'') 16)"
  by code_simp+

lemma hex_size_decodes: "hex_size n s \<Longrightarrow> \<exists>bs. hex_DecodeString s = Some bs"
  by (auto simp: hex_size_def split: option.splits)

lemmas spec_literals = hex_size_literals hex_size_literals [THEN hex_size_decodes]

lemma length_lit: "length (lit s) = length s"
  by (simp add: lit_def)

lemma specs_valid:
  "list_all aead_spec_valid aead_specs" "list_all (\<lambda>s. hex_DecodeString (snd (snd s)) \<noteq> None) hmac_specs"
  "list_all cbc_spec_valid cbc_specs"
  using spec_literals
  by (simp_all add: aead_specs_def hmac_specs_def cbc_specs_def aead_spec_valid_def cbc_spec_valid_def length_lit)

lemma aeadVectors_ok: "\<exists>as. aeadVectors = Ok as \<and> length as = 5 \<and> list_all aead_vector_opens as"
proof -
  have "list_all (\<lambda>s. \<exists>v. aead_vector s = Ok v \<and> aead_vector_opens v) aead_specs"
    using specs_valid(1) aead_vector_accepted by (auto simp: list_all_iff)
  from collect_Ok [OF this] have "\<exists>ys. collect aead_vector aead_specs = Ok ys \<and> length ys = length aead_specs \<and>
      list_all aead_vector_opens ys" .
  moreover have "length aead_specs = 5" by (simp add: aead_specs_def)
  ultimately show ?thesis by (simp only: aeadVectors_def)
qed

lemma hmacVectors_ok: "\<exists>hs. hmacVectors = Ok hs \<and> length hs = 4 \<and> list_all hmac_vector_verifies hs"
proof -
  have "list_all (\<lambda>s. \<exists>v. hmac_vector s = Ok v \<and> hmac_vector_verifies v) hmac_specs"
    using specs_valid(2) hmac_vector_accepted by (auto simp: list_all_iff)
  from collect_Ok [OF this] have "\<exists>ys. collect hmac_vector hmac_specs = Ok ys \<and> length ys = length hmac_specs \<and>
      list_all hmac_vector_verifies ys" .
  moreover have "length hmac_specs = 4" by (simp add: hmac_specs_def)
  ultimately show ?thesis by (simp only: hmacVectors_def)
qed

lemma cbcVectors_ok: "\<exists>cs. cbcVectors = Ok cs \<and> length cs = 3 \<and> list_all cbc_vector_decrypts cs"
proof -
  have "list_all (\<lambda>s. \<exists>v. cbc_vector s = Ok v \<and> cbc_vector_decrypts v) cbc_specs"
    using specs_valid(3) cbc_vector_accepted by (auto simp: list_all_iff)
  from collect_Ok [OF this] have "\<exists>ys. collect cbc_vector cbc_specs = Ok ys \<and> length ys = length cbc_specs \<and>
      list_all cbc_vector_decrypts ys" .
  moreover have "length cbc_specs = 3" by (simp add: cbc_specs_def)
  ultimately show ?thesis by (simp only: cbcVectors_def)
qed

subsection \<open>The document\<close>

record Vectors =
  vs_Version :: int
  vs_Notes :: gostring
  vs_AEAD :: "AEADVector list"
  vs_HMAC :: "HMACVector list"
  vs_CBC :: "CBCVector list"

text \<open>The tree of a value: the members are the fields under the names of their \<^verbatim>\<open>json\<close> tags.\<close>

definition json_fields :: "(string \<times> json) list \<Rightarrow> json" where
  "json_fields fs = JObj (map (\<lambda>(k, v). (lit k, v)) fs)"

definition AEADVector_json :: "AEADVector \<Rightarrow> json" where
  "AEADVector_json v = json_fields
     [(''name'', JStr (lit (av_Name v))), (''key_hex'', JStr (av_KeyHex v)), (''nonce_hex'', JStr (av_NonceHex v)),
      (''aad_hex'', JStr (av_AADHex v)), (''plaintext_hex'', JStr (av_PlaintextHex v)),
      (''expected_b64url'', JStr (av_ExpectedB64URL v))]"

definition HMACVector_json :: "HMACVector \<Rightarrow> json" where
  "HMACVector_json v = json_fields
     [(''name'', JStr (lit (hv_Name v))), (''key_hex'', JStr (hv_KeyHex v)), (''data_hex'', JStr (hv_DataHex v)),
      (''expected_hex'', JStr (hv_ExpectedHex v))]"

definition CBCVector_json :: "CBCVector \<Rightarrow> json" where
  "CBCVector_json v = json_fields
     [(''name'', JStr (lit (cv_Name v))), (''key_hex'', JStr (cv_KeyHex v)), (''iv_hex'', JStr (cv_IVHex v)),
      (''plaintext_hex'', JStr (cv_PlaintextHex v)), (''expected_hex'', JStr (cv_ExpectedHex v))]"

definition Vectors_json :: "Vectors \<Rightarrow> json" where
  "Vectors_json v = json_fields
     [(''version'', JNum (FormatInt (vs_Version v))), (''notes'', JStr (vs_Notes v)),
      (''aead'', JArr (map AEADVector_json (vs_AEAD v))), (''hmac'', JArr (map HMACVector_json (vs_HMAC v))),
      (''cbc_legacy'', JArr (map CBCVector_json (vs_CBC v)))]"

definition vectors_notes :: gostring where
  "vectors_notes = lit (''Cross-language test vectors for github.com/ubgo/crypt and @ubgo/crypt. '' @
     ''Both Go and TS test suites consume this file. '' @
     ''Regenerate with: go run ./cmd/gen-vectors > testdata/vectors.json'')"

definition gen_vectors_main :: "writer \<Rightarrow> unit res \<times> writer" where
  "gen_vectors_main stdout =
     then_do (aeadVectors, stdout) (\<lambda>aead stdout.
     then_do (hmacVectors, stdout) (\<lambda>hmac stdout.
     then_do (cbcVectors, stdout) (\<lambda>cbc stdout.
     let v = \<lparr>vs_Version = 1, vs_Notes = vectors_notes, vs_AEAD = aead, vs_HMAC = hmac, vs_CBC = cbc\<rparr> in
     case Write (Encode_indented (Vectors_json v)) stdout of
       (Some e, stdout) \<Rightarrow> (Err (Msg ''encode:''), stdout)
     | (None, stdout) \<Rightarrow> (Ok (), stdout))))"

text \<open>Every string of the document is ASCII, so the encoder copies it and the document parses back.\<close>

definition ascii :: "gostring \<Rightarrow> bool" where
  "ascii = list_all (\<lambda>b. b < 0x80)"

lemma ascii_valid: "ascii s \<Longrightarrow> ToValidUTF8 s = s"
  by (induction s) (simp_all add: ascii_def ToValidUTF8_ascii)

lemma ascii_nth: "ascii al \<Longrightarrow> i < length al \<Longrightarrow> al ! i < 0x80"
  by (simp add: ascii_def list_all_length)

lemma ascii_hex: "ascii (hex_EncodeToString bs)"
proof (induction bs)
  case (Cons b bs)
  have table: "ascii hextable" "length hextable = 16" by (simp_all add: ascii_def hextable_def lit_def)
  have "unat (drop_bit 4 b) < 16" "unat (take_bit 4 b) < 16"
    by (rule unat_nibble; simp add: bit_simps)+
  with Cons show ?case using ascii_nth [OF table(1)] table(2) by (simp add: ascii_def)
qed (simp add: ascii_def)

lemma ascii_url: "ascii (RawURLEncoding_EncodeToString bs)"
proof -
  have table: "ascii url_alphabet" "length url_alphabet = 64" by (simp_all add: ascii_def url_alphabet_def lit_def)
  show ?thesis
    using b64_split_sextets [of _ bs] ascii_nth [OF table(1)] table(2)
    by (auto simp: ascii_def RawURLEncoding_EncodeToString_def b64_encode_def list_all_iff)
qed

lemma ascii_repeat: "ascii s \<Longrightarrow> ascii (repeatHex s n)"
  by (induction n) (simp_all add: ascii_def)

lemma collect_rel: "collect f xs = Ok ys \<Longrightarrow> list_all2 (\<lambda>x y. f x = Ok y) xs ys"
  by (induction xs arbitrary: ys) (auto simp: and_then_eq_Ok)

lemma encodable_fields:
  "encodable (Suc n) (json_fields fs) \<longleftrightarrow> list_all (\<lambda>(k, v). ToValidUTF8 (lit k) = lit k \<and> encodable n v) fs"
  by (auto simp: json_fields_def list_all_iff)

lemma encodable_str: "ascii s \<Longrightarrow> encodable n (JStr s)"
  by (simp add: ascii_valid)

lemma aead_vector_encodable:
  assumes "aead_vector (name, keyHex, nonceHex, aadHex, plaintextHex) = Ok v"
    and "ascii (lit name)" "ascii keyHex" "ascii nonceHex" "ascii aadHex" "ascii plaintextHex"
  shows "encodable (Suc n) (AEADVector_json v)"
  using assms ascii_url
  by (auto simp: aead_vector_def and_then_eq_Ok Let_def AEADVector_json_def encodable_fields encodable_str
      intro!: ascii_valid simp del: encodable.simps) (simp_all add: ascii_def lit_def)

lemma hmac_vector_encodable:
  assumes "hmac_vector (name, keyHex, dataHex) = Ok v" and "ascii (lit name)" "ascii keyHex" "ascii dataHex"
  shows "encodable (Suc n) (HMACVector_json v)"
  using assms ascii_hex
  by (auto simp: hmac_vector_def and_then_eq_Ok Let_def HMACVector_json_def encodable_fields encodable_str
      intro!: ascii_valid simp del: encodable.simps) (simp_all add: ascii_def lit_def)

lemma cbc_vector_encodable:
  assumes "cbc_vector (name, keyHex, ivHex, plaintextHex) = Ok v"
    and "ascii (lit name)" "ascii keyHex" "ascii ivHex" "ascii plaintextHex"
  shows "encodable (Suc n) (CBCVector_json v)"
  using assms ascii_hex
  by (auto simp: cbc_vector_def and_then_eq_Ok Let_def CBCVector_json_def encodable_fields encodable_str
      intro!: ascii_valid simp del: encodable.simps) (simp_all add: ascii_def lit_def)

lemma ascii_literals:
  "ascii (lit ''000102030405060708090a0b0c0d0e0f101112131415161718191a1b1c1d1e1f'')"
  "ascii (lit ''0123456789abcdef0123456789abcdef0123456789abcdef0123456789abcdef'')"
  "ascii (lit ''fedcba9876543210fedcba9876543210fedcba9876543210fedcba9876543210'')"
  "ascii (lit ''000102030405060708090a0b0c0d0e0ffefcfdf8f0e0d0c0b0a0908070605040'')"
  "ascii (lit ''fedcba9876543210fedcba9876543210'')" "ascii (lit ''111213141516171819101a1b'')"
  "ascii (lit ''fedcba9876543210fedcba98'')" "ascii (lit ''000102fffefd'')" "ascii []"
  "ascii (lit ''00'')" "ascii (lit ''11'')" "ascii (lit ''22'')" "ascii (lit ''aa'')" "ascii vectors_notes"
  by code_simp+

lemma specs_ascii:
  "\<forall>(name, keyHex, nonceHex, aadHex, plaintextHex) \<in> set aead_specs.
     ascii (lit name) \<and> ascii keyHex \<and> ascii nonceHex \<and> ascii aadHex \<and> ascii plaintextHex"
  "\<forall>(name, keyHex, dataHex) \<in> set hmac_specs. ascii (lit name) \<and> ascii keyHex \<and> ascii dataHex"
  "\<forall>(name, keyHex, ivHex, plaintextHex) \<in> set cbc_specs.
     ascii (lit name) \<and> ascii keyHex \<and> ascii ivHex \<and> ascii plaintextHex"
proof -
  have names: "list_all (\<lambda>s. ascii (lit (fst s))) aead_specs" "list_all (\<lambda>s. ascii (lit (fst s))) hmac_specs"
    "list_all (\<lambda>s. ascii (lit (fst s))) cbc_specs"
    by (simp_all add: aead_specs_def hmac_specs_def cbc_specs_def) (simp_all add: ascii_def lit_def)
  note hex = ascii_literals ascii_hex ascii_repeat
  from names(1) show "\<forall>(name, keyHex, nonceHex, aadHex, plaintextHex) \<in> set aead_specs.
     ascii (lit name) \<and> ascii keyHex \<and> ascii nonceHex \<and> ascii aadHex \<and> ascii plaintextHex"
    by (simp add: aead_specs_def hex)
  from names(2) show "\<forall>(name, keyHex, dataHex) \<in> set hmac_specs. ascii (lit name) \<and> ascii keyHex \<and> ascii dataHex"
    by (simp add: hmac_specs_def hex)
  from names(3) show "\<forall>(name, keyHex, ivHex, plaintextHex) \<in> set cbc_specs.
     ascii (lit name) \<and> ascii keyHex \<and> ascii ivHex \<and> ascii plaintextHex"
    by (simp add: cbc_specs_def hex)
qed

lemma collect_all:
  assumes "collect f xs = Ok ys" and "\<And>x y. x \<in> set xs \<Longrightarrow> f x = Ok y \<Longrightarrow> P y"
  shows "list_all P ys"
  using collect_rel [OF assms(1)] assms(2) by (induction rule: list_all2_induct) auto

lemma vectors_encodable:
  assumes "aeadVectors = Ok as" and "hmacVectors = Ok hs" and "cbcVectors = Ok cs"
  shows "encodable 10000 (Vectors_json \<lparr>vs_Version = 1, vs_Notes = vectors_notes, vs_AEAD = as, vs_HMAC = hs, vs_CBC = cs\<rparr>)"
proof -
  have "list_all (encodable (Suc n)) (map AEADVector_json as)" for n
    unfolding list.pred_map comp_def
    using specs_ascii(1) aead_vector_encodable by (intro collect_all [OF assms(1) [unfolded aeadVectors_def]]) fastforce
  moreover have "list_all (encodable (Suc n)) (map HMACVector_json hs)" for n
    unfolding list.pred_map comp_def
    using specs_ascii(2) hmac_vector_encodable by (intro collect_all [OF assms(2) [unfolded hmacVectors_def]]) fastforce
  moreover have "list_all (encodable (Suc n)) (map CBCVector_json cs)" for n
    unfolding list.pred_map comp_def
    using specs_ascii(3) cbc_vector_encodable by (intro collect_all [OF assms(3) [unfolded cbcVectors_def]]) fastforce
  ultimately have arrays: "encodable (Suc (Suc n)) (JArr (map AEADVector_json as))" "encodable (Suc (Suc n)) (JArr (map HMACVector_json hs))"
      "encodable (Suc (Suc n)) (JArr (map CBCVector_json cs))" for n
    by simp_all
  have version: "encodable n (JNum (FormatInt 1))" for n using ParseInt_FormatInt [of 1] by simp
  have note_text: "encodable n (JStr vectors_notes)" for n using ascii_literals by (intro encodable_str)
  have names: "ToValidUTF8 (lit k) = lit k" if "k \<in> {''version'', ''notes'', ''aead'', ''hmac'', ''cbc_legacy''}" for k
    using that by (auto simp: lit_def ToValidUTF8_ascii)
  have "encodable (Suc (Suc (Suc 9997))) (Vectors_json \<lparr>vs_Version = 1, vs_Notes = vectors_notes, vs_AEAD = as, vs_HMAC = hs, vs_CBC = cs\<rparr>)"
    unfolding Vectors_json_def encodable_fields
    using arrays [of 9997] version note_text names by (simp del: encodable.simps)
  then show ?thesis by simp
qed

subsection \<open>The package accepts what the generator writes\<close>

lemma generated_vectors_ok:
  assumes "aeadVectors = Ok as" and "hmacVectors = Ok hs" and "cbcVectors = Ok cs"
  shows "length as = 5 \<and> list_all aead_vector_opens as" "length hs = 4 \<and> list_all hmac_vector_verifies hs"
    "length cs = 3 \<and> list_all cbc_vector_decrypts cs"
  using aeadVectors_ok hmacVectors_ok cbcVectors_ok by (simp_all add: assms)

end
