(* ===== verification/AnswersAead.thy ===== *)
theory AnswersAead
  imports AnswersKeys GenVectors
begin

text \<open>
  The five AES-256-GCM vectors of \<^verbatim>\<open>src/testdata/vectors.json\<close>: counter mode block by block, GHASH product by
  product.
\<close>

lemma zero_block: "replicate 16 0 = ([0, 0, 0, 0, 0, 0, 0, 0, 0, 0, 0, 0, 0, 0, 0, 0] :: bytes)"
  by code_simp

lemma zero_block1: "block_Encrypt (aes_block zero_key)
    [0, 0, 0, 0, 0, 0, 0, 0, 0, 0, 0, 0, 0, 0, 0, 0] =
    [0xdc, 0x95, 0xc0, 0x78, 0xa2, 0x40, 0x89, 0x89, 0xad, 0x48, 0xa2, 0x14, 0x92, 0x84, 0x20, 0x87]"
  by (simp add: block_Encrypt_aes zero_round_keys aes_eval)

lemma zero_block2: "block_Encrypt (aes_block zero_key)
    [0, 0, 0, 0, 0, 0, 0, 0, 0, 0, 0, 0, 0, 0, 0, 1] =
    [0x53, 0x0f, 0x8a, 0xfb, 0xc7, 0x45, 0x36, 0xb9, 0xa9, 0x63, 0xb4, 0xf1, 0xc4, 0xcb, 0x73, 0x8b]"
  by (simp add: block_Encrypt_aes zero_round_keys aes_eval)

lemma ctr1: "ctr_mode (aes_block zero_key) [0, 0, 0, 0, 0, 0, 0, 0, 0, 0, 0, 0] 2 [] = []"
  by (simp add: ctr_mode.simps)

lemma ghash1: "ghash (block_word [0xdc, 0x95, 0xc0, 0x78, 0xa2, 0x40, 0x89, 0x89, 0xad, 0x48, 0xa2, 0x14, 0x92, 0x84, 0x20, 0x87]) 0
    [0, 0, 0, 0, 0, 0, 0, 0, 0, 0, 0, 0, 0, 0, 0, 0] =
    block_word [0, 0, 0, 0, 0, 0, 0, 0, 0, 0, 0, 0, 0, 0, 0, 0]"
  by (simp add: ghash_eval )

lemma seal1: "gcm_Seal (aes_block zero_key) [0, 0, 0, 0, 0, 0, 0, 0, 0, 0, 0, 0]
    []
    [] =
    Ok [0x53, 0x0f, 0x8a, 0xfb, 0xc7, 0x45, 0x36, 0xb9, 0xa9, 0x63, 0xb4, 0xf1, 0xc4, 0xcb, 0x73, 0x8b]"
proof -
  have "pad16 [] @
      pad16 [] @
      PutUint64 (word_of_nat (8 * 0)) @ PutUint64 (word_of_nat (8 * 0)) =
    [0, 0, 0, 0, 0, 0, 0, 0, 0, 0, 0, 0, 0, 0, 0, 0]"
    by code_simp
  then have "gcm_tag (aes_block zero_key) [0, 0, 0, 0, 0, 0, 0, 0, 0, 0, 0, 0]
      []
      [] =
      [0x53, 0x0f, 0x8a, 0xfb, 0xc7, 0x45, 0x36, 0xb9, 0xa9, 0x63, 0xb4, 0xf1, 0xc4, 0xcb, 0x73, 0x8b]"
    by (simp add: gcm_tag_def zero_block zero_block1 PutUint32_def zero_block2 ghash1 word_block_block_word)
  then show ?thesis by (simp add: gcm_Seal_def gcm_max_def ctr1)
qed

lemma zero_block3: "block_Encrypt (aes_block zero_key)
    [0, 0, 0, 0, 0, 0, 0, 0, 0, 0, 0, 0, 0, 0, 0, 0x02] =
    [0xce, 0xa7, 0x40, 0x3d, 0x4d, 0x60, 0x6b, 0x6e, 0x07, 0x4e, 0xc5, 0xd3, 0xba, 0xf3, 0x9d, 0x18]"
  by (simp add: block_Encrypt_aes zero_round_keys aes_eval)

lemma ctr2: "ctr_mode (aes_block zero_key) [0, 0, 0, 0, 0, 0, 0, 0, 0, 0, 0, 0] 2
    [0x68, 0x65, 0x6c, 0x6c, 0x6f, 0x2c, 0x20, 0x77, 0x6f, 0x72, 0x6c, 0x64] =
    [0xa6, 0xc2, 0x2c, 0x51, 0x22, 0x4c, 0x4b, 0x19, 0x68, 0x3c, 0xa9, 0xb7]"
  by (simp add: ctr_mode.simps PutUint32_def zero_block3)

lemma product2_1: "gf_mul (block_word [0xa6, 0xc2, 0x2c, 0x51, 0x22, 0x4c, 0x4b, 0x19, 0x68, 0x3c, 0xa9, 0xb7, 0, 0, 0, 0])
    (block_word [0xdc, 0x95, 0xc0, 0x78, 0xa2, 0x40, 0x89, 0x89, 0xad, 0x48, 0xa2, 0x14, 0x92, 0x84, 0x20, 0x87]) =
    block_word [0xc5, 0x78, 0x79, 0x17, 0xdd, 0xc1, 0x67, 0xbb, 0x78, 0x14, 0x17, 0x96, 0x64, 0xd9, 0x19, 0xa6]"
  unfolding gf_mul_eval by (simp add: gf_eval block_word_int)

lemma product2_2: "gf_mul (block_word [0xc5, 0x78, 0x79, 0x17, 0xdd, 0xc1, 0x67, 0xbb, 0x78, 0x14, 0x17, 0x96, 0x64, 0xd9, 0x19, 0xc6])
    (block_word [0xdc, 0x95, 0xc0, 0x78, 0xa2, 0x40, 0x89, 0x89, 0xad, 0x48, 0xa2, 0x14, 0x92, 0x84, 0x20, 0x87]) =
    block_word [0x76, 0x7d, 0x34, 0x94, 0x84, 0xb9, 0x35, 0xf2, 0x15, 0xd2, 0x6b, 0x06, 0x95, 0xd1, 0x30, 0x29]"
  unfolding gf_mul_eval by (simp add: gf_eval block_word_int)

lemma ghash2: "ghash (block_word [0xdc, 0x95, 0xc0, 0x78, 0xa2, 0x40, 0x89, 0x89, 0xad, 0x48, 0xa2, 0x14, 0x92, 0x84, 0x20, 0x87]) 0
    [0xa6, 0xc2, 0x2c, 0x51, 0x22, 0x4c, 0x4b, 0x19, 0x68, 0x3c, 0xa9, 0xb7, 0, 0, 0, 0,
     0, 0, 0, 0, 0, 0, 0, 0, 0, 0, 0, 0, 0, 0, 0, 0x60] =
    block_word [0x76, 0x7d, 0x34, 0x94, 0x84, 0xb9, 0x35, 0xf2, 0x15, 0xd2, 0x6b, 0x06, 0x95, 0xd1, 0x30, 0x29]"
  by (simp add: ghash_eval product2_1 product2_2)

lemma seal2: "gcm_Seal (aes_block zero_key) [0, 0, 0, 0, 0, 0, 0, 0, 0, 0, 0, 0]
    [0x68, 0x65, 0x6c, 0x6c, 0x6f, 0x2c, 0x20, 0x77, 0x6f, 0x72, 0x6c, 0x64]
    [] =
    Ok [0xa6, 0xc2, 0x2c, 0x51, 0x22, 0x4c, 0x4b, 0x19, 0x68, 0x3c, 0xa9, 0xb7, 0x25, 0x72, 0xbe, 0x6f,
     0x43, 0xfc, 0x03, 0x4b, 0xbc, 0xb1, 0xdf, 0xf7, 0x51, 0x1a, 0x43, 0xa2]"
proof -
  have "pad16 [] @
      pad16 [0xa6, 0xc2, 0x2c, 0x51, 0x22, 0x4c, 0x4b, 0x19, 0x68, 0x3c, 0xa9, 0xb7] @
      PutUint64 (word_of_nat (8 * 0)) @ PutUint64 (word_of_nat (8 * 12)) =
    [0xa6, 0xc2, 0x2c, 0x51, 0x22, 0x4c, 0x4b, 0x19, 0x68, 0x3c, 0xa9, 0xb7, 0, 0, 0, 0,
     0, 0, 0, 0, 0, 0, 0, 0, 0, 0, 0, 0, 0, 0, 0, 0x60]"
    by code_simp
  then have "gcm_tag (aes_block zero_key) [0, 0, 0, 0, 0, 0, 0, 0, 0, 0, 0, 0]
      []
      [0xa6, 0xc2, 0x2c, 0x51, 0x22, 0x4c, 0x4b, 0x19, 0x68, 0x3c, 0xa9, 0xb7] =
      [0x25, 0x72, 0xbe, 0x6f, 0x43, 0xfc, 0x03, 0x4b, 0xbc, 0xb1, 0xdf, 0xf7, 0x51, 0x1a, 0x43, 0xa2]"
    by (simp add: gcm_tag_def zero_block zero_block1 PutUint32_def zero_block2 ghash2 word_block_block_word)
  then show ?thesis by (simp add: gcm_Seal_def gcm_max_def ctr2)
qed

lemma ctr3: "ctr_mode (aes_block zero_key) [0, 0, 0, 0, 0, 0, 0, 0, 0, 0, 0, 0] 2
    [0x68, 0x65, 0x6c, 0x6c, 0x6f, 0x2c, 0x20, 0x77, 0x6f, 0x72, 0x6c, 0x64] =
    [0xa6, 0xc2, 0x2c, 0x51, 0x22, 0x4c, 0x4b, 0x19, 0x68, 0x3c, 0xa9, 0xb7]"
  by (simp add: ctr_mode.simps PutUint32_def zero_block3)

lemma product3_1: "gf_mul (block_word [0x75, 0x73, 0x65, 0x72, 0x3a, 0x34, 0x32, 0, 0, 0, 0, 0, 0, 0, 0, 0])
    (block_word [0xdc, 0x95, 0xc0, 0x78, 0xa2, 0x40, 0x89, 0x89, 0xad, 0x48, 0xa2, 0x14, 0x92, 0x84, 0x20, 0x87]) =
    block_word [0xa8, 0x3e, 0xa9, 0xe6, 0, 0xf7, 0x22, 0x99, 0x3f, 0xc2, 0x76, 0xa4, 0xf8, 0xee, 0xb1, 0x15]"
  unfolding gf_mul_eval by (simp add: gf_eval block_word_int)

lemma product3_2: "gf_mul (block_word [0x0e, 0xfc, 0x85, 0xb7, 0x22, 0xbb, 0x69, 0x80, 0x57, 0xfe, 0xdf, 0x13, 0xf8, 0xee, 0xb1, 0x15])
    (block_word [0xdc, 0x95, 0xc0, 0x78, 0xa2, 0x40, 0x89, 0x89, 0xad, 0x48, 0xa2, 0x14, 0x92, 0x84, 0x20, 0x87]) =
    block_word [0x2e, 0xa1, 0x82, 0xa0, 0xda, 0x68, 0x41, 0x17, 0x0d, 0x32, 0x61, 0xf5, 0x74, 0xb4, 0x93, 0x57]"
  unfolding gf_mul_eval by (simp add: gf_eval block_word_int)

lemma product3_3: "gf_mul (block_word [0x2e, 0xa1, 0x82, 0xa0, 0xda, 0x68, 0x41, 0x2f, 0x0d, 0x32, 0x61, 0xf5, 0x74, 0xb4, 0x93, 0x37])
    (block_word [0xdc, 0x95, 0xc0, 0x78, 0xa2, 0x40, 0x89, 0x89, 0xad, 0x48, 0xa2, 0x14, 0x92, 0x84, 0x20, 0x87]) =
    block_word [0x0b, 0xba, 1, 0x1e, 0x68, 0x17, 0xf3, 0x99, 0xb6, 0x5b, 0x70, 0x3e, 0x18, 0xa9, 0x33, 0x16]"
  unfolding gf_mul_eval by (simp add: gf_eval block_word_int)

lemma ghash3: "ghash (block_word [0xdc, 0x95, 0xc0, 0x78, 0xa2, 0x40, 0x89, 0x89, 0xad, 0x48, 0xa2, 0x14, 0x92, 0x84, 0x20, 0x87]) 0
    [0x75, 0x73, 0x65, 0x72, 0x3a, 0x34, 0x32, 0, 0, 0, 0, 0, 0, 0, 0, 0,
     0xa6, 0xc2, 0x2c, 0x51, 0x22, 0x4c, 0x4b, 0x19, 0x68, 0x3c, 0xa9, 0xb7, 0, 0, 0, 0,
     0, 0, 0, 0, 0, 0, 0, 0x38, 0, 0, 0, 0, 0, 0, 0, 0x60] =
    block_word [0x0b, 0xba, 1, 0x1e, 0x68, 0x17, 0xf3, 0x99, 0xb6, 0x5b, 0x70, 0x3e, 0x18, 0xa9, 0x33, 0x16]"
  by (simp add: ghash_eval product3_1 product3_2 product3_3)

lemma seal3: "gcm_Seal (aes_block zero_key) [0, 0, 0, 0, 0, 0, 0, 0, 0, 0, 0, 0]
    [0x68, 0x65, 0x6c, 0x6c, 0x6f, 0x2c, 0x20, 0x77, 0x6f, 0x72, 0x6c, 0x64]
    [0x75, 0x73, 0x65, 0x72, 0x3a, 0x34, 0x32] =
    Ok [0xa6, 0xc2, 0x2c, 0x51, 0x22, 0x4c, 0x4b, 0x19, 0x68, 0x3c, 0xa9, 0xb7, 0x58, 0xb5, 0x8b, 0xe5,
     0xaf, 0x52, 0xc5, 0x20, 0x1f, 0x38, 0xc4, 0xcf, 0xdc, 0x62, 0x40, 0x9d]"
proof -
  have "pad16 [0x75, 0x73, 0x65, 0x72, 0x3a, 0x34, 0x32] @
      pad16 [0xa6, 0xc2, 0x2c, 0x51, 0x22, 0x4c, 0x4b, 0x19, 0x68, 0x3c, 0xa9, 0xb7] @
      PutUint64 (word_of_nat (8 * 7)) @ PutUint64 (word_of_nat (8 * 12)) =
    [0x75, 0x73, 0x65, 0x72, 0x3a, 0x34, 0x32, 0, 0, 0, 0, 0, 0, 0, 0, 0,
     0xa6, 0xc2, 0x2c, 0x51, 0x22, 0x4c, 0x4b, 0x19, 0x68, 0x3c, 0xa9, 0xb7, 0, 0, 0, 0,
     0, 0, 0, 0, 0, 0, 0, 0x38, 0, 0, 0, 0, 0, 0, 0, 0x60]"
    by code_simp
  then have "gcm_tag (aes_block zero_key) [0, 0, 0, 0, 0, 0, 0, 0, 0, 0, 0, 0]
      [0x75, 0x73, 0x65, 0x72, 0x3a, 0x34, 0x32]
      [0xa6, 0xc2, 0x2c, 0x51, 0x22, 0x4c, 0x4b, 0x19, 0x68, 0x3c, 0xa9, 0xb7] =
      [0x58, 0xb5, 0x8b, 0xe5, 0xaf, 0x52, 0xc5, 0x20, 0x1f, 0x38, 0xc4, 0xcf, 0xdc, 0x62, 0x40, 0x9d]"
    by (simp add: gcm_tag_def zero_block zero_block1 PutUint32_def zero_block2 ghash3 word_block_block_word)
  then show ?thesis by (simp add: gcm_Seal_def gcm_max_def ctr3)
qed

lemma counting_block1: "block_Encrypt (aes_block counting_key)
    [0, 0, 0, 0, 0, 0, 0, 0, 0, 0, 0, 0, 0, 0, 0, 0] =
    [0xf2, 0x90, 0, 0xb6, 0x2a, 0x49, 0x9f, 0xd0, 0xa9, 0xf3, 0x9a, 0x6a, 0xdd, 0x2e, 0x77, 0x80]"
  by (simp add: block_Encrypt_aes counting_round_keys aes_eval)

lemma counting_block2: "block_Encrypt (aes_block counting_key)
    [0x11, 0x12, 0x13, 0x14, 0x15, 0x16, 0x17, 0x18, 0x19, 0x10, 0x1a, 0x1b, 0, 0, 0, 1] =
    [0x05, 0x4a, 0xc5, 1, 0xd1, 0xdb, 0x28, 0x11, 0xa3, 0xf7, 0x92, 0x98, 0x77, 0xf2, 0x22, 0xfd]"
  by (simp add: block_Encrypt_aes counting_round_keys aes_eval)

lemma counting_block3: "block_Encrypt (aes_block counting_key)
    [0x11, 0x12, 0x13, 0x14, 0x15, 0x16, 0x17, 0x18, 0x19, 0x10, 0x1a, 0x1b, 0, 0, 0, 0x02] =
    [0x39, 0xdb, 0x75, 0x9a, 0xde, 0xc3, 0x6a, 0x7a, 0x1e, 0x12, 0xb3, 0xee, 0x70, 1, 0xbe, 0x2f]"
  by (simp add: block_Encrypt_aes counting_round_keys aes_eval)

lemma counting_block4: "block_Encrypt (aes_block counting_key)
    [0x11, 0x12, 0x13, 0x14, 0x15, 0x16, 0x17, 0x18, 0x19, 0x10, 0x1a, 0x1b, 0, 0, 0, 0x03] =
    [0x5b, 0x28, 0xe9, 0x92, 0x94, 0xa5, 0x30, 0x31, 0xf8, 1, 0xe6, 0xea, 0x69, 0x53, 0x81, 0x79]"
  by (simp add: block_Encrypt_aes counting_round_keys aes_eval)

lemma counting_block5: "block_Encrypt (aes_block counting_key)
    [0x11, 0x12, 0x13, 0x14, 0x15, 0x16, 0x17, 0x18, 0x19, 0x10, 0x1a, 0x1b, 0, 0, 0, 0x04] =
    [0x1f, 0x86, 0xc3, 0xc8, 0x57, 0x67, 0xbf, 0xf3, 0xce, 0x06, 0x9a, 0x83, 0x79, 0x41, 0x1c, 0x53]"
  by (simp add: block_Encrypt_aes counting_round_keys aes_eval)

lemma counting_block6: "block_Encrypt (aes_block counting_key)
    [0x11, 0x12, 0x13, 0x14, 0x15, 0x16, 0x17, 0x18, 0x19, 0x10, 0x1a, 0x1b, 0, 0, 0, 0x05] =
    [0xb1, 0x27, 0xe7, 0x63, 0xd8, 0x1e, 0x04, 0x48, 0x3a, 0x69, 0xc3, 0x2f, 0x19, 0x48, 0x2c, 0x83]"
  by (simp add: block_Encrypt_aes counting_round_keys aes_eval)

lemma ctr4: "ctr_mode (aes_block counting_key) [0x11, 0x12, 0x13, 0x14, 0x15, 0x16, 0x17, 0x18, 0x19, 0x10, 0x1a, 0x1b] 2
    [0x74, 0x68, 0x65, 0x20, 0x71, 0x75, 0x69, 0x63, 0x6b, 0x20, 0x62, 0x72, 0x6f, 0x77, 0x6e, 0x20,
     0x66, 0x6f, 0x78, 0x20, 0x6a, 0x75, 0x6d, 0x70, 0x73, 0x20, 0x6f, 0x76, 0x65, 0x72, 0x20, 0x74,
     0x68, 0x65, 0x20, 0x6c, 0x61, 0x7a, 0x79, 0x20, 0x64, 0x6f, 0x67, 0x20, 0x30, 0x31, 0x32, 0x33,
     0x34, 0x35, 0x36, 0x37, 0x38, 0x39] =
    [0x4d, 0xb3, 0x10, 0xba, 0xaf, 0xb6, 0x03, 0x19, 0x75, 0x32, 0xd1, 0x9c, 0x1f, 0x76, 0xd0, 0x0f,
     0x3d, 0x47, 0x91, 0xb2, 0xfe, 0xd0, 0x5d, 0x41, 0x8b, 0x21, 0x89, 0x9c, 0x0c, 0x21, 0xa1, 0x0d,
     0x77, 0xe3, 0xe3, 0xa4, 0x36, 0x1d, 0xc6, 0xd3, 0xaa, 0x69, 0xfd, 0xa3, 0x49, 0x70, 0x2e, 0x60,
     0x85, 0x12, 0xd1, 0x54, 0xe0, 0x27]"
  by (simp add: ctr_mode.simps PutUint32_def counting_block3 counting_block4 counting_block5 counting_block6)

lemma product4_1: "gf_mul (block_word [0x63, 0x6f, 0x6e, 0x74, 0x65, 0x78, 0x74, 0x2d, 0x62, 0x69, 0x6e, 0x64, 0x69, 0x6e, 0x67, 0x2d])
    (block_word [0xf2, 0x90, 0, 0xb6, 0x2a, 0x49, 0x9f, 0xd0, 0xa9, 0xf3, 0x9a, 0x6a, 0xdd, 0x2e, 0x77, 0x80]) =
    block_word [0x36, 0x80, 0x21, 0xc0, 0xf3, 0x28, 0x13, 0x34, 0x0e, 0xe9, 0x07, 0x95, 0x57, 0xd9, 0x39, 0x56]"
  unfolding gf_mul_eval by (simp add: gf_eval block_word_int)

lemma product4_2: "gf_mul (block_word [0x45, 0xf4, 0x53, 0xa9, 0x9d, 0x4f, 0x13, 0x34, 0x0e, 0xe9, 0x07, 0x95, 0x57, 0xd9, 0x39, 0x56])
    (block_word [0xf2, 0x90, 0, 0xb6, 0x2a, 0x49, 0x9f, 0xd0, 0xa9, 0xf3, 0x9a, 0x6a, 0xdd, 0x2e, 0x77, 0x80]) =
    block_word [0x3c, 0xdf, 0x9f, 0x78, 0x53, 0x5b, 0x74, 0x6e, 0x18, 0xa8, 0x6f, 0xc1, 0xf8, 0xed, 0x3b, 0x8c]"
  unfolding gf_mul_eval by (simp add: gf_eval block_word_int)

lemma product4_3: "gf_mul (block_word [0x71, 0x6c, 0x8f, 0xc2, 0xfc, 0xed, 0x77, 0x77, 0x6d, 0x9a, 0xbe, 0x5d, 0xe7, 0x9b, 0xeb, 0x83])
    (block_word [0xf2, 0x90, 0, 0xb6, 0x2a, 0x49, 0x9f, 0xd0, 0xa9, 0xf3, 0x9a, 0x6a, 0xdd, 0x2e, 0x77, 0x80]) =
    block_word [0x6f, 0x83, 0x5f, 0xdf, 0xbc, 0x62, 0xad, 0xc3, 0xf8, 0x58, 0x47, 0xaa, 0xfb, 0xeb, 0x59, 0xd2]"
  unfolding gf_mul_eval by (simp add: gf_eval block_word_int)

lemma product4_4: "gf_mul (block_word [0x52, 0xc4, 0xce, 0x6d, 0x42, 0xb2, 0xf0, 0x82, 0x73, 0x79, 0xce, 0x36, 0xf7, 0xca, 0xf8, 0xdf])
    (block_word [0xf2, 0x90, 0, 0xb6, 0x2a, 0x49, 0x9f, 0xd0, 0xa9, 0xf3, 0x9a, 0x6a, 0xdd, 0x2e, 0x77, 0x80]) =
    block_word [0xcc, 0xc9, 0x1e, 0x1f, 0x4f, 0x62, 0xef, 0x1d, 0x10, 0x43, 0x90, 0x66, 0x85, 0xc6, 0xbd, 0x8f]"
  unfolding gf_mul_eval by (simp add: gf_eval block_word_int)

lemma product4_5: "gf_mul (block_word [0xbb, 0x2a, 0xfd, 0xbb, 0x79, 0x7f, 0x29, 0xce, 0xba, 0x2a, 0x6d, 0xc5, 0xcc, 0xb6, 0x93, 0xef])
    (block_word [0xf2, 0x90, 0, 0xb6, 0x2a, 0x49, 0x9f, 0xd0, 0xa9, 0xf3, 0x9a, 0x6a, 0xdd, 0x2e, 0x77, 0x80]) =
    block_word [0x60, 0xc8, 0x57, 0x9c, 0x5a, 0xf2, 0x1c, 0x0c, 0xe7, 0x02, 0x7e, 0x02, 0xac, 0xa3, 0x3c, 0x61]"
  unfolding gf_mul_eval by (simp add: gf_eval block_word_int)

lemma product4_6: "gf_mul (block_word [0xe5, 0xda, 0x86, 0xc8, 0xba, 0xd5, 0x1c, 0x0c, 0xe7, 0x02, 0x7e, 0x02, 0xac, 0xa3, 0x3c, 0x61])
    (block_word [0xf2, 0x90, 0, 0xb6, 0x2a, 0x49, 0x9f, 0xd0, 0xa9, 0xf3, 0x9a, 0x6a, 0xdd, 0x2e, 0x77, 0x80]) =
    block_word [0xf6, 0x13, 0x40, 0xbb, 0x57, 0x02, 0x1b, 0x3d, 0x2a, 0x75, 0x53, 0xc4, 0x65, 0xab, 0x17, 0xc6]"
  unfolding gf_mul_eval by (simp add: gf_eval block_word_int)

lemma product4_7: "gf_mul (block_word [0xf6, 0x13, 0x40, 0xbb, 0x57, 0x02, 0x1b, 0x8d, 0x2a, 0x75, 0x53, 0xc4, 0x65, 0xab, 0x16, 0x76])
    (block_word [0xf2, 0x90, 0, 0xb6, 0x2a, 0x49, 0x9f, 0xd0, 0xa9, 0xf3, 0x9a, 0x6a, 0xdd, 0x2e, 0x77, 0x80]) =
    block_word [0x4e, 0x65, 0xec, 0x5f, 0xce, 0xb3, 0xaf, 0x7e, 0x51, 0x94, 0x1d, 0x3c, 0x14, 0x9b, 0xa9, 0x0f]"
  unfolding gf_mul_eval by (simp add: gf_eval block_word_int)

lemma ghash4: "ghash (block_word [0xf2, 0x90, 0, 0xb6, 0x2a, 0x49, 0x9f, 0xd0, 0xa9, 0xf3, 0x9a, 0x6a, 0xdd, 0x2e, 0x77, 0x80]) 0
    [0x63, 0x6f, 0x6e, 0x74, 0x65, 0x78, 0x74, 0x2d, 0x62, 0x69, 0x6e, 0x64, 0x69, 0x6e, 0x67, 0x2d,
     0x73, 0x74, 0x72, 0x69, 0x6e, 0x67, 0, 0, 0, 0, 0, 0, 0, 0, 0, 0,
     0x4d, 0xb3, 0x10, 0xba, 0xaf, 0xb6, 0x03, 0x19, 0x75, 0x32, 0xd1, 0x9c, 0x1f, 0x76, 0xd0, 0x0f,
     0x3d, 0x47, 0x91, 0xb2, 0xfe, 0xd0, 0x5d, 0x41, 0x8b, 0x21, 0x89, 0x9c, 0x0c, 0x21, 0xa1, 0x0d,
     0x77, 0xe3, 0xe3, 0xa4, 0x36, 0x1d, 0xc6, 0xd3, 0xaa, 0x69, 0xfd, 0xa3, 0x49, 0x70, 0x2e, 0x60,
     0x85, 0x12, 0xd1, 0x54, 0xe0, 0x27, 0, 0, 0, 0, 0, 0, 0, 0, 0, 0,
     0, 0, 0, 0, 0, 0, 0, 0xb0, 0, 0, 0, 0, 0, 0, 1, 0xb0] =
    block_word [0x4e, 0x65, 0xec, 0x5f, 0xce, 0xb3, 0xaf, 0x7e, 0x51, 0x94, 0x1d, 0x3c, 0x14, 0x9b, 0xa9, 0x0f]"
  by (simp add: ghash_eval product4_1 product4_2 product4_3 product4_4 product4_5 product4_6 product4_7)

lemma seal4: "gcm_Seal (aes_block counting_key) [0x11, 0x12, 0x13, 0x14, 0x15, 0x16, 0x17, 0x18, 0x19, 0x10, 0x1a, 0x1b]
    [0x74, 0x68, 0x65, 0x20, 0x71, 0x75, 0x69, 0x63, 0x6b, 0x20, 0x62, 0x72, 0x6f, 0x77, 0x6e, 0x20,
     0x66, 0x6f, 0x78, 0x20, 0x6a, 0x75, 0x6d, 0x70, 0x73, 0x20, 0x6f, 0x76, 0x65, 0x72, 0x20, 0x74,
     0x68, 0x65, 0x20, 0x6c, 0x61, 0x7a, 0x79, 0x20, 0x64, 0x6f, 0x67, 0x20, 0x30, 0x31, 0x32, 0x33,
     0x34, 0x35, 0x36, 0x37, 0x38, 0x39]
    [0x63, 0x6f, 0x6e, 0x74, 0x65, 0x78, 0x74, 0x2d, 0x62, 0x69, 0x6e, 0x64, 0x69, 0x6e, 0x67, 0x2d,
     0x73, 0x74, 0x72, 0x69, 0x6e, 0x67] =
    Ok [0x4d, 0xb3, 0x10, 0xba, 0xaf, 0xb6, 0x03, 0x19, 0x75, 0x32, 0xd1, 0x9c, 0x1f, 0x76, 0xd0, 0x0f,
     0x3d, 0x47, 0x91, 0xb2, 0xfe, 0xd0, 0x5d, 0x41, 0x8b, 0x21, 0x89, 0x9c, 0x0c, 0x21, 0xa1, 0x0d,
     0x77, 0xe3, 0xe3, 0xa4, 0x36, 0x1d, 0xc6, 0xd3, 0xaa, 0x69, 0xfd, 0xa3, 0x49, 0x70, 0x2e, 0x60,
     0x85, 0x12, 0xd1, 0x54, 0xe0, 0x27, 0x4b, 0x2f, 0x29, 0x5e, 0x1f, 0x68, 0x87, 0x6f, 0xf2, 0x63,
     0x8f, 0xa4, 0x63, 0x69, 0x8b, 0xf2]"
proof -
  have "pad16 [0x63, 0x6f, 0x6e, 0x74, 0x65, 0x78, 0x74, 0x2d, 0x62, 0x69, 0x6e, 0x64, 0x69, 0x6e, 0x67, 0x2d,
     0x73, 0x74, 0x72, 0x69, 0x6e, 0x67] @
      pad16 [0x4d, 0xb3, 0x10, 0xba, 0xaf, 0xb6, 0x03, 0x19, 0x75, 0x32, 0xd1, 0x9c, 0x1f, 0x76, 0xd0, 0x0f,
     0x3d, 0x47, 0x91, 0xb2, 0xfe, 0xd0, 0x5d, 0x41, 0x8b, 0x21, 0x89, 0x9c, 0x0c, 0x21, 0xa1, 0x0d,
     0x77, 0xe3, 0xe3, 0xa4, 0x36, 0x1d, 0xc6, 0xd3, 0xaa, 0x69, 0xfd, 0xa3, 0x49, 0x70, 0x2e, 0x60,
     0x85, 0x12, 0xd1, 0x54, 0xe0, 0x27] @
      PutUint64 (word_of_nat (8 * 22)) @ PutUint64 (word_of_nat (8 * 54)) =
    [0x63, 0x6f, 0x6e, 0x74, 0x65, 0x78, 0x74, 0x2d, 0x62, 0x69, 0x6e, 0x64, 0x69, 0x6e, 0x67, 0x2d,
     0x73, 0x74, 0x72, 0x69, 0x6e, 0x67, 0, 0, 0, 0, 0, 0, 0, 0, 0, 0,
     0x4d, 0xb3, 0x10, 0xba, 0xaf, 0xb6, 0x03, 0x19, 0x75, 0x32, 0xd1, 0x9c, 0x1f, 0x76, 0xd0, 0x0f,
     0x3d, 0x47, 0x91, 0xb2, 0xfe, 0xd0, 0x5d, 0x41, 0x8b, 0x21, 0x89, 0x9c, 0x0c, 0x21, 0xa1, 0x0d,
     0x77, 0xe3, 0xe3, 0xa4, 0x36, 0x1d, 0xc6, 0xd3, 0xaa, 0x69, 0xfd, 0xa3, 0x49, 0x70, 0x2e, 0x60,
     0x85, 0x12, 0xd1, 0x54, 0xe0, 0x27, 0, 0, 0, 0, 0, 0, 0, 0, 0, 0,
     0, 0, 0, 0, 0, 0, 0, 0xb0, 0, 0, 0, 0, 0, 0, 1, 0xb0]"
    by code_simp
  then have "gcm_tag (aes_block counting_key) [0x11, 0x12, 0x13, 0x14, 0x15, 0x16, 0x17, 0x18, 0x19, 0x10, 0x1a, 0x1b]
      [0x63, 0x6f, 0x6e, 0x74, 0x65, 0x78, 0x74, 0x2d, 0x62, 0x69, 0x6e, 0x64, 0x69, 0x6e, 0x67, 0x2d,
     0x73, 0x74, 0x72, 0x69, 0x6e, 0x67]
      [0x4d, 0xb3, 0x10, 0xba, 0xaf, 0xb6, 0x03, 0x19, 0x75, 0x32, 0xd1, 0x9c, 0x1f, 0x76, 0xd0, 0x0f,
     0x3d, 0x47, 0x91, 0xb2, 0xfe, 0xd0, 0x5d, 0x41, 0x8b, 0x21, 0x89, 0x9c, 0x0c, 0x21, 0xa1, 0x0d,
     0x77, 0xe3, 0xe3, 0xa4, 0x36, 0x1d, 0xc6, 0xd3, 0xaa, 0x69, 0xfd, 0xa3, 0x49, 0x70, 0x2e, 0x60,
     0x85, 0x12, 0xd1, 0x54, 0xe0, 0x27] =
      [0x4b, 0x2f, 0x29, 0x5e, 0x1f, 0x68, 0x87, 0x6f, 0xf2, 0x63, 0x8f, 0xa4, 0x63, 0x69, 0x8b, 0xf2]"
    by (simp add: gcm_tag_def zero_block counting_block1 PutUint32_def counting_block2 ghash4 word_block_block_word)
  then show ?thesis by (simp add: gcm_Seal_def gcm_max_def ctr4)
qed

lemma digits_block1: "block_Encrypt (aes_block digits_key)
    [0, 0, 0, 0, 0, 0, 0, 0, 0, 0, 0, 0, 0, 0, 0, 0] =
    [0x70, 0xdb, 0x66, 0x35, 0xc2, 0xaf, 0x9e, 0x37, 0x13, 0xe3, 0xea, 0xa0, 0x51, 0x93, 0x7c, 0x7b]"
  by (simp add: block_Encrypt_aes digits_round_keys aes_eval)

lemma digits_block2: "block_Encrypt (aes_block digits_key)
    [0xfe, 0xdc, 0xba, 0x98, 0x76, 0x54, 0x32, 0x10, 0xfe, 0xdc, 0xba, 0x98, 0, 0, 0, 1] =
    [0x3e, 0xa1, 0x61, 0xfa, 0x0d, 0x65, 0x04, 0, 0x97, 0x3e, 0x8e, 0x45, 0x64, 0x0d, 0x58, 0xf3]"
  by (simp add: block_Encrypt_aes digits_round_keys aes_eval)

lemma digits_block3: "block_Encrypt (aes_block digits_key)
    [0xfe, 0xdc, 0xba, 0x98, 0x76, 0x54, 0x32, 0x10, 0xfe, 0xdc, 0xba, 0x98, 0, 0, 0, 0x02] =
    [0xd2, 0xaf, 0x4b, 0xa2, 0x3f, 0x57, 0x63, 0x44, 0x4d, 0x96, 0x24, 0x16, 0x65, 0x42, 0xcd, 0xfd]"
  by (simp add: block_Encrypt_aes digits_round_keys aes_eval)

lemma digits_block4: "block_Encrypt (aes_block digits_key)
    [0xfe, 0xdc, 0xba, 0x98, 0x76, 0x54, 0x32, 0x10, 0xfe, 0xdc, 0xba, 0x98, 0, 0, 0, 0x03] =
    [0x95, 0x02, 0x05, 0x96, 0x12, 0x7a, 0x96, 0xf5, 0x7c, 0xcd, 0x07, 0x06, 0x52, 0xda, 0xcc, 0x67]"
  by (simp add: block_Encrypt_aes digits_round_keys aes_eval)

lemma ctr5: "ctr_mode (aes_block digits_key) [0xfe, 0xdc, 0xba, 0x98, 0x76, 0x54, 0x32, 0x10, 0xfe, 0xdc, 0xba, 0x98] 2
    [0, 1, 0x02, 0x03, 0x04, 0x05, 0x06, 0x07, 0x08, 0x09, 0x0a, 0x0b, 0x0c, 0x0d, 0x0e, 0x0f,
     0xfe, 0xfc, 0xfd, 0xf8, 0xf0, 0xe0, 0xd0, 0xc0, 0xb0, 0xa0, 0x90, 0x80, 0x70, 0x60, 0x50, 0x40] =
    [0xd2, 0xae, 0x49, 0xa1, 0x3b, 0x52, 0x65, 0x43, 0x45, 0x9f, 0x2e, 0x1d, 0x69, 0x4f, 0xc3, 0xf2,
     0x6b, 0xfe, 0xf8, 0x6e, 0xe2, 0x9a, 0x46, 0x35, 0xcc, 0x6d, 0x97, 0x86, 0x22, 0xba, 0x9c, 0x27]"
  by (simp add: ctr_mode.simps PutUint32_def digits_block3 digits_block4)

lemma product5_1: "gf_mul (block_word [0xd2, 0xae, 0x49, 0xa1, 0x3b, 0x52, 0x65, 0x43, 0x45, 0x9f, 0x2e, 0x1d, 0x69, 0x4f, 0xc3, 0xf2])
    (block_word [0x70, 0xdb, 0x66, 0x35, 0xc2, 0xaf, 0x9e, 0x37, 0x13, 0xe3, 0xea, 0xa0, 0x51, 0x93, 0x7c, 0x7b]) =
    block_word [0xd5, 0xec, 0x40, 0x38, 0x55, 0x84, 0xea, 0x3f, 0xa0, 0x97, 0x53, 0x83, 0xe1, 0x44, 0x87, 0xda]"
  unfolding gf_mul_eval by (simp add: gf_eval block_word_int)

lemma product5_2: "gf_mul (block_word [0xbe, 0x12, 0xb8, 0x56, 0xb7, 0x1e, 0xac, 0x0a, 0x6c, 0xfa, 0xc4, 0x05, 0xc3, 0xfe, 0x1b, 0xfd])
    (block_word [0x70, 0xdb, 0x66, 0x35, 0xc2, 0xaf, 0x9e, 0x37, 0x13, 0xe3, 0xea, 0xa0, 0x51, 0x93, 0x7c, 0x7b]) =
    block_word [0xb8, 0x68, 0xb0, 0x4e, 0xc6, 0xa7, 0x41, 0x14, 0x70, 0xe0, 0xfa, 0x3e, 0x6e, 0x16, 0x81, 0x80]"
  unfolding gf_mul_eval by (simp add: gf_eval block_word_int)

lemma product5_3: "gf_mul (block_word [0xb8, 0x68, 0xb0, 0x4e, 0xc6, 0xa7, 0x41, 0x14, 0x70, 0xe0, 0xfa, 0x3e, 0x6e, 0x16, 0x80, 0x80])
    (block_word [0x70, 0xdb, 0x66, 0x35, 0xc2, 0xaf, 0x9e, 0x37, 0x13, 0xe3, 0xea, 0xa0, 0x51, 0x93, 0x7c, 0x7b]) =
    block_word [0x89, 0x55, 0xee, 0xf5, 0xbe, 0x7b, 0x4a, 0x66, 0x29, 0xbd, 0x14, 0xd2, 0x6c, 0x18, 0x25, 0x63]"
  unfolding gf_mul_eval by (simp add: gf_eval block_word_int)

lemma ghash5: "ghash (block_word [0x70, 0xdb, 0x66, 0x35, 0xc2, 0xaf, 0x9e, 0x37, 0x13, 0xe3, 0xea, 0xa0, 0x51, 0x93, 0x7c, 0x7b]) 0
    [0xd2, 0xae, 0x49, 0xa1, 0x3b, 0x52, 0x65, 0x43, 0x45, 0x9f, 0x2e, 0x1d, 0x69, 0x4f, 0xc3, 0xf2,
     0x6b, 0xfe, 0xf8, 0x6e, 0xe2, 0x9a, 0x46, 0x35, 0xcc, 0x6d, 0x97, 0x86, 0x22, 0xba, 0x9c, 0x27,
     0, 0, 0, 0, 0, 0, 0, 0, 0, 0, 0, 0, 0, 0, 1, 0] =
    block_word [0x89, 0x55, 0xee, 0xf5, 0xbe, 0x7b, 0x4a, 0x66, 0x29, 0xbd, 0x14, 0xd2, 0x6c, 0x18, 0x25, 0x63]"
  by (simp add: ghash_eval product5_1 product5_2 product5_3)

lemma seal5: "gcm_Seal (aes_block digits_key) [0xfe, 0xdc, 0xba, 0x98, 0x76, 0x54, 0x32, 0x10, 0xfe, 0xdc, 0xba, 0x98]
    [0, 1, 0x02, 0x03, 0x04, 0x05, 0x06, 0x07, 0x08, 0x09, 0x0a, 0x0b, 0x0c, 0x0d, 0x0e, 0x0f,
     0xfe, 0xfc, 0xfd, 0xf8, 0xf0, 0xe0, 0xd0, 0xc0, 0xb0, 0xa0, 0x90, 0x80, 0x70, 0x60, 0x50, 0x40]
    [] =
    Ok [0xd2, 0xae, 0x49, 0xa1, 0x3b, 0x52, 0x65, 0x43, 0x45, 0x9f, 0x2e, 0x1d, 0x69, 0x4f, 0xc3, 0xf2,
     0x6b, 0xfe, 0xf8, 0x6e, 0xe2, 0x9a, 0x46, 0x35, 0xcc, 0x6d, 0x97, 0x86, 0x22, 0xba, 0x9c, 0x27,
     0xb7, 0xf4, 0x8f, 0x0f, 0xb3, 0x1e, 0x4e, 0x66, 0xbe, 0x83, 0x9a, 0x97, 0x08, 0x15, 0x7d, 0x90]"
proof -
  have "pad16 [] @
      pad16 [0xd2, 0xae, 0x49, 0xa1, 0x3b, 0x52, 0x65, 0x43, 0x45, 0x9f, 0x2e, 0x1d, 0x69, 0x4f, 0xc3, 0xf2,
     0x6b, 0xfe, 0xf8, 0x6e, 0xe2, 0x9a, 0x46, 0x35, 0xcc, 0x6d, 0x97, 0x86, 0x22, 0xba, 0x9c, 0x27] @
      PutUint64 (word_of_nat (8 * 0)) @ PutUint64 (word_of_nat (8 * 32)) =
    [0xd2, 0xae, 0x49, 0xa1, 0x3b, 0x52, 0x65, 0x43, 0x45, 0x9f, 0x2e, 0x1d, 0x69, 0x4f, 0xc3, 0xf2,
     0x6b, 0xfe, 0xf8, 0x6e, 0xe2, 0x9a, 0x46, 0x35, 0xcc, 0x6d, 0x97, 0x86, 0x22, 0xba, 0x9c, 0x27,
     0, 0, 0, 0, 0, 0, 0, 0, 0, 0, 0, 0, 0, 0, 1, 0]"
    by code_simp
  then have "gcm_tag (aes_block digits_key) [0xfe, 0xdc, 0xba, 0x98, 0x76, 0x54, 0x32, 0x10, 0xfe, 0xdc, 0xba, 0x98]
      []
      [0xd2, 0xae, 0x49, 0xa1, 0x3b, 0x52, 0x65, 0x43, 0x45, 0x9f, 0x2e, 0x1d, 0x69, 0x4f, 0xc3, 0xf2,
     0x6b, 0xfe, 0xf8, 0x6e, 0xe2, 0x9a, 0x46, 0x35, 0xcc, 0x6d, 0x97, 0x86, 0x22, 0xba, 0x9c, 0x27] =
      [0xb7, 0xf4, 0x8f, 0x0f, 0xb3, 0x1e, 0x4e, 0x66, 0xbe, 0x83, 0x9a, 0x97, 0x08, 0x15, 0x7d, 0x90]"
    by (simp add: gcm_tag_def zero_block digits_block1 PutUint32_def digits_block2 ghash5 word_block_block_word)
  then show ?thesis by (simp add: gcm_Seal_def gcm_max_def ctr5)
qed

end
