(* ===== verification/AnswersCbc.thy ===== *)
theory AnswersCbc
  imports AnswersKeys GenVectors
begin

text \<open>
  The three CBC vectors of \<^verbatim>\<open>src/testdata/vectors.json\<close>, computed block by block.
\<close>

lemma cbc1_block1: "block_Encrypt (aes_block zero_key)
    [0x79, 0x74, 0x7d, 0x7d, 0x7e, 0x1a, 0x1a, 0x1a, 0x1a, 0x1a, 0x1a, 0x1a, 0x1a, 0x1a, 0x1a, 0x1a] =
    [0xde, 0x76, 0x09, 0x29, 0x5c, 0x6f, 0x95, 0xe6, 0x79, 0x6b, 0x12, 0xf2, 0x5c, 0xfa, 0x85, 0x50]"
  by (simp add: block_Encrypt_aes zero_round_keys aes_eval)

lemma cbc1: "cbc_encrypt (aes_block zero_key) [0x11, 0x11, 0x11, 0x11, 0x11, 0x11, 0x11, 0x11, 0x11, 0x11, 0x11, 0x11, 0x11, 0x11, 0x11, 0x11]
    [0x68, 0x65, 0x6c, 0x6c, 0x6f, 0x0b, 0x0b, 0x0b, 0x0b, 0x0b, 0x0b, 0x0b, 0x0b, 0x0b, 0x0b, 0x0b] =
    [0xde, 0x76, 0x09, 0x29, 0x5c, 0x6f, 0x95, 0xe6, 0x79, 0x6b, 0x12, 0xf2, 0x5c, 0xfa, 0x85, 0x50]"
  by (simp add: cbc_encrypt.simps xor_bytes_def cbc1_block1)

lemma cbc2_block1: "block_Encrypt (aes_block zero_key)
    [0x12, 0x13, 0x10, 0x11, 0x16, 0x17, 0x14, 0x15, 0x1a, 0x1b, 0x43, 0x40, 0x41, 0x46, 0x47, 0x44] =
    [0x78, 0xf5, 0x33, 0x77, 0xb0, 0xfd, 0xaa, 0x51, 0xe1, 0xfd, 0xa1, 0xaf, 0xa4, 0xbb, 0xf3, 0xc7]"
  by (simp add: block_Encrypt_aes zero_round_keys aes_eval)

lemma cbc2_block2: "block_Encrypt (aes_block zero_key)
    [0x68, 0xe5, 0x23, 0x67, 0xa0, 0xed, 0xba, 0x41, 0xf1, 0xed, 0xb1, 0xbf, 0xb4, 0xab, 0xe3, 0xd7] =
    [0x9e, 0xce, 0x5a, 0x5d, 0xdd, 0x68, 0xb8, 0x80, 0xc2, 0xc4, 0x60, 0x49, 0xa9, 0x1c, 0xbc, 0x4e]"
  by (simp add: block_Encrypt_aes zero_round_keys aes_eval)

lemma cbc2: "cbc_encrypt (aes_block zero_key) [0x22, 0x22, 0x22, 0x22, 0x22, 0x22, 0x22, 0x22, 0x22, 0x22, 0x22, 0x22, 0x22, 0x22, 0x22, 0x22]
    [0x30, 0x31, 0x32, 0x33, 0x34, 0x35, 0x36, 0x37, 0x38, 0x39, 0x61, 0x62, 0x63, 0x64, 0x65, 0x66,
     0x10, 0x10, 0x10, 0x10, 0x10, 0x10, 0x10, 0x10, 0x10, 0x10, 0x10, 0x10, 0x10, 0x10, 0x10, 0x10] =
    [0x78, 0xf5, 0x33, 0x77, 0xb0, 0xfd, 0xaa, 0x51, 0xe1, 0xfd, 0xa1, 0xaf, 0xa4, 0xbb, 0xf3, 0xc7,
     0x9e, 0xce, 0x5a, 0x5d, 0xdd, 0x68, 0xb8, 0x80, 0xc2, 0xc4, 0x60, 0x49, 0xa9, 0x1c, 0xbc, 0x4e]"
  by (simp add: cbc_encrypt.simps xor_bytes_def cbc2_block1 cbc2_block2)

lemma cbc3_block1: "block_Encrypt (aes_block digits_key)
    [0x8a, 0xb4, 0xdf, 0xb8, 0x07, 0x21, 0x5b, 0x73, 0x95, 0xfc, 0xd8, 0xea, 0x19, 0x23, 0x5c, 0x30] =
    [0x95, 0x5f, 0x52, 0xe9, 0xc0, 0x49, 0x48, 0x4c, 0x36, 0x61, 0x5c, 0x54, 0x82, 0x34, 0x33, 0x77]"
  by (simp add: block_Encrypt_aes digits_round_keys aes_eval)

lemma cbc3_block2: "block_Encrypt (aes_block digits_key)
    [0xf3, 0x30, 0x2a, 0xc9, 0xaa, 0x3c, 0x25, 0x3c, 0x45, 0x41, 0x33, 0x22, 0xe7, 0x46, 0x13, 0x03] =
    [0xdd, 0xbf, 0xb3, 0xc8, 0x81, 0x6c, 0x78, 0xa0, 0x4f, 0x80, 0x6f, 0xb5, 0x43, 0xac, 0x64, 0x9a]"
  by (simp add: block_Encrypt_aes digits_round_keys aes_eval)

lemma cbc3_block3: "block_Encrypt (aes_block digits_key)
    [0xb5, 0xda, 0x93, 0xa4, 0xe0, 0x16, 1, 0x80, 0x2b, 0xef, 0x08, 0xb0, 0x46, 0xa9, 0x61, 0x9f] =
    [0x90, 0x46, 0x31, 0x24, 0xbb, 0xd7, 0xa5, 0xac, 0x5b, 0x4a, 0x6f, 0x02, 0xcf, 0x13, 0x34, 0xdc]"
  by (simp add: block_Encrypt_aes digits_round_keys aes_eval)

lemma cbc3: "cbc_encrypt (aes_block digits_key) [0xfe, 0xdc, 0xba, 0x98, 0x76, 0x54, 0x32, 0x10, 0xfe, 0xdc, 0xba, 0x98, 0x76, 0x54, 0x32, 0x10]
    [0x74, 0x68, 0x65, 0x20, 0x71, 0x75, 0x69, 0x63, 0x6b, 0x20, 0x62, 0x72, 0x6f, 0x77, 0x6e, 0x20,
     0x66, 0x6f, 0x78, 0x20, 0x6a, 0x75, 0x6d, 0x70, 0x73, 0x20, 0x6f, 0x76, 0x65, 0x72, 0x20, 0x74,
     0x68, 0x65, 0x20, 0x6c, 0x61, 0x7a, 0x79, 0x20, 0x64, 0x6f, 0x67, 0x05, 0x05, 0x05, 0x05, 0x05] =
    [0x95, 0x5f, 0x52, 0xe9, 0xc0, 0x49, 0x48, 0x4c, 0x36, 0x61, 0x5c, 0x54, 0x82, 0x34, 0x33, 0x77,
     0xdd, 0xbf, 0xb3, 0xc8, 0x81, 0x6c, 0x78, 0xa0, 0x4f, 0x80, 0x6f, 0xb5, 0x43, 0xac, 0x64, 0x9a,
     0x90, 0x46, 0x31, 0x24, 0xbb, 0xd7, 0xa5, 0xac, 0x5b, 0x4a, 0x6f, 0x02, 0xcf, 0x13, 0x34, 0xdc]"
  by (simp add: cbc_encrypt.simps xor_bytes_def cbc3_block1 cbc3_block2 cbc3_block3)

end
