(* ===== verification/AnswersHmac.thy ===== *)
theory AnswersHmac
  imports AnswersKeys GenVectors
begin

unbundle bit_operations_syntax

text \<open>
  The four HMAC-SHA256 vectors of \<^verbatim>\<open>src/testdata/vectors.json\<close>, computed compression by compression.
\<close>

lemma sha_H0_values: "sha_H0 =
    [0x6a09e667, 0xbb67ae85, 0x3c6ef372, 0xa54ff53a, 0x510e527f, 0x9b05688c, 0x1f83d9ab, 0x5be0cd19]"
  by code_simp

lemma aa_inner: "sha_compress [0x6a09e667, 0xbb67ae85, 0x3c6ef372, 0xa54ff53a, 0x510e527f, 0x9b05688c, 0x1f83d9ab, 0x5be0cd19]
    [0x9c, 0x9c, 0x9c, 0x9c, 0x9c, 0x9c, 0x9c, 0x9c, 0x9c, 0x9c, 0x9c, 0x9c, 0x9c, 0x9c, 0x9c, 0x9c,
     0x9c, 0x9c, 0x9c, 0x9c, 0x9c, 0x9c, 0x9c, 0x9c, 0x9c, 0x9c, 0x9c, 0x9c, 0x9c, 0x9c, 0x9c, 0x9c,
     0x36, 0x36, 0x36, 0x36, 0x36, 0x36, 0x36, 0x36, 0x36, 0x36, 0x36, 0x36, 0x36, 0x36, 0x36, 0x36,
     0x36, 0x36, 0x36, 0x36, 0x36, 0x36, 0x36, 0x36, 0x36, 0x36, 0x36, 0x36, 0x36, 0x36, 0x36, 0x36] =
    [0x2dd5607d, 0xf619dc4c, 0xd2e4a912, 0x9fb7a0dc, 0x1c66200f, 0x96c7e54, 0xde956a87, 0x1eecd825]"
  by (simp add: sha_eval del: sha_eval_del)

lemma aa_inner_state: "sha_compress sha_H0 (map ((XOR) 0x36) (aa_key @ replicate 32 0)) =
    [0x2dd5607d, 0xf619dc4c, 0xd2e4a912, 0x9fb7a0dc, 0x1c66200f, 0x96c7e54, 0xde956a87, 0x1eecd825]"
proof -
  have "map ((XOR) 0x36) (aa_key @ replicate 32 0) =
    [0x9c, 0x9c, 0x9c, 0x9c, 0x9c, 0x9c, 0x9c, 0x9c, 0x9c, 0x9c, 0x9c, 0x9c, 0x9c, 0x9c, 0x9c, 0x9c,
     0x9c, 0x9c, 0x9c, 0x9c, 0x9c, 0x9c, 0x9c, 0x9c, 0x9c, 0x9c, 0x9c, 0x9c, 0x9c, 0x9c, 0x9c, 0x9c,
     0x36, 0x36, 0x36, 0x36, 0x36, 0x36, 0x36, 0x36, 0x36, 0x36, 0x36, 0x36, 0x36, 0x36, 0x36, 0x36,
     0x36, 0x36, 0x36, 0x36, 0x36, 0x36, 0x36, 0x36, 0x36, 0x36, 0x36, 0x36, 0x36, 0x36, 0x36, 0x36]"
    by code_simp
  then show ?thesis by (simp only: sha_H0_values aa_inner)
qed

lemma aa_outer: "sha_compress [0x6a09e667, 0xbb67ae85, 0x3c6ef372, 0xa54ff53a, 0x510e527f, 0x9b05688c, 0x1f83d9ab, 0x5be0cd19]
    [0xf6, 0xf6, 0xf6, 0xf6, 0xf6, 0xf6, 0xf6, 0xf6, 0xf6, 0xf6, 0xf6, 0xf6, 0xf6, 0xf6, 0xf6, 0xf6,
     0xf6, 0xf6, 0xf6, 0xf6, 0xf6, 0xf6, 0xf6, 0xf6, 0xf6, 0xf6, 0xf6, 0xf6, 0xf6, 0xf6, 0xf6, 0xf6,
     0x5c, 0x5c, 0x5c, 0x5c, 0x5c, 0x5c, 0x5c, 0x5c, 0x5c, 0x5c, 0x5c, 0x5c, 0x5c, 0x5c, 0x5c, 0x5c,
     0x5c, 0x5c, 0x5c, 0x5c, 0x5c, 0x5c, 0x5c, 0x5c, 0x5c, 0x5c, 0x5c, 0x5c, 0x5c, 0x5c, 0x5c, 0x5c] =
    [0xb5106df0, 0x195ff082, 0x62b811d4, 0x9a787f35, 0x39db04c3, 0x45519e6d, 0x39c3fc9, 0xaeda57f3]"
  by (simp add: sha_eval del: sha_eval_del)

lemma aa_outer_state: "sha_compress sha_H0 (map ((XOR) 0x5c) (aa_key @ replicate 32 0)) =
    [0xb5106df0, 0x195ff082, 0x62b811d4, 0x9a787f35, 0x39db04c3, 0x45519e6d, 0x39c3fc9, 0xaeda57f3]"
proof -
  have "map ((XOR) 0x5c) (aa_key @ replicate 32 0) =
    [0xf6, 0xf6, 0xf6, 0xf6, 0xf6, 0xf6, 0xf6, 0xf6, 0xf6, 0xf6, 0xf6, 0xf6, 0xf6, 0xf6, 0xf6, 0xf6,
     0xf6, 0xf6, 0xf6, 0xf6, 0xf6, 0xf6, 0xf6, 0xf6, 0xf6, 0xf6, 0xf6, 0xf6, 0xf6, 0xf6, 0xf6, 0xf6,
     0x5c, 0x5c, 0x5c, 0x5c, 0x5c, 0x5c, 0x5c, 0x5c, 0x5c, 0x5c, 0x5c, 0x5c, 0x5c, 0x5c, 0x5c, 0x5c,
     0x5c, 0x5c, 0x5c, 0x5c, 0x5c, 0x5c, 0x5c, 0x5c, 0x5c, 0x5c, 0x5c, 0x5c, 0x5c, 0x5c, 0x5c, 0x5c]"
    by code_simp
  then show ?thesis by (simp only: sha_H0_values aa_outer)
qed

lemma hmac1_inner: "sha_compress [0x2dd5607d, 0xf619dc4c, 0xd2e4a912, 0x9fb7a0dc, 0x1c66200f, 0x96c7e54, 0xde956a87, 0x1eecd825]
    [0x80, 0, 0, 0, 0, 0, 0, 0, 0, 0, 0, 0, 0, 0, 0, 0,
     0, 0, 0, 0, 0, 0, 0, 0, 0, 0, 0, 0, 0, 0, 0, 0,
     0, 0, 0, 0, 0, 0, 0, 0, 0, 0, 0, 0, 0, 0, 0, 0,
     0, 0, 0, 0, 0, 0, 0, 0, 0, 0, 0, 0, 0, 0, 0x02, 0] =
    [0x98f33893, 0xf09747c9, 0x295ffe34, 0x5491bf38, 0x762c4ac6, 0xe8e7cc94, 0x2fb57cd1, 0x8811d2d6]"
  by (simp add: sha_eval del: sha_eval_del)

lemma hmac1_outer: "sha_compress [0xb5106df0, 0x195ff082, 0x62b811d4, 0x9a787f35, 0x39db04c3, 0x45519e6d, 0x39c3fc9, 0xaeda57f3]
    [0x98, 0xf3, 0x38, 0x93, 0xf0, 0x97, 0x47, 0xc9, 0x29, 0x5f, 0xfe, 0x34, 0x54, 0x91, 0xbf, 0x38,
     0x76, 0x2c, 0x4a, 0xc6, 0xe8, 0xe7, 0xcc, 0x94, 0x2f, 0xb5, 0x7c, 0xd1, 0x88, 0x11, 0xd2, 0xd6,
     0x80, 0, 0, 0, 0, 0, 0, 0, 0, 0, 0, 0, 0, 0, 0, 0,
     0, 0, 0, 0, 0, 0, 0, 0, 0, 0, 0, 0, 0, 0, 0x03, 0] =
    [0x63210aee, 0x26576263, 0x4fa3db8c, 0x1aa920dc, 0xd07d31ec, 0x29730958, 0x394a214, 0x12f83372]"
  by (simp add: sha_eval del: sha_eval_del)

lemma hmac1_inner_state: "sha_compress [0x2dd5607d, 0xf619dc4c, 0xd2e4a912, 0x9fb7a0dc, 0x1c66200f, 0x96c7e54, 0xde956a87, 0x1eecd825]
    (sha_tail []) =
    [0x98f33893, 0xf09747c9, 0x295ffe34, 0x5491bf38, 0x762c4ac6, 0xe8e7cc94, 0x2fb57cd1, 0x8811d2d6]"
proof -
  have "sha_tail [] =
    [0x80, 0, 0, 0, 0, 0, 0, 0, 0, 0, 0, 0, 0, 0, 0, 0,
     0, 0, 0, 0, 0, 0, 0, 0, 0, 0, 0, 0, 0, 0, 0, 0,
     0, 0, 0, 0, 0, 0, 0, 0, 0, 0, 0, 0, 0, 0, 0, 0,
     0, 0, 0, 0, 0, 0, 0, 0, 0, 0, 0, 0, 0, 0, 0x02, 0]"
    by code_simp
  then show ?thesis by (simp only: hmac1_inner)
qed

lemma hmac1_outer_state: "sha_compress [0xb5106df0, 0x195ff082, 0x62b811d4, 0x9a787f35, 0x39db04c3, 0x45519e6d, 0x39c3fc9, 0xaeda57f3]
    (sha_tail (concat (map PutUint32 [0x98f33893, 0xf09747c9, 0x295ffe34, 0x5491bf38, 0x762c4ac6, 0xe8e7cc94, 0x2fb57cd1, 0x8811d2d6]))) =
    [0x63210aee, 0x26576263, 0x4fa3db8c, 0x1aa920dc, 0xd07d31ec, 0x29730958, 0x394a214, 0x12f83372]"
proof -
  have "sha_tail (concat (map PutUint32 [0x98f33893, 0xf09747c9, 0x295ffe34, 0x5491bf38, 0x762c4ac6, 0xe8e7cc94, 0x2fb57cd1, 0x8811d2d6])) =
    [0x98, 0xf3, 0x38, 0x93, 0xf0, 0x97, 0x47, 0xc9, 0x29, 0x5f, 0xfe, 0x34, 0x54, 0x91, 0xbf, 0x38,
     0x76, 0x2c, 0x4a, 0xc6, 0xe8, 0xe7, 0xcc, 0x94, 0x2f, 0xb5, 0x7c, 0xd1, 0x88, 0x11, 0xd2, 0xd6,
     0x80, 0, 0, 0, 0, 0, 0, 0, 0, 0, 0, 0, 0, 0, 0, 0,
     0, 0, 0, 0, 0, 0, 0, 0, 0, 0, 0, 0, 0, 0, 0x03, 0]"
    by code_simp
  then show ?thesis by (simp only: hmac1_outer)
qed

lemma hmac1: "hmac_sha256 aa_key [] =
    [0x63, 0x21, 0x0a, 0xee, 0x26, 0x57, 0x62, 0x63, 0x4f, 0xa3, 0xdb, 0x8c, 0x1a, 0xa9, 0x20, 0xdc,
     0xd0, 0x7d, 0x31, 0xec, 0x29, 0x73, 0x09, 0x58, 0x03, 0x94, 0xa2, 0x14, 0x12, 0xf8, 0x33, 0x72]"
proof -
  have "hmac_sha256 aa_key [] = concat (map PutUint32 [0x63210aee, 0x26576263, 0x4fa3db8c, 0x1aa920dc, 0xd07d31ec, 0x29730958, 0x394a214, 0x12f83372])"
    by (rule hmac_eval [OF key_lengths(4) _ aa_inner_state hmac1_inner_state aa_outer_state hmac1_outer_state]) simp
  also have "\<dots> =
    [0x63, 0x21, 0x0a, 0xee, 0x26, 0x57, 0x62, 0x63, 0x4f, 0xa3, 0xdb, 0x8c, 0x1a, 0xa9, 0x20, 0xdc,
     0xd0, 0x7d, 0x31, 0xec, 0x29, 0x73, 0x09, 0x58, 0x03, 0x94, 0xa2, 0x14, 0x12, 0xf8, 0x33, 0x72]"
    by code_simp
  finally show ?thesis .
qed

lemma hmac2_inner: "sha_compress [0x2dd5607d, 0xf619dc4c, 0xd2e4a912, 0x9fb7a0dc, 0x1c66200f, 0x96c7e54, 0xde956a87, 0x1eecd825]
    [0x68, 0x65, 0x6c, 0x6c, 0x6f, 0x80, 0, 0, 0, 0, 0, 0, 0, 0, 0, 0,
     0, 0, 0, 0, 0, 0, 0, 0, 0, 0, 0, 0, 0, 0, 0, 0,
     0, 0, 0, 0, 0, 0, 0, 0, 0, 0, 0, 0, 0, 0, 0, 0,
     0, 0, 0, 0, 0, 0, 0, 0, 0, 0, 0, 0, 0, 0, 0x02, 0x28] =
    [0x91e3f0fa, 0xbbdec9b7, 0x12154697, 0x41cf5e80, 0x1e21b660, 0xedd6ccc4, 0x2d5481db, 0x8e875ae1]"
  by (simp add: sha_eval del: sha_eval_del)

lemma hmac2_outer: "sha_compress [0xb5106df0, 0x195ff082, 0x62b811d4, 0x9a787f35, 0x39db04c3, 0x45519e6d, 0x39c3fc9, 0xaeda57f3]
    [0x91, 0xe3, 0xf0, 0xfa, 0xbb, 0xde, 0xc9, 0xb7, 0x12, 0x15, 0x46, 0x97, 0x41, 0xcf, 0x5e, 0x80,
     0x1e, 0x21, 0xb6, 0x60, 0xed, 0xd6, 0xcc, 0xc4, 0x2d, 0x54, 0x81, 0xdb, 0x8e, 0x87, 0x5a, 0xe1,
     0x80, 0, 0, 0, 0, 0, 0, 0, 0, 0, 0, 0, 0, 0, 0, 0,
     0, 0, 0, 0, 0, 0, 0, 0, 0, 0, 0, 0, 0, 0, 0x03, 0] =
    [0xb6e8136a, 0x40e7126, 0x6e360e23, 0xc7d48eac, 0x29362d4c, 0xff102207, 0x565d5b30, 0x72f1453b]"
  by (simp add: sha_eval del: sha_eval_del)

lemma hmac2_inner_state: "sha_compress [0x2dd5607d, 0xf619dc4c, 0xd2e4a912, 0x9fb7a0dc, 0x1c66200f, 0x96c7e54, 0xde956a87, 0x1eecd825]
    (sha_tail [0x68, 0x65, 0x6c, 0x6c, 0x6f]) =
    [0x91e3f0fa, 0xbbdec9b7, 0x12154697, 0x41cf5e80, 0x1e21b660, 0xedd6ccc4, 0x2d5481db, 0x8e875ae1]"
proof -
  have "sha_tail [0x68, 0x65, 0x6c, 0x6c, 0x6f] =
    [0x68, 0x65, 0x6c, 0x6c, 0x6f, 0x80, 0, 0, 0, 0, 0, 0, 0, 0, 0, 0,
     0, 0, 0, 0, 0, 0, 0, 0, 0, 0, 0, 0, 0, 0, 0, 0,
     0, 0, 0, 0, 0, 0, 0, 0, 0, 0, 0, 0, 0, 0, 0, 0,
     0, 0, 0, 0, 0, 0, 0, 0, 0, 0, 0, 0, 0, 0, 0x02, 0x28]"
    by code_simp
  then show ?thesis by (simp only: hmac2_inner)
qed

lemma hmac2_outer_state: "sha_compress [0xb5106df0, 0x195ff082, 0x62b811d4, 0x9a787f35, 0x39db04c3, 0x45519e6d, 0x39c3fc9, 0xaeda57f3]
    (sha_tail (concat (map PutUint32 [0x91e3f0fa, 0xbbdec9b7, 0x12154697, 0x41cf5e80, 0x1e21b660, 0xedd6ccc4, 0x2d5481db, 0x8e875ae1]))) =
    [0xb6e8136a, 0x40e7126, 0x6e360e23, 0xc7d48eac, 0x29362d4c, 0xff102207, 0x565d5b30, 0x72f1453b]"
proof -
  have "sha_tail (concat (map PutUint32 [0x91e3f0fa, 0xbbdec9b7, 0x12154697, 0x41cf5e80, 0x1e21b660, 0xedd6ccc4, 0x2d5481db, 0x8e875ae1])) =
    [0x91, 0xe3, 0xf0, 0xfa, 0xbb, 0xde, 0xc9, 0xb7, 0x12, 0x15, 0x46, 0x97, 0x41, 0xcf, 0x5e, 0x80,
     0x1e, 0x21, 0xb6, 0x60, 0xed, 0xd6, 0xcc, 0xc4, 0x2d, 0x54, 0x81, 0xdb, 0x8e, 0x87, 0x5a, 0xe1,
     0x80, 0, 0, 0, 0, 0, 0, 0, 0, 0, 0, 0, 0, 0, 0, 0,
     0, 0, 0, 0, 0, 0, 0, 0, 0, 0, 0, 0, 0, 0, 0x03, 0]"
    by code_simp
  then show ?thesis by (simp only: hmac2_outer)
qed

lemma hmac2: "hmac_sha256 aa_key [0x68, 0x65, 0x6c, 0x6c, 0x6f] =
    [0xb6, 0xe8, 0x13, 0x6a, 0x04, 0x0e, 0x71, 0x26, 0x6e, 0x36, 0x0e, 0x23, 0xc7, 0xd4, 0x8e, 0xac,
     0x29, 0x36, 0x2d, 0x4c, 0xff, 0x10, 0x22, 0x07, 0x56, 0x5d, 0x5b, 0x30, 0x72, 0xf1, 0x45, 0x3b]"
proof -
  have "hmac_sha256 aa_key [0x68, 0x65, 0x6c, 0x6c, 0x6f] = concat (map PutUint32 [0xb6e8136a, 0x40e7126, 0x6e360e23, 0xc7d48eac, 0x29362d4c, 0xff102207, 0x565d5b30, 0x72f1453b])"
    by (rule hmac_eval [OF key_lengths(4) _ aa_inner_state hmac2_inner_state aa_outer_state hmac2_outer_state]) simp
  also have "\<dots> =
    [0xb6, 0xe8, 0x13, 0x6a, 0x04, 0x0e, 0x71, 0x26, 0x6e, 0x36, 0x0e, 0x23, 0xc7, 0xd4, 0x8e, 0xac,
     0x29, 0x36, 0x2d, 0x4c, 0xff, 0x10, 0x22, 0x07, 0x56, 0x5d, 0x5b, 0x30, 0x72, 0xf1, 0x45, 0x3b]"
    by code_simp
  finally show ?thesis .
qed

lemma digits_inner: "sha_compress [0x6a09e667, 0xbb67ae85, 0x3c6ef372, 0xa54ff53a, 0x510e527f, 0x9b05688c, 0x1f83d9ab, 0x5be0cd19]
    [0x37, 0x15, 0x73, 0x51, 0xbf, 0x9d, 0xfb, 0xd9, 0x37, 0x15, 0x73, 0x51, 0xbf, 0x9d, 0xfb, 0xd9,
     0x37, 0x15, 0x73, 0x51, 0xbf, 0x9d, 0xfb, 0xd9, 0x37, 0x15, 0x73, 0x51, 0xbf, 0x9d, 0xfb, 0xd9,
     0x36, 0x36, 0x36, 0x36, 0x36, 0x36, 0x36, 0x36, 0x36, 0x36, 0x36, 0x36, 0x36, 0x36, 0x36, 0x36,
     0x36, 0x36, 0x36, 0x36, 0x36, 0x36, 0x36, 0x36, 0x36, 0x36, 0x36, 0x36, 0x36, 0x36, 0x36, 0x36] =
    [0x932a4e6b, 0x4e3e745a, 0x73b06c9c, 0xef066fc3, 0x3ae9f959, 0x15112901, 0x9f62285c, 0x66e53c66]"
  by (simp add: sha_eval del: sha_eval_del)

lemma digits_inner_state: "sha_compress sha_H0 (map ((XOR) 0x36) (digits_key @ replicate 32 0)) =
    [0x932a4e6b, 0x4e3e745a, 0x73b06c9c, 0xef066fc3, 0x3ae9f959, 0x15112901, 0x9f62285c, 0x66e53c66]"
proof -
  have "map ((XOR) 0x36) (digits_key @ replicate 32 0) =
    [0x37, 0x15, 0x73, 0x51, 0xbf, 0x9d, 0xfb, 0xd9, 0x37, 0x15, 0x73, 0x51, 0xbf, 0x9d, 0xfb, 0xd9,
     0x37, 0x15, 0x73, 0x51, 0xbf, 0x9d, 0xfb, 0xd9, 0x37, 0x15, 0x73, 0x51, 0xbf, 0x9d, 0xfb, 0xd9,
     0x36, 0x36, 0x36, 0x36, 0x36, 0x36, 0x36, 0x36, 0x36, 0x36, 0x36, 0x36, 0x36, 0x36, 0x36, 0x36,
     0x36, 0x36, 0x36, 0x36, 0x36, 0x36, 0x36, 0x36, 0x36, 0x36, 0x36, 0x36, 0x36, 0x36, 0x36, 0x36]"
    by code_simp
  then show ?thesis by (simp only: sha_H0_values digits_inner)
qed

lemma digits_outer: "sha_compress [0x6a09e667, 0xbb67ae85, 0x3c6ef372, 0xa54ff53a, 0x510e527f, 0x9b05688c, 0x1f83d9ab, 0x5be0cd19]
    [0x5d, 0x7f, 0x19, 0x3b, 0xd5, 0xf7, 0x91, 0xb3, 0x5d, 0x7f, 0x19, 0x3b, 0xd5, 0xf7, 0x91, 0xb3,
     0x5d, 0x7f, 0x19, 0x3b, 0xd5, 0xf7, 0x91, 0xb3, 0x5d, 0x7f, 0x19, 0x3b, 0xd5, 0xf7, 0x91, 0xb3,
     0x5c, 0x5c, 0x5c, 0x5c, 0x5c, 0x5c, 0x5c, 0x5c, 0x5c, 0x5c, 0x5c, 0x5c, 0x5c, 0x5c, 0x5c, 0x5c,
     0x5c, 0x5c, 0x5c, 0x5c, 0x5c, 0x5c, 0x5c, 0x5c, 0x5c, 0x5c, 0x5c, 0x5c, 0x5c, 0x5c, 0x5c, 0x5c] =
    [0x90e57e02, 0x419b2090, 0x9788c85e, 0x6c3fe3b8, 0x9c19f46a, 0x185335e3, 0x42c96c1d, 0xeb08e086]"
  by (simp add: sha_eval del: sha_eval_del)

lemma digits_outer_state: "sha_compress sha_H0 (map ((XOR) 0x5c) (digits_key @ replicate 32 0)) =
    [0x90e57e02, 0x419b2090, 0x9788c85e, 0x6c3fe3b8, 0x9c19f46a, 0x185335e3, 0x42c96c1d, 0xeb08e086]"
proof -
  have "map ((XOR) 0x5c) (digits_key @ replicate 32 0) =
    [0x5d, 0x7f, 0x19, 0x3b, 0xd5, 0xf7, 0x91, 0xb3, 0x5d, 0x7f, 0x19, 0x3b, 0xd5, 0xf7, 0x91, 0xb3,
     0x5d, 0x7f, 0x19, 0x3b, 0xd5, 0xf7, 0x91, 0xb3, 0x5d, 0x7f, 0x19, 0x3b, 0xd5, 0xf7, 0x91, 0xb3,
     0x5c, 0x5c, 0x5c, 0x5c, 0x5c, 0x5c, 0x5c, 0x5c, 0x5c, 0x5c, 0x5c, 0x5c, 0x5c, 0x5c, 0x5c, 0x5c,
     0x5c, 0x5c, 0x5c, 0x5c, 0x5c, 0x5c, 0x5c, 0x5c, 0x5c, 0x5c, 0x5c, 0x5c, 0x5c, 0x5c, 0x5c, 0x5c]"
    by code_simp
  then show ?thesis by (simp only: sha_H0_values digits_outer)
qed

lemma hmac3_inner: "sha_compress [0x932a4e6b, 0x4e3e745a, 0x73b06c9c, 0xef066fc3, 0x3ae9f959, 0x15112901, 0x9f62285c, 0x66e53c66]
    [0x74, 0x68, 0x65, 0x20, 0x71, 0x75, 0x69, 0x63, 0x6b, 0x20, 0x62, 0x72, 0x6f, 0x77, 0x6e, 0x20,
     0x66, 0x6f, 0x78, 0x20, 0x6a, 0x75, 0x6d, 0x70, 0x73, 0x20, 0x6f, 0x76, 0x65, 0x72, 0x20, 0x74,
     0x68, 0x65, 0x20, 0x6c, 0x61, 0x7a, 0x79, 0x20, 0x64, 0x6f, 0x67, 0x80, 0, 0, 0, 0,
     0, 0, 0, 0, 0, 0, 0, 0, 0, 0, 0, 0, 0, 0, 0x03, 0x58] =
    [0x3743348a, 0xb7055958, 0xf969eb85, 0x9670212a, 0x27ca887e, 0xff177419, 0xba9c6002, 0xc81ab5fc]"
  by (simp add: sha_eval del: sha_eval_del)

lemma hmac3_outer: "sha_compress [0x90e57e02, 0x419b2090, 0x9788c85e, 0x6c3fe3b8, 0x9c19f46a, 0x185335e3, 0x42c96c1d, 0xeb08e086]
    [0x37, 0x43, 0x34, 0x8a, 0xb7, 0x05, 0x59, 0x58, 0xf9, 0x69, 0xeb, 0x85, 0x96, 0x70, 0x21, 0x2a,
     0x27, 0xca, 0x88, 0x7e, 0xff, 0x17, 0x74, 0x19, 0xba, 0x9c, 0x60, 0x02, 0xc8, 0x1a, 0xb5, 0xfc,
     0x80, 0, 0, 0, 0, 0, 0, 0, 0, 0, 0, 0, 0, 0, 0, 0,
     0, 0, 0, 0, 0, 0, 0, 0, 0, 0, 0, 0, 0, 0, 0x03, 0] =
    [0x57d075d6, 0x61dfc62b, 0x3075c1ec, 0xd0e8d95a, 0x47c552d5, 0x2ba14b72, 0xe8140588, 0xdc416710]"
  by (simp add: sha_eval del: sha_eval_del)

lemma hmac3_inner_state: "sha_compress [0x932a4e6b, 0x4e3e745a, 0x73b06c9c, 0xef066fc3, 0x3ae9f959, 0x15112901, 0x9f62285c, 0x66e53c66]
    (sha_tail [0x74, 0x68, 0x65, 0x20, 0x71, 0x75, 0x69, 0x63, 0x6b, 0x20, 0x62, 0x72, 0x6f, 0x77, 0x6e, 0x20, 0x66, 0x6f, 0x78, 0x20, 0x6a, 0x75, 0x6d, 0x70, 0x73, 0x20, 0x6f, 0x76, 0x65, 0x72, 0x20, 0x74, 0x68, 0x65, 0x20, 0x6c, 0x61, 0x7a, 0x79, 0x20, 0x64, 0x6f, 0x67]) =
    [0x3743348a, 0xb7055958, 0xf969eb85, 0x9670212a, 0x27ca887e, 0xff177419, 0xba9c6002, 0xc81ab5fc]"
proof -
  have "sha_tail [0x74, 0x68, 0x65, 0x20, 0x71, 0x75, 0x69, 0x63, 0x6b, 0x20, 0x62, 0x72, 0x6f, 0x77, 0x6e, 0x20, 0x66, 0x6f, 0x78, 0x20, 0x6a, 0x75, 0x6d, 0x70, 0x73, 0x20, 0x6f, 0x76, 0x65, 0x72, 0x20, 0x74, 0x68, 0x65, 0x20, 0x6c, 0x61, 0x7a, 0x79, 0x20, 0x64, 0x6f, 0x67] =
    [0x74, 0x68, 0x65, 0x20, 0x71, 0x75, 0x69, 0x63, 0x6b, 0x20, 0x62, 0x72, 0x6f, 0x77, 0x6e, 0x20,
     0x66, 0x6f, 0x78, 0x20, 0x6a, 0x75, 0x6d, 0x70, 0x73, 0x20, 0x6f, 0x76, 0x65, 0x72, 0x20, 0x74,
     0x68, 0x65, 0x20, 0x6c, 0x61, 0x7a, 0x79, 0x20, 0x64, 0x6f, 0x67, 0x80, 0, 0, 0, 0,
     0, 0, 0, 0, 0, 0, 0, 0, 0, 0, 0, 0, 0, 0, 0x03, 0x58]"
    by code_simp
  then show ?thesis by (simp only: hmac3_inner)
qed

lemma hmac3_outer_state: "sha_compress [0x90e57e02, 0x419b2090, 0x9788c85e, 0x6c3fe3b8, 0x9c19f46a, 0x185335e3, 0x42c96c1d, 0xeb08e086]
    (sha_tail (concat (map PutUint32 [0x3743348a, 0xb7055958, 0xf969eb85, 0x9670212a, 0x27ca887e, 0xff177419, 0xba9c6002, 0xc81ab5fc]))) =
    [0x57d075d6, 0x61dfc62b, 0x3075c1ec, 0xd0e8d95a, 0x47c552d5, 0x2ba14b72, 0xe8140588, 0xdc416710]"
proof -
  have "sha_tail (concat (map PutUint32 [0x3743348a, 0xb7055958, 0xf969eb85, 0x9670212a, 0x27ca887e, 0xff177419, 0xba9c6002, 0xc81ab5fc])) =
    [0x37, 0x43, 0x34, 0x8a, 0xb7, 0x05, 0x59, 0x58, 0xf9, 0x69, 0xeb, 0x85, 0x96, 0x70, 0x21, 0x2a,
     0x27, 0xca, 0x88, 0x7e, 0xff, 0x17, 0x74, 0x19, 0xba, 0x9c, 0x60, 0x02, 0xc8, 0x1a, 0xb5, 0xfc,
     0x80, 0, 0, 0, 0, 0, 0, 0, 0, 0, 0, 0, 0, 0, 0, 0,
     0, 0, 0, 0, 0, 0, 0, 0, 0, 0, 0, 0, 0, 0, 0x03, 0]"
    by code_simp
  then show ?thesis by (simp only: hmac3_outer)
qed

lemma hmac3: "hmac_sha256 digits_key [0x74, 0x68, 0x65, 0x20, 0x71, 0x75, 0x69, 0x63, 0x6b, 0x20, 0x62, 0x72, 0x6f, 0x77, 0x6e, 0x20, 0x66, 0x6f, 0x78, 0x20, 0x6a, 0x75, 0x6d, 0x70, 0x73, 0x20, 0x6f, 0x76, 0x65, 0x72, 0x20, 0x74, 0x68, 0x65, 0x20, 0x6c, 0x61, 0x7a, 0x79, 0x20, 0x64, 0x6f, 0x67] =
    [0x57, 0xd0, 0x75, 0xd6, 0x61, 0xdf, 0xc6, 0x2b, 0x30, 0x75, 0xc1, 0xec, 0xd0, 0xe8, 0xd9, 0x5a,
     0x47, 0xc5, 0x52, 0xd5, 0x2b, 0xa1, 0x4b, 0x72, 0xe8, 0x14, 0x05, 0x88, 0xdc, 0x41, 0x67, 0x10]"
proof -
  have "hmac_sha256 digits_key [0x74, 0x68, 0x65, 0x20, 0x71, 0x75, 0x69, 0x63, 0x6b, 0x20, 0x62, 0x72, 0x6f, 0x77, 0x6e, 0x20, 0x66, 0x6f, 0x78, 0x20, 0x6a, 0x75, 0x6d, 0x70, 0x73, 0x20, 0x6f, 0x76, 0x65, 0x72, 0x20, 0x74, 0x68, 0x65, 0x20, 0x6c, 0x61, 0x7a, 0x79, 0x20, 0x64, 0x6f, 0x67] = concat (map PutUint32 [0x57d075d6, 0x61dfc62b, 0x3075c1ec, 0xd0e8d95a, 0x47c552d5, 0x2ba14b72, 0xe8140588, 0xdc416710])"
    by (rule hmac_eval [OF key_lengths(3) _ digits_inner_state hmac3_inner_state digits_outer_state hmac3_outer_state]) simp
  also have "\<dots> =
    [0x57, 0xd0, 0x75, 0xd6, 0x61, 0xdf, 0xc6, 0x2b, 0x30, 0x75, 0xc1, 0xec, 0xd0, 0xe8, 0xd9, 0x5a,
     0x47, 0xc5, 0x52, 0xd5, 0x2b, 0xa1, 0x4b, 0x72, 0xe8, 0x14, 0x05, 0x88, 0xdc, 0x41, 0x67, 0x10]"
    by code_simp
  finally show ?thesis .
qed

lemma down_inner: "sha_compress [0x6a09e667, 0xbb67ae85, 0x3c6ef372, 0xa54ff53a, 0x510e527f, 0x9b05688c, 0x1f83d9ab, 0x5be0cd19]
    [0xc8, 0xea, 0x8c, 0xae, 0x40, 0x62, 0x04, 0x26, 0xc8, 0xea, 0x8c, 0xae, 0x40, 0x62, 0x04, 0x26,
     0xc8, 0xea, 0x8c, 0xae, 0x40, 0x62, 0x04, 0x26, 0xc8, 0xea, 0x8c, 0xae, 0x40, 0x62, 0x04, 0x26,
     0x36, 0x36, 0x36, 0x36, 0x36, 0x36, 0x36, 0x36, 0x36, 0x36, 0x36, 0x36, 0x36, 0x36, 0x36, 0x36,
     0x36, 0x36, 0x36, 0x36, 0x36, 0x36, 0x36, 0x36, 0x36, 0x36, 0x36, 0x36, 0x36, 0x36, 0x36, 0x36] =
    [0xc9cf587f, 0xd77425b, 0x1ab83679, 0x7fb503b1, 0xab6efdff, 0xda9ab0f0, 0x6790a7f8, 0x377df404]"
  by (simp add: sha_eval del: sha_eval_del)

lemma down_inner_state: "sha_compress sha_H0 (map ((XOR) 0x36) (down_key @ replicate 32 0)) =
    [0xc9cf587f, 0xd77425b, 0x1ab83679, 0x7fb503b1, 0xab6efdff, 0xda9ab0f0, 0x6790a7f8, 0x377df404]"
proof -
  have "map ((XOR) 0x36) (down_key @ replicate 32 0) =
    [0xc8, 0xea, 0x8c, 0xae, 0x40, 0x62, 0x04, 0x26, 0xc8, 0xea, 0x8c, 0xae, 0x40, 0x62, 0x04, 0x26,
     0xc8, 0xea, 0x8c, 0xae, 0x40, 0x62, 0x04, 0x26, 0xc8, 0xea, 0x8c, 0xae, 0x40, 0x62, 0x04, 0x26,
     0x36, 0x36, 0x36, 0x36, 0x36, 0x36, 0x36, 0x36, 0x36, 0x36, 0x36, 0x36, 0x36, 0x36, 0x36, 0x36,
     0x36, 0x36, 0x36, 0x36, 0x36, 0x36, 0x36, 0x36, 0x36, 0x36, 0x36, 0x36, 0x36, 0x36, 0x36, 0x36]"
    by code_simp
  then show ?thesis by (simp only: sha_H0_values down_inner)
qed

lemma down_outer: "sha_compress [0x6a09e667, 0xbb67ae85, 0x3c6ef372, 0xa54ff53a, 0x510e527f, 0x9b05688c, 0x1f83d9ab, 0x5be0cd19]
    [0xa2, 0x80, 0xe6, 0xc4, 0x2a, 0x08, 0x6e, 0x4c, 0xa2, 0x80, 0xe6, 0xc4, 0x2a, 0x08, 0x6e, 0x4c,
     0xa2, 0x80, 0xe6, 0xc4, 0x2a, 0x08, 0x6e, 0x4c, 0xa2, 0x80, 0xe6, 0xc4, 0x2a, 0x08, 0x6e, 0x4c,
     0x5c, 0x5c, 0x5c, 0x5c, 0x5c, 0x5c, 0x5c, 0x5c, 0x5c, 0x5c, 0x5c, 0x5c, 0x5c, 0x5c, 0x5c, 0x5c,
     0x5c, 0x5c, 0x5c, 0x5c, 0x5c, 0x5c, 0x5c, 0x5c, 0x5c, 0x5c, 0x5c, 0x5c, 0x5c, 0x5c, 0x5c, 0x5c] =
    [0x9606557a, 0x1d16f332, 0x614a9224, 0x77acc61f, 0x3af28937, 0xb4ef5ffc, 0xcc96cf45, 0x57fc9d84]"
  by (simp add: sha_eval del: sha_eval_del)

lemma down_outer_state: "sha_compress sha_H0 (map ((XOR) 0x5c) (down_key @ replicate 32 0)) =
    [0x9606557a, 0x1d16f332, 0x614a9224, 0x77acc61f, 0x3af28937, 0xb4ef5ffc, 0xcc96cf45, 0x57fc9d84]"
proof -
  have "map ((XOR) 0x5c) (down_key @ replicate 32 0) =
    [0xa2, 0x80, 0xe6, 0xc4, 0x2a, 0x08, 0x6e, 0x4c, 0xa2, 0x80, 0xe6, 0xc4, 0x2a, 0x08, 0x6e, 0x4c,
     0xa2, 0x80, 0xe6, 0xc4, 0x2a, 0x08, 0x6e, 0x4c, 0xa2, 0x80, 0xe6, 0xc4, 0x2a, 0x08, 0x6e, 0x4c,
     0x5c, 0x5c, 0x5c, 0x5c, 0x5c, 0x5c, 0x5c, 0x5c, 0x5c, 0x5c, 0x5c, 0x5c, 0x5c, 0x5c, 0x5c, 0x5c,
     0x5c, 0x5c, 0x5c, 0x5c, 0x5c, 0x5c, 0x5c, 0x5c, 0x5c, 0x5c, 0x5c, 0x5c, 0x5c, 0x5c, 0x5c, 0x5c]"
    by code_simp
  then show ?thesis by (simp only: sha_H0_values down_outer)
qed

lemma hmac4_inner: "sha_compress [0xc9cf587f, 0xd77425b, 0x1ab83679, 0x7fb503b1, 0xab6efdff, 0xda9ab0f0, 0x6790a7f8, 0x377df404]
    [0, 1, 0x02, 0xff, 0xfe, 0xfd, 0x80, 0, 0, 0, 0, 0, 0, 0, 0, 0,
     0, 0, 0, 0, 0, 0, 0, 0, 0, 0, 0, 0, 0, 0, 0, 0,
     0, 0, 0, 0, 0, 0, 0, 0, 0, 0, 0, 0, 0, 0, 0, 0,
     0, 0, 0, 0, 0, 0, 0, 0, 0, 0, 0, 0, 0, 0, 0x02, 0x30] =
    [0xba9e610, 0x470f3bae, 0xf517cd5f, 0x6aa77c8c, 0x615d0368, 0x74f6ff97, 0x63047b8f, 0xb63ae6c1]"
  by (simp add: sha_eval del: sha_eval_del)

lemma hmac4_outer: "sha_compress [0x9606557a, 0x1d16f332, 0x614a9224, 0x77acc61f, 0x3af28937, 0xb4ef5ffc, 0xcc96cf45, 0x57fc9d84]
    [0x0b, 0xa9, 0xe6, 0x10, 0x47, 0x0f, 0x3b, 0xae, 0xf5, 0x17, 0xcd, 0x5f, 0x6a, 0xa7, 0x7c, 0x8c,
     0x61, 0x5d, 0x03, 0x68, 0x74, 0xf6, 0xff, 0x97, 0x63, 0x04, 0x7b, 0x8f, 0xb6, 0x3a, 0xe6, 0xc1,
     0x80, 0, 0, 0, 0, 0, 0, 0, 0, 0, 0, 0, 0, 0, 0, 0,
     0, 0, 0, 0, 0, 0, 0, 0, 0, 0, 0, 0, 0, 0, 0x03, 0] =
    [0x4e5b5f87, 0x793ae112, 0xc40262b1, 0xbcbdbf05, 0x8f53af55, 0xe4d5f51c, 0x7277d289, 0xe7a7d06d]"
  by (simp add: sha_eval del: sha_eval_del)

lemma hmac4_inner_state: "sha_compress [0xc9cf587f, 0xd77425b, 0x1ab83679, 0x7fb503b1, 0xab6efdff, 0xda9ab0f0, 0x6790a7f8, 0x377df404]
    (sha_tail [0, 1, 0x02, 0xff, 0xfe, 0xfd]) =
    [0xba9e610, 0x470f3bae, 0xf517cd5f, 0x6aa77c8c, 0x615d0368, 0x74f6ff97, 0x63047b8f, 0xb63ae6c1]"
proof -
  have "sha_tail [0, 1, 0x02, 0xff, 0xfe, 0xfd] =
    [0, 1, 0x02, 0xff, 0xfe, 0xfd, 0x80, 0, 0, 0, 0, 0, 0, 0, 0, 0,
     0, 0, 0, 0, 0, 0, 0, 0, 0, 0, 0, 0, 0, 0, 0, 0,
     0, 0, 0, 0, 0, 0, 0, 0, 0, 0, 0, 0, 0, 0, 0, 0,
     0, 0, 0, 0, 0, 0, 0, 0, 0, 0, 0, 0, 0, 0, 0x02, 0x30]"
    by code_simp
  then show ?thesis by (simp only: hmac4_inner)
qed

lemma hmac4_outer_state: "sha_compress [0x9606557a, 0x1d16f332, 0x614a9224, 0x77acc61f, 0x3af28937, 0xb4ef5ffc, 0xcc96cf45, 0x57fc9d84]
    (sha_tail (concat (map PutUint32 [0xba9e610, 0x470f3bae, 0xf517cd5f, 0x6aa77c8c, 0x615d0368, 0x74f6ff97, 0x63047b8f, 0xb63ae6c1]))) =
    [0x4e5b5f87, 0x793ae112, 0xc40262b1, 0xbcbdbf05, 0x8f53af55, 0xe4d5f51c, 0x7277d289, 0xe7a7d06d]"
proof -
  have "sha_tail (concat (map PutUint32 [0xba9e610, 0x470f3bae, 0xf517cd5f, 0x6aa77c8c, 0x615d0368, 0x74f6ff97, 0x63047b8f, 0xb63ae6c1])) =
    [0x0b, 0xa9, 0xe6, 0x10, 0x47, 0x0f, 0x3b, 0xae, 0xf5, 0x17, 0xcd, 0x5f, 0x6a, 0xa7, 0x7c, 0x8c,
     0x61, 0x5d, 0x03, 0x68, 0x74, 0xf6, 0xff, 0x97, 0x63, 0x04, 0x7b, 0x8f, 0xb6, 0x3a, 0xe6, 0xc1,
     0x80, 0, 0, 0, 0, 0, 0, 0, 0, 0, 0, 0, 0, 0, 0, 0,
     0, 0, 0, 0, 0, 0, 0, 0, 0, 0, 0, 0, 0, 0, 0x03, 0]"
    by code_simp
  then show ?thesis by (simp only: hmac4_outer)
qed

lemma hmac4: "hmac_sha256 down_key [0, 1, 0x02, 0xff, 0xfe, 0xfd] =
    [0x4e, 0x5b, 0x5f, 0x87, 0x79, 0x3a, 0xe1, 0x12, 0xc4, 0x02, 0x62, 0xb1, 0xbc, 0xbd, 0xbf, 0x05,
     0x8f, 0x53, 0xaf, 0x55, 0xe4, 0xd5, 0xf5, 0x1c, 0x72, 0x77, 0xd2, 0x89, 0xe7, 0xa7, 0xd0, 0x6d]"
proof -
  have "hmac_sha256 down_key [0, 1, 0x02, 0xff, 0xfe, 0xfd] = concat (map PutUint32 [0x4e5b5f87, 0x793ae112, 0xc40262b1, 0xbcbdbf05, 0x8f53af55, 0xe4d5f51c, 0x7277d289, 0xe7a7d06d])"
    by (rule hmac_eval [OF key_lengths(5) _ down_inner_state hmac4_inner_state down_outer_state hmac4_outer_state]) simp
  also have "\<dots> =
    [0x4e, 0x5b, 0x5f, 0x87, 0x79, 0x3a, 0xe1, 0x12, 0xc4, 0x02, 0x62, 0xb1, 0xbc, 0xbd, 0xbf, 0x05,
     0x8f, 0x53, 0xaf, 0x55, 0xe4, 0xd5, 0xf5, 0x1c, 0x72, 0x77, 0xd2, 0x89, 0xe7, 0xa7, 0xd0, 0x6d]"
    by code_simp
  finally show ?thesis .
qed

end
