(* ===== verification/Console.thy ===== *)
theory Console
  imports Runtime
begin

text \<open>
  The process a \<^verbatim>\<open>main\<close> of \<^verbatim>\<open>src/examples\<close> runs in: the random source, the clock, and what it prints.
  \<^verbatim>\<open>crypto/rand\<close> and the package variable \<^verbatim>\<open>randReader\<close> are the same source. A main ends in \<open>Ok ()\<close>
  when it returns, in \<open>Err e\<close> when it calls \<^verbatim>\<open>log.Fatal\<close>, \<^verbatim>\<open>log.Fatalf\<close> or \<^verbatim>\<open>os.Exit(1)\<close>, and in \<open>Panic\<close>
  on a run-time panic. A call of \<^verbatim>\<open>fmt.Printf\<close> is recorded with its format and its operands, a call of
  \<^verbatim>\<open>fmt.Println\<close> with its operands; the text they produce is not rendered.
\<close>

datatype operand =
    Str gostring
  | Num int
  | Flag bool
  | Error "error option"
  | Hex bytes
  | Strs "gostring list"
  | Ratio nat nat

datatype printed = Printf string "operand list" | Println "operand list"

record process =
  pr_rand :: reader
  pr_out :: "printed list"

text \<open>
  A format string is written as the list of its lines: \<open>lines [a, b]\<close> is \<open>a\<close>, a line feed and \<open>b\<close>.
\<close>

fun lines :: "string list \<Rightarrow> string" where
  "lines [] = []"
| "lines [l] = l"
| "lines (l # ls) = l @ [CHR 0x0A] @ lines ls"

declare lines.simps [simp del]

text \<open>A string of the source with a dash or an arrow in it, in UTF-8.\<close>

definition dashed :: "string \<Rightarrow> string \<Rightarrow> string" where
  "dashed a b = a @ [CHR 0xE2, CHR 0x80, CHR 0x94] @ b"

definition arrowed :: "string \<Rightarrow> string \<Rightarrow> string" where
  "arrowed a b = a @ [CHR 0xE2, CHR 0x86, CHR 0x92] @ b"

definition printf :: "string \<Rightarrow> operand list \<Rightarrow> 'z process_scheme \<Rightarrow> 'z process_scheme" where
  "printf f args p = p\<lparr>pr_out := pr_out p @ [Printf f args]\<rparr>"

definition println :: "operand list \<Rightarrow> 'z process_scheme \<Rightarrow> 'z process_scheme" where
  "println args p = p\<lparr>pr_out := pr_out p @ [Println args]\<rparr>"

definition returns :: "'s \<Rightarrow> unit res \<times> 's" where
  "returns p = (Ok (), p)"

text \<open>A call that reads the random source.\<close>

definition draw :: "(reader \<Rightarrow> 'a res \<times> reader) \<Rightarrow> 'z process_scheme \<Rightarrow> 'a res \<times> 'z process_scheme" where
  "draw m p = (case m (pr_rand p) of (r, rnd) \<Rightarrow> (r, p\<lparr>pr_rand := rnd\<rparr>))"

text \<open>
  The uses of a call \<open>m\<close> that returns a value and an error. \<open>fatalf f m\<close>: \<^verbatim>\<open>if err != nil { log.Fatalf(f, err) }\<close>
  after it. \<open>or_panic m\<close>: \<^verbatim>\<open>if err != nil { panic(err) }\<close>. \<open>or_zero z m\<close>: \<^verbatim>\<open>x, _ := m\<close>, whose value is
  the zero value \<open>z\<close> when \<open>m\<close> fails. \<open>outcome z m\<close>: \<^verbatim>\<open>x, err := m\<close> with both values used afterwards.
  \<open>check r yes no\<close>: \<^verbatim>\<open>if err != nil { no(err) } else { yes(x) }\<close>.
\<close>

fun fatalf :: "string \<Rightarrow> 'a res \<times> 's \<Rightarrow> 'a res \<times> 's" where
  "fatalf f (r, p) = (or_err (\<lambda>e. Msg f) r, p)"

fun or_panic :: "'a res \<times> 's \<Rightarrow> 'a res \<times> 's" where
  "or_panic (Ok a, p) = (Ok a, p)"
| "or_panic (Err e, p) = (Panic, p)"
| "or_panic (Panic, p) = (Panic, p)"

fun or_zero :: "'a \<Rightarrow> 'a res \<times> 's \<Rightarrow> 'a res \<times> 's" where
  "or_zero z (Ok a, p) = (Ok a, p)"
| "or_zero z (Err e, p) = (Ok z, p)"
| "or_zero z (Panic, p) = (Panic, p)"

fun outcome :: "'a \<Rightarrow> 'a res \<times> 's \<Rightarrow> ('a \<times> error option) res \<times> 's" where
  "outcome z (Ok a, p) = (Ok (a, None), p)"
| "outcome z (Err e, p) = (Ok (z, Some e), p)"
| "outcome z (Panic, p) = (Panic, p)"

fun check :: "'a res \<Rightarrow> ('a \<Rightarrow> 's \<Rightarrow> 's) \<Rightarrow> (error \<Rightarrow> 's \<Rightarrow> 's) \<Rightarrow> 's \<Rightarrow> unit res \<times> 's" where
  "check (Ok a) yes no p = (Ok (), yes a p)"
| "check (Err e) yes no p = (Ok (), no e p)"
| "check Panic yes no p = (Panic, p)"

definition quiet :: "'a \<Rightarrow> 's \<Rightarrow> 's" where
  "quiet a p = p"

text \<open>\<^verbatim>\<open>errors.Is(err, target)\<close> of an error that may be nil.\<close>

definition err_Is :: "error option \<Rightarrow> error \<Rightarrow> bool" where
  "err_Is err target = (case err of None \<Rightarrow> False | Some e \<Rightarrow> errors_Is e target)"

text \<open>\<^verbatim>\<open>s[:len(s)-k]\<close>\<close>

definition chop :: "nat \<Rightarrow> 'a list \<Rightarrow> 'a list res" where
  "chop k s = (if k \<le> length s then Ok (take (length s - k) s) else Panic)"

text \<open>
  \<open>console_simps\<close> executes a main whose calls are known: its rules push the process through the
  combinators.
\<close>

named_theorems console_simps \<open>evaluation rules of the example programs\<close>

lemmas [console_simps] = Let_def printf_def println_def returns_def quiet_def

lemma draw_eq [console_simps]: "m (pr_rand p) = (r, rnd) \<Longrightarrow> draw m p = (r, p\<lparr>pr_rand := rnd\<rparr>)"
  by (simp add: draw_def)

lemma draw_read_rand [console_simps]:
  "n \<le> length (rd_data (pr_rand p)) \<Longrightarrow>
     draw (read_rand g n) p = (Ok (take n (rd_data (pr_rand p))), p\<lparr>pr_rand := (pr_rand p)\<lparr>rd_data := drop n (rd_data (pr_rand p))\<rparr>\<rparr>)"
  by (simp add: draw_def read_rand_enough)

lemma chop_in: "k \<le> length s \<Longrightarrow> chop k s = Ok (take (length s - k) s)"
  by (simp add: chop_def)

lemma chop_last [console_simps]: "s \<noteq> [] \<Longrightarrow> chop (Suc 0) s = Ok (butlast s)"
  by (cases s) (simp_all add: chop_def butlast_conv_take)

text \<open>\<open>skip k r\<close> is the reader \<open>r\<close> after \<open>k\<close> bytes, \<open>after k out p\<close> the process \<open>p\<close> after drawing \<open>k\<close> bytes and
  printing \<open>out\<close>.\<close>

abbreviation skip :: "nat \<Rightarrow> reader \<Rightarrow> reader" where
  "skip k r \<equiv> r\<lparr>rd_data := drop k (rd_data r)\<rparr>"

abbreviation after :: "nat \<Rightarrow> printed list \<Rightarrow> 'z process_scheme \<Rightarrow> 'z process_scheme" where
  "after k out p \<equiv> p\<lparr>pr_rand := skip k (pr_rand p), pr_out := pr_out p @ out\<rparr>"

text \<open>The error a failed result carries.\<close>

fun error_of :: "'a res \<Rightarrow> error option" where
  "error_of (Err e) = Some e"
| "error_of (Ok a) = None"
| "error_of Panic = None"

lemma check_failed:
  "r \<noteq> Panic \<Longrightarrow> check r quiet (\<lambda>e. printf f [Error (Some e)]) p =
     (Ok (), if is_ok r then p else printf f [Error (error_of r)] p)"
  by (cases r) (simp_all add: quiet_def)

lemma err_Is_simps [console_simps]: "err_Is None t = False" "err_Is (Some e) t = errors_Is e t"
  by (simp_all add: err_Is_def)

end
