(* ===== verification/KnownAnswers.thy ===== *)
theory KnownAnswers
  imports AnswersAead AnswersCbc AnswersHmac Console
begin

text \<open>
  \<^verbatim>\<open>src/testdata/vectors.json\<close>, the file both implementations are tested against, as the value it parses to and
  as its text. The generator's model computes exactly these vectors and prints exactly this text, so the models
  of AES, GCM, CBC, SHA-256, HMAC and of the encoders agree with the committed outputs of the Go library.
\<close>

subsection \<open>The file\<close>

definition aead_answer1 :: AEADVector where
  "aead_answer1 =
    \<lparr>av_Name = ''all-zero key, all-zero nonce, empty plaintext, no AAD'',
     av_KeyHex = lit ''0000000000000000000000000000000000000000000000000000000000000000'',
     av_NonceHex = lit ''000000000000000000000000'',
     av_AADHex = [],
     av_PlaintextHex = [],
     av_ExpectedB64URL = lit ''AQAAAAAAAAAAAAAAAFMPivvHRTa5qWO08cTLc4s''\<rparr>"

definition aead_answer2 :: AEADVector where
  "aead_answer2 =
    \<lparr>av_Name = ''all-zero key, all-zero nonce, ASCII plaintext, no AAD'',
     av_KeyHex = lit ''0000000000000000000000000000000000000000000000000000000000000000'',
     av_NonceHex = lit ''000000000000000000000000'',
     av_AADHex = [],
     av_PlaintextHex = lit ''68656c6c6f2c20776f726c64'',
     av_ExpectedB64URL = lit ''AQAAAAAAAAAAAAAAAKbCLFEiTEsZaDyptyVyvm9D_ANLvLHf91EaQ6I''\<rparr>"

definition aead_answer3 :: AEADVector where
  "aead_answer3 =
    \<lparr>av_Name = ''all-zero key, all-zero nonce, ASCII plaintext, ASCII AAD'',
     av_KeyHex = lit ''0000000000000000000000000000000000000000000000000000000000000000'',
     av_NonceHex = lit ''000000000000000000000000'',
     av_AADHex = lit ''757365723a3432'',
     av_PlaintextHex = lit ''68656c6c6f2c20776f726c64'',
     av_ExpectedB64URL = lit ''AQAAAAAAAAAAAAAAAKbCLFEiTEsZaDypt1i1i-WvUsUgHzjEz9xiQJ0''\<rparr>"

definition aead_answer4 :: AEADVector where
  "aead_answer4 =
    \<lparr>av_Name = ''patterned key, patterned nonce, longer plaintext'',
     av_KeyHex = lit ''000102030405060708090a0b0c0d0e0f101112131415161718191a1b1c1d1e1f'',
     av_NonceHex = lit ''111213141516171819101a1b'',
     av_AADHex = lit ''636f6e746578742d62696e64696e672d737472696e67'',
     av_PlaintextHex = lit ''74686520717569636b2062726f776e20666f78206a756d7073206f76657220746865206c617a7920646f672030313233343536373839'',
     av_ExpectedB64URL = lit ''ARESExQVFhcYGRAaG02zELqvtgMZdTLRnB920A89R5Gy_tBdQYshiZwMIaENd-PjpDYdxtOqaf2jSXAuYIUS0VTgJ0svKV4faIdv8mOPpGNpi_I''\<rparr>"

definition aead_answer5 :: AEADVector where
  "aead_answer5 =
    \<lparr>av_Name = ''binary plaintext, no AAD'',
     av_KeyHex = lit ''0123456789abcdef0123456789abcdef0123456789abcdef0123456789abcdef'',
     av_NonceHex = lit ''fedcba9876543210fedcba98'',
     av_AADHex = [],
     av_PlaintextHex = lit ''000102030405060708090a0b0c0d0e0ffefcfdf8f0e0d0c0b0a0908070605040'',
     av_ExpectedB64URL = lit ''Af7cuph2VDIQ_ty6mNKuSaE7UmVDRZ8uHWlPw_Jr_vhu4ppGNcxtl4Yiupwnt_SPD7MeTma-g5qXCBV9kA''\<rparr>"

definition hmac_answer1 :: HMACVector where
  "hmac_answer1 =
    \<lparr>hv_Name = ''empty data'',
     hv_KeyHex = lit ''aaaaaaaaaaaaaaaaaaaaaaaaaaaaaaaaaaaaaaaaaaaaaaaaaaaaaaaaaaaaaaaa'',
     hv_DataHex = [],
     hv_ExpectedHex = lit ''63210aee265762634fa3db8c1aa920dcd07d31ec297309580394a21412f83372''\<rparr>"

definition hmac_answer2 :: HMACVector where
  "hmac_answer2 =
    \<lparr>hv_Name = ''short ASCII data'',
     hv_KeyHex = lit ''aaaaaaaaaaaaaaaaaaaaaaaaaaaaaaaaaaaaaaaaaaaaaaaaaaaaaaaaaaaaaaaa'',
     hv_DataHex = lit ''68656c6c6f'',
     hv_ExpectedHex = lit ''b6e8136a040e71266e360e23c7d48eac29362d4cff102207565d5b3072f1453b''\<rparr>"

definition hmac_answer3 :: HMACVector where
  "hmac_answer3 =
    \<lparr>hv_Name = ''long ASCII data'',
     hv_KeyHex = lit ''0123456789abcdef0123456789abcdef0123456789abcdef0123456789abcdef'',
     hv_DataHex = lit ''74686520717569636b2062726f776e20666f78206a756d7073206f76657220746865206c617a7920646f67'',
     hv_ExpectedHex = lit ''57d075d661dfc62b3075c1ecd0e8d95a47c552d52ba14b72e8140588dc416710''\<rparr>"

definition hmac_answer4 :: HMACVector where
  "hmac_answer4 =
    \<lparr>hv_Name = ''binary data'',
     hv_KeyHex = lit ''fedcba9876543210fedcba9876543210fedcba9876543210fedcba9876543210'',
     hv_DataHex = lit ''000102fffefd'',
     hv_ExpectedHex = lit ''4e5b5f87793ae112c40262b1bcbdbf058f53af55e4d5f51c7277d289e7a7d06d''\<rparr>"

definition cbc_answer1 :: CBCVector where
  "cbc_answer1 =
    \<lparr>cv_Name = ''AES-256-CBC, short plaintext'',
     cv_KeyHex = lit ''0000000000000000000000000000000000000000000000000000000000000000'',
     cv_IVHex = lit ''11111111111111111111111111111111'',
     cv_PlaintextHex = lit ''68656c6c6f'',
     cv_ExpectedHex = lit ''11111111111111111111111111111111de7609295c6f95e6796b12f25cfa8550''\<rparr>"

definition cbc_answer2 :: CBCVector where
  "cbc_answer2 =
    \<lparr>cv_Name = ''AES-256-CBC, exact-block plaintext'',
     cv_KeyHex = lit ''0000000000000000000000000000000000000000000000000000000000000000'',
     cv_IVHex = lit ''22222222222222222222222222222222'',
     cv_PlaintextHex = lit ''30313233343536373839616263646566'',
     cv_ExpectedHex = lit ''2222222222222222222222222222222278f53377b0fdaa51e1fda1afa4bbf3c79ece5a5ddd68b880c2c46049a91cbc4e''\<rparr>"

definition cbc_answer3 :: CBCVector where
  "cbc_answer3 =
    \<lparr>cv_Name = ''AES-256-CBC, longer plaintext'',
     cv_KeyHex = lit ''0123456789abcdef0123456789abcdef0123456789abcdef0123456789abcdef'',
     cv_IVHex = lit ''fedcba9876543210fedcba9876543210'',
     cv_PlaintextHex = lit ''74686520717569636b2062726f776e20666f78206a756d7073206f76657220746865206c617a7920646f67'',
     cv_ExpectedHex = lit ''fedcba9876543210fedcba9876543210955f52e9c049484c36615c5482343377ddbfb3c8816c78a04f806fb543ac649a90463124bbd7a5ac5b4a6f02cf1334dc''\<rparr>"

definition file_vectors :: Vectors where
  "file_vectors = \<lparr>vs_Version = 1, vs_Notes = vectors_notes,
     vs_AEAD = [aead_answer1, aead_answer2, aead_answer3, aead_answer4, aead_answer5],
     vs_HMAC = [hmac_answer1, hmac_answer2, hmac_answer3, hmac_answer4],
     vs_CBC = [cbc_answer1, cbc_answer2, cbc_answer3]\<rparr>"

subsection \<open>The vectors are what the generator computes\<close>

lemma alphabet_values:
  "hextable = [48, 49, 50, 51, 52, 53, 54, 55, 56, 57, 97, 98, 99, 100, 101, 102]"
  "url_alphabet =
    [65, 66, 67, 68, 69, 70, 71, 72, 73, 74, 75, 76, 77, 78, 79, 80,
     81, 82, 83, 84, 85, 86, 87, 88, 89, 90, 97, 98, 99, 100, 101, 102,
     103, 104, 105, 106, 107, 108, 109, 110, 111, 112, 113, 114, 115, 116, 117, 118,
     119, 120, 121, 122, 48, 49, 50, 51, 52, 53, 54, 55, 56, 57, 45, 95]"
  by code_simp+

lemma repeatHex_numeral: "repeatHex s (numeral n) = s @ repeatHex s (pred_numeral n)"
  by (simp add: numeral_eq_Suc)

lemmas text_eval = lit_def alphabet_values fromHexChar_def RawURLEncoding_EncodeToString_def b64_encode_def

lemma spelled:
  "repeatHex (lit ''00'') 32 = lit ''0000000000000000000000000000000000000000000000000000000000000000''"
  "repeatHex (lit ''00'') 12 = lit ''000000000000000000000000''"
  "hex_EncodeToString (lit ''hello, world'') = lit ''68656c6c6f2c20776f726c64''"
  "hex_EncodeToString (lit ''user:42'') = lit ''757365723a3432''"
  "hex_EncodeToString (lit ''context-binding-string'') = lit ''636f6e746578742d62696e64696e672d737472696e67''"
  "hex_EncodeToString (lit ''the quick brown fox jumps over the lazy dog 0123456789'') = lit ''74686520717569636b2062726f776e20666f78206a756d7073206f76657220746865206c617a7920646f672030313233343536373839''"
  "repeatHex (lit ''aa'') 32 = lit ''aaaaaaaaaaaaaaaaaaaaaaaaaaaaaaaaaaaaaaaaaaaaaaaaaaaaaaaaaaaaaaaa''"
  "hex_EncodeToString (lit ''hello'') = lit ''68656c6c6f''"
  "hex_EncodeToString (lit ''the quick brown fox jumps over the lazy dog'') = lit ''74686520717569636b2062726f776e20666f78206a756d7073206f76657220746865206c617a7920646f67''"
  "repeatHex (lit ''11'') 16 = lit ''11111111111111111111111111111111''"
  "repeatHex (lit ''22'') 16 = lit ''22222222222222222222222222222222''"
  "hex_EncodeToString (lit ''0123456789abcdef'') = lit ''30313233343536373839616263646566''"
  by (simp_all add: text_eval repeatHex_numeral)

lemma decoded1: "hex_decoded_prefix (lit ''0000000000000000000000000000000000000000000000000000000000000000'') = zero_key"
  by code_simp

lemma decoded2: "hex_decoded_prefix (lit ''000000000000000000000000'') = [0, 0, 0, 0, 0, 0, 0, 0, 0, 0, 0, 0]"
  by code_simp

lemma decoded3: "hex_DecodeString (lit ''68656c6c6f2c20776f726c64'') = Some [0x68, 0x65, 0x6c, 0x6c, 0x6f, 0x2c, 0x20, 0x77, 0x6f, 0x72, 0x6c, 0x64]"
  by code_simp

lemma decoded4: "hex_DecodeString (lit ''757365723a3432'') = Some [0x75, 0x73, 0x65, 0x72, 0x3a, 0x34, 0x32]"
  by code_simp

lemma decoded5: "hex_decoded_prefix (lit ''000102030405060708090a0b0c0d0e0f101112131415161718191a1b1c1d1e1f'') = counting_key"
  by code_simp

lemma decoded6: "hex_decoded_prefix (lit ''111213141516171819101a1b'') = [0x11, 0x12, 0x13, 0x14, 0x15, 0x16, 0x17, 0x18, 0x19, 0x10, 0x1a, 0x1b]"
  by code_simp

lemma decoded7: "hex_DecodeString (lit ''636f6e746578742d62696e64696e672d737472696e67'') = Some [0x63, 0x6f, 0x6e, 0x74, 0x65, 0x78, 0x74, 0x2d, 0x62, 0x69, 0x6e, 0x64, 0x69, 0x6e, 0x67, 0x2d, 0x73, 0x74, 0x72, 0x69, 0x6e, 0x67]"
  by code_simp

lemma decoded8: "hex_DecodeString (lit ''74686520717569636b2062726f776e20666f78206a756d7073206f76657220746865206c617a7920646f672030313233343536373839'') = Some [0x74, 0x68, 0x65, 0x20, 0x71, 0x75, 0x69, 0x63, 0x6b, 0x20, 0x62, 0x72, 0x6f, 0x77, 0x6e, 0x20, 0x66, 0x6f, 0x78, 0x20, 0x6a, 0x75, 0x6d, 0x70, 0x73, 0x20, 0x6f, 0x76, 0x65, 0x72, 0x20, 0x74, 0x68, 0x65, 0x20, 0x6c, 0x61, 0x7a, 0x79, 0x20, 0x64, 0x6f, 0x67, 0x20, 0x30, 0x31, 0x32, 0x33, 0x34, 0x35, 0x36, 0x37, 0x38, 0x39]"
  by code_simp

lemma decoded9: "hex_decoded_prefix (lit ''0123456789abcdef0123456789abcdef0123456789abcdef0123456789abcdef'') = digits_key"
  by code_simp

lemma decoded10: "hex_decoded_prefix (lit ''fedcba9876543210fedcba98'') = [0xfe, 0xdc, 0xba, 0x98, 0x76, 0x54, 0x32, 0x10, 0xfe, 0xdc, 0xba, 0x98]"
  by code_simp

lemma decoded11: "hex_DecodeString (lit ''000102030405060708090a0b0c0d0e0ffefcfdf8f0e0d0c0b0a0908070605040'') = Some [0, 1, 0x02, 0x03, 0x04, 0x05, 0x06, 0x07, 0x08, 0x09, 0x0a, 0x0b, 0x0c, 0x0d, 0x0e, 0x0f, 0xfe, 0xfc, 0xfd, 0xf8, 0xf0, 0xe0, 0xd0, 0xc0, 0xb0, 0xa0, 0x90, 0x80, 0x70, 0x60, 0x50, 0x40]"
  by code_simp

lemma decoded12: "hex_decoded_prefix (lit ''aaaaaaaaaaaaaaaaaaaaaaaaaaaaaaaaaaaaaaaaaaaaaaaaaaaaaaaaaaaaaaaa'') = aa_key"
  by code_simp

lemma decoded13: "hex_DecodeString (lit ''68656c6c6f'') = Some [0x68, 0x65, 0x6c, 0x6c, 0x6f]"
  by code_simp

lemma decoded14: "hex_DecodeString (lit ''74686520717569636b2062726f776e20666f78206a756d7073206f76657220746865206c617a7920646f67'') = Some [0x74, 0x68, 0x65, 0x20, 0x71, 0x75, 0x69, 0x63, 0x6b, 0x20, 0x62, 0x72, 0x6f, 0x77, 0x6e, 0x20, 0x66, 0x6f, 0x78, 0x20, 0x6a, 0x75, 0x6d, 0x70, 0x73, 0x20, 0x6f, 0x76, 0x65, 0x72, 0x20, 0x74, 0x68, 0x65, 0x20, 0x6c, 0x61, 0x7a, 0x79, 0x20, 0x64, 0x6f, 0x67]"
  by code_simp

lemma decoded15: "hex_decoded_prefix (lit ''fedcba9876543210fedcba9876543210fedcba9876543210fedcba9876543210'') = down_key"
  by code_simp

lemma decoded16: "hex_DecodeString (lit ''000102fffefd'') = Some [0, 1, 0x02, 0xff, 0xfe, 0xfd]"
  by code_simp

lemma decoded17: "hex_decoded_prefix (lit ''11111111111111111111111111111111'') = [0x11, 0x11, 0x11, 0x11, 0x11, 0x11, 0x11, 0x11, 0x11, 0x11, 0x11, 0x11, 0x11, 0x11, 0x11, 0x11]"
  by code_simp

lemma decoded18: "hex_decoded_prefix (lit ''22222222222222222222222222222222'') = [0x22, 0x22, 0x22, 0x22, 0x22, 0x22, 0x22, 0x22, 0x22, 0x22, 0x22, 0x22, 0x22, 0x22, 0x22, 0x22]"
  by code_simp

lemma decoded19: "hex_DecodeString (lit ''30313233343536373839616263646566'') = Some [0x30, 0x31, 0x32, 0x33, 0x34, 0x35, 0x36, 0x37, 0x38, 0x39, 0x61, 0x62, 0x63, 0x64, 0x65, 0x66]"
  by code_simp

lemma decoded20: "hex_decoded_prefix (lit ''fedcba9876543210fedcba9876543210'') = [0xfe, 0xdc, 0xba, 0x98, 0x76, 0x54, 0x32, 0x10, 0xfe, 0xdc, 0xba, 0x98, 0x76, 0x54, 0x32, 0x10]"
  by code_simp

lemma aead1_text: "RawURLEncoding_EncodeToString [1, 0, 0, 0, 0, 0, 0, 0, 0, 0, 0, 0, 0, 0x53, 0x0f, 0x8a,
     0xfb, 0xc7, 0x45, 0x36, 0xb9, 0xa9, 0x63, 0xb4, 0xf1, 0xc4, 0xcb, 0x73, 0x8b] =
     lit ''AQAAAAAAAAAAAAAAAFMPivvHRTa5qWO08cTLc4s''"
  by (simp add: text_eval)

lemma aead2_text: "RawURLEncoding_EncodeToString [1, 0, 0, 0, 0, 0, 0, 0, 0, 0, 0, 0, 0, 0xa6, 0xc2, 0x2c,
     0x51, 0x22, 0x4c, 0x4b, 0x19, 0x68, 0x3c, 0xa9, 0xb7, 0x25, 0x72, 0xbe, 0x6f, 0x43, 0xfc, 0x03,
     0x4b, 0xbc, 0xb1, 0xdf, 0xf7, 0x51, 0x1a, 0x43, 0xa2] =
     lit ''AQAAAAAAAAAAAAAAAKbCLFEiTEsZaDyptyVyvm9D_ANLvLHf91EaQ6I''"
  by (simp add: text_eval)

lemma aead3_text: "RawURLEncoding_EncodeToString [1, 0, 0, 0, 0, 0, 0, 0, 0, 0, 0, 0, 0, 0xa6, 0xc2, 0x2c,
     0x51, 0x22, 0x4c, 0x4b, 0x19, 0x68, 0x3c, 0xa9, 0xb7, 0x58, 0xb5, 0x8b, 0xe5, 0xaf, 0x52, 0xc5,
     0x20, 0x1f, 0x38, 0xc4, 0xcf, 0xdc, 0x62, 0x40, 0x9d] =
     lit ''AQAAAAAAAAAAAAAAAKbCLFEiTEsZaDypt1i1i-WvUsUgHzjEz9xiQJ0''"
  by (simp add: text_eval)

lemma aead4_text: "RawURLEncoding_EncodeToString [1, 0x11, 0x12, 0x13, 0x14, 0x15, 0x16, 0x17, 0x18, 0x19, 0x10, 0x1a, 0x1b, 0x4d, 0xb3, 0x10,
     0xba, 0xaf, 0xb6, 0x03, 0x19, 0x75, 0x32, 0xd1, 0x9c, 0x1f, 0x76, 0xd0, 0x0f, 0x3d, 0x47, 0x91,
     0xb2, 0xfe, 0xd0, 0x5d, 0x41, 0x8b, 0x21, 0x89, 0x9c, 0x0c, 0x21, 0xa1, 0x0d, 0x77, 0xe3, 0xe3,
     0xa4, 0x36, 0x1d, 0xc6, 0xd3, 0xaa, 0x69, 0xfd, 0xa3, 0x49, 0x70, 0x2e, 0x60, 0x85, 0x12, 0xd1,
     0x54, 0xe0, 0x27, 0x4b, 0x2f, 0x29, 0x5e, 0x1f, 0x68, 0x87, 0x6f, 0xf2, 0x63, 0x8f, 0xa4, 0x63,
     0x69, 0x8b, 0xf2] =
     lit ''ARESExQVFhcYGRAaG02zELqvtgMZdTLRnB920A89R5Gy_tBdQYshiZwMIaENd-PjpDYdxtOqaf2jSXAuYIUS0VTgJ0svKV4faIdv8mOPpGNpi_I''"
  by (simp add: text_eval)

lemma aead5_text: "RawURLEncoding_EncodeToString [1, 0xfe, 0xdc, 0xba, 0x98, 0x76, 0x54, 0x32, 0x10, 0xfe, 0xdc, 0xba, 0x98, 0xd2, 0xae, 0x49,
     0xa1, 0x3b, 0x52, 0x65, 0x43, 0x45, 0x9f, 0x2e, 0x1d, 0x69, 0x4f, 0xc3, 0xf2, 0x6b, 0xfe, 0xf8,
     0x6e, 0xe2, 0x9a, 0x46, 0x35, 0xcc, 0x6d, 0x97, 0x86, 0x22, 0xba, 0x9c, 0x27, 0xb7, 0xf4, 0x8f,
     0x0f, 0xb3, 0x1e, 0x4e, 0x66, 0xbe, 0x83, 0x9a, 0x97, 0x08, 0x15, 0x7d, 0x90] =
     lit ''Af7cuph2VDIQ_ty6mNKuSaE7UmVDRZ8uHWlPw_Jr_vhu4ppGNcxtl4Yiupwnt_SPD7MeTma-g5qXCBV9kA''"
  by (simp add: text_eval)

lemma hmac1_text: "hex_EncodeToString [0x63, 0x21, 0x0a, 0xee, 0x26, 0x57, 0x62, 0x63, 0x4f, 0xa3, 0xdb, 0x8c, 0x1a, 0xa9, 0x20, 0xdc,
     0xd0, 0x7d, 0x31, 0xec, 0x29, 0x73, 0x09, 0x58, 0x03, 0x94, 0xa2, 0x14, 0x12, 0xf8, 0x33, 0x72] =
     lit ''63210aee265762634fa3db8c1aa920dcd07d31ec297309580394a21412f83372''"
  by (simp add: text_eval)

lemma hmac2_text: "hex_EncodeToString [0xb6, 0xe8, 0x13, 0x6a, 0x04, 0x0e, 0x71, 0x26, 0x6e, 0x36, 0x0e, 0x23, 0xc7, 0xd4, 0x8e, 0xac,
     0x29, 0x36, 0x2d, 0x4c, 0xff, 0x10, 0x22, 0x07, 0x56, 0x5d, 0x5b, 0x30, 0x72, 0xf1, 0x45, 0x3b] =
     lit ''b6e8136a040e71266e360e23c7d48eac29362d4cff102207565d5b3072f1453b''"
  by (simp add: text_eval)

lemma hmac3_text: "hex_EncodeToString [0x57, 0xd0, 0x75, 0xd6, 0x61, 0xdf, 0xc6, 0x2b, 0x30, 0x75, 0xc1, 0xec, 0xd0, 0xe8, 0xd9, 0x5a,
     0x47, 0xc5, 0x52, 0xd5, 0x2b, 0xa1, 0x4b, 0x72, 0xe8, 0x14, 0x05, 0x88, 0xdc, 0x41, 0x67, 0x10] =
     lit ''57d075d661dfc62b3075c1ecd0e8d95a47c552d52ba14b72e8140588dc416710''"
  by (simp add: text_eval)

lemma hmac4_text: "hex_EncodeToString [0x4e, 0x5b, 0x5f, 0x87, 0x79, 0x3a, 0xe1, 0x12, 0xc4, 0x02, 0x62, 0xb1, 0xbc, 0xbd, 0xbf, 0x05,
     0x8f, 0x53, 0xaf, 0x55, 0xe4, 0xd5, 0xf5, 0x1c, 0x72, 0x77, 0xd2, 0x89, 0xe7, 0xa7, 0xd0, 0x6d] =
     lit ''4e5b5f87793ae112c40262b1bcbdbf058f53af55e4d5f51c7277d289e7a7d06d''"
  by (simp add: text_eval)

lemma cbc1_text: "hex_EncodeToString [0x11, 0x11, 0x11, 0x11, 0x11, 0x11, 0x11, 0x11, 0x11, 0x11, 0x11, 0x11, 0x11, 0x11, 0x11, 0x11,
     0xde, 0x76, 0x09, 0x29, 0x5c, 0x6f, 0x95, 0xe6, 0x79, 0x6b, 0x12, 0xf2, 0x5c, 0xfa, 0x85, 0x50] =
     lit ''11111111111111111111111111111111de7609295c6f95e6796b12f25cfa8550''"
  by (simp add: text_eval)

lemma cbc2_text: "hex_EncodeToString [0x22, 0x22, 0x22, 0x22, 0x22, 0x22, 0x22, 0x22, 0x22, 0x22, 0x22, 0x22, 0x22, 0x22, 0x22, 0x22,
     0x78, 0xf5, 0x33, 0x77, 0xb0, 0xfd, 0xaa, 0x51, 0xe1, 0xfd, 0xa1, 0xaf, 0xa4, 0xbb, 0xf3, 0xc7,
     0x9e, 0xce, 0x5a, 0x5d, 0xdd, 0x68, 0xb8, 0x80, 0xc2, 0xc4, 0x60, 0x49, 0xa9, 0x1c, 0xbc, 0x4e] =
     lit ''2222222222222222222222222222222278f53377b0fdaa51e1fda1afa4bbf3c79ece5a5ddd68b880c2c46049a91cbc4e''"
  by (simp add: text_eval)

lemma cbc3_text: "hex_EncodeToString [0xfe, 0xdc, 0xba, 0x98, 0x76, 0x54, 0x32, 0x10, 0xfe, 0xdc, 0xba, 0x98, 0x76, 0x54, 0x32, 0x10,
     0x95, 0x5f, 0x52, 0xe9, 0xc0, 0x49, 0x48, 0x4c, 0x36, 0x61, 0x5c, 0x54, 0x82, 0x34, 0x33, 0x77,
     0xdd, 0xbf, 0xb3, 0xc8, 0x81, 0x6c, 0x78, 0xa0, 0x4f, 0x80, 0x6f, 0xb5, 0x43, 0xac, 0x64, 0x9a,
     0x90, 0x46, 0x31, 0x24, 0xbb, 0xd7, 0xa5, 0xac, 0x5b, 0x4a, 0x6f, 0x02, 0xcf, 0x13, 0x34, 0xdc] =
     lit ''fedcba9876543210fedcba9876543210955f52e9c049484c36615c5482343377ddbfb3c8816c78a04f806fb543ac649a90463124bbd7a5ac5b4a6f02cf1334dc''"
  by (simp add: text_eval)

lemma padded:
  "pkcs7Pad [0x68, 0x65, 0x6c, 0x6c, 0x6f] 16 =
     Ok [0x68, 0x65, 0x6c, 0x6c, 0x6f, 0x0b, 0x0b, 0x0b, 0x0b, 0x0b, 0x0b, 0x0b, 0x0b, 0x0b, 0x0b, 0x0b]"
  "pkcs7Pad [0x30, 0x31, 0x32, 0x33, 0x34, 0x35, 0x36, 0x37, 0x38, 0x39, 0x61, 0x62, 0x63, 0x64, 0x65, 0x66] 16 =
     Ok [0x30, 0x31, 0x32, 0x33, 0x34, 0x35, 0x36, 0x37, 0x38, 0x39, 0x61, 0x62, 0x63, 0x64, 0x65, 0x66,
     0x10, 0x10, 0x10, 0x10, 0x10, 0x10, 0x10, 0x10, 0x10, 0x10, 0x10, 0x10, 0x10, 0x10, 0x10, 0x10]"
  "pkcs7Pad [0x74, 0x68, 0x65, 0x20, 0x71, 0x75, 0x69, 0x63, 0x6b, 0x20, 0x62, 0x72, 0x6f, 0x77, 0x6e, 0x20, 0x66, 0x6f, 0x78, 0x20, 0x6a, 0x75, 0x6d, 0x70, 0x73, 0x20, 0x6f, 0x76, 0x65, 0x72, 0x20, 0x74, 0x68, 0x65, 0x20, 0x6c, 0x61, 0x7a, 0x79, 0x20, 0x64, 0x6f, 0x67] 16 =
     Ok [0x74, 0x68, 0x65, 0x20, 0x71, 0x75, 0x69, 0x63, 0x6b, 0x20, 0x62, 0x72, 0x6f, 0x77, 0x6e, 0x20,
     0x66, 0x6f, 0x78, 0x20, 0x6a, 0x75, 0x6d, 0x70, 0x73, 0x20, 0x6f, 0x76, 0x65, 0x72, 0x20, 0x74,
     0x68, 0x65, 0x20, 0x6c, 0x61, 0x7a, 0x79, 0x20, 0x64, 0x6f, 0x67, 0x05, 0x05, 0x05, 0x05, 0x05]"
  by code_simp+

lemma lit_Nil [simp]: "lit s = [] \<longleftrightarrow> s = []"
  by (simp add: lit_def)

lemma hex_DecodeString_Nil: "hex_DecodeString [] = Some []" "hex_decoded_prefix [] = []"
  by simp_all

lemmas answer_texts = hex_DecodeString_Nil spelled padded decoded1 decoded2 decoded3 decoded4 decoded5 decoded6 decoded7 decoded8 decoded9 decoded10 decoded11 decoded12 decoded13 decoded14 decoded15 decoded16 decoded17 decoded18 decoded19 decoded20
  aead1_text aead2_text aead3_text aead4_text aead5_text hmac1_text hmac2_text hmac3_text hmac4_text cbc1_text cbc2_text cbc3_text

lemmas text_functions = hex_EncodeToString.simps hex_DecodeString.simps hex_decoded_prefix.simps repeatHex.simps

lemma aead1: "aead_vector (''all-zero key, all-zero nonce, empty plaintext, no AAD'', repeatHex (lit ''00'') 32, repeatHex (lit ''00'') 12, [], []) = Ok aead_answer1"
  by (simp del: text_functions add: aead_vector_def answer_texts aes_NewCipher_def aes_key_size_def cipher_NewGCM_def gcm_aead_def seal1
      VersionAEADv1_def aead_answer1_def)

lemma aead2: "aead_vector (''all-zero key, all-zero nonce, ASCII plaintext, no AAD'', repeatHex (lit ''00'') 32, repeatHex (lit ''00'') 12, [], hex_EncodeToString (lit ''hello, world'')) = Ok aead_answer2"
  by (simp del: text_functions add: aead_vector_def answer_texts aes_NewCipher_def aes_key_size_def cipher_NewGCM_def gcm_aead_def seal2
      VersionAEADv1_def aead_answer2_def)

lemma aead3: "aead_vector (''all-zero key, all-zero nonce, ASCII plaintext, ASCII AAD'', repeatHex (lit ''00'') 32, repeatHex (lit ''00'') 12, hex_EncodeToString (lit ''user:42''), hex_EncodeToString (lit ''hello, world'')) = Ok aead_answer3"
  by (simp del: text_functions add: aead_vector_def answer_texts aes_NewCipher_def aes_key_size_def cipher_NewGCM_def gcm_aead_def seal3
      VersionAEADv1_def aead_answer3_def)

lemma aead4: "aead_vector (''patterned key, patterned nonce, longer plaintext'', lit ''000102030405060708090a0b0c0d0e0f101112131415161718191a1b1c1d1e1f'', lit ''111213141516171819101a1b'', hex_EncodeToString (lit ''context-binding-string''), hex_EncodeToString (lit ''the quick brown fox jumps over the lazy dog 0123456789'')) = Ok aead_answer4"
  by (simp del: text_functions add: aead_vector_def answer_texts aes_NewCipher_def aes_key_size_def cipher_NewGCM_def gcm_aead_def seal4
      VersionAEADv1_def aead_answer4_def)

lemma aead5: "aead_vector (''binary plaintext, no AAD'', lit ''0123456789abcdef0123456789abcdef0123456789abcdef0123456789abcdef'', lit ''fedcba9876543210fedcba98'', [], lit ''000102030405060708090a0b0c0d0e0ffefcfdf8f0e0d0c0b0a0908070605040'') = Ok aead_answer5"
  by (simp del: text_functions add: aead_vector_def answer_texts aes_NewCipher_def aes_key_size_def cipher_NewGCM_def gcm_aead_def seal5
      VersionAEADv1_def aead_answer5_def)

lemma hmac_answer1: "hmac_vector (''empty data'', repeatHex (lit ''aa'') 32, []) = Ok hmac_answer1"
  by (simp del: text_functions add: hmac_vector_def answer_texts hmac1 hmac_answer1_def)

lemma hmac_answer2: "hmac_vector (''short ASCII data'', repeatHex (lit ''aa'') 32, hex_EncodeToString (lit ''hello'')) = Ok hmac_answer2"
  by (simp del: text_functions add: hmac_vector_def answer_texts hmac2 hmac_answer2_def)

lemma hmac_answer3: "hmac_vector (''long ASCII data'', lit ''0123456789abcdef0123456789abcdef0123456789abcdef0123456789abcdef'', hex_EncodeToString (lit ''the quick brown fox jumps over the lazy dog'')) = Ok hmac_answer3"
  by (simp del: text_functions add: hmac_vector_def answer_texts hmac3 hmac_answer3_def)

lemma hmac_answer4: "hmac_vector (''binary data'', lit ''fedcba9876543210fedcba9876543210fedcba9876543210fedcba9876543210'', lit ''000102fffefd'') = Ok hmac_answer4"
  by (simp del: text_functions add: hmac_vector_def answer_texts hmac4 hmac_answer4_def)

lemma cbc_answer1: "cbc_vector (''AES-256-CBC, short plaintext'', repeatHex (lit ''00'') 32, repeatHex (lit ''11'') 16, hex_EncodeToString (lit ''hello'')) = Ok cbc_answer1"
  by (simp del: text_functions add: cbc_vector_def answer_texts aes_NewCipher_def aes_key_size_def aes_BlockSize_def
      CBCEncrypter_CryptBlocks_def cbc1 cbc_answer1_def)

lemma cbc_answer2: "cbc_vector (''AES-256-CBC, exact-block plaintext'', repeatHex (lit ''00'') 32, repeatHex (lit ''22'') 16, hex_EncodeToString (lit ''0123456789abcdef'')) = Ok cbc_answer2"
  by (simp del: text_functions add: cbc_vector_def answer_texts aes_NewCipher_def aes_key_size_def aes_BlockSize_def
      CBCEncrypter_CryptBlocks_def cbc2 cbc_answer2_def)

lemma cbc_answer3: "cbc_vector (''AES-256-CBC, longer plaintext'', lit ''0123456789abcdef0123456789abcdef0123456789abcdef0123456789abcdef'', lit ''fedcba9876543210fedcba9876543210'', hex_EncodeToString (lit ''the quick brown fox jumps over the lazy dog'')) = Ok cbc_answer3"
  by (simp del: text_functions add: cbc_vector_def answer_texts aes_NewCipher_def aes_key_size_def aes_BlockSize_def
      CBCEncrypter_CryptBlocks_def cbc3 cbc_answer3_def)

lemma aeadVectors_answers: "aeadVectors = Ok (vs_AEAD file_vectors)"
  by (simp del: text_functions add: aeadVectors_def aead_specs_def aead1 aead2 aead3 aead4 aead5 file_vectors_def)

lemma hmacVectors_answers: "hmacVectors = Ok (vs_HMAC file_vectors)"
  by (simp del: text_functions add: hmacVectors_def hmac_specs_def hmac_answer1 hmac_answer2 hmac_answer3 hmac_answer4 file_vectors_def)

lemma cbcVectors_answers: "cbcVectors = Ok (vs_CBC file_vectors)"
  by (simp del: text_functions add: cbcVectors_def cbc_specs_def cbc_answer1 cbc_answer2 cbc_answer3 file_vectors_def)

subsection \<open>The text of the file\<close>

definition aead_text1 :: string where
  \<open>aead_text1 = lines
    [''{'',
     ''      "name": "all-zero key, all-zero nonce, empty plaintext, no AAD",'',
     ''      "key_hex": "0000000000000000000000000000000000000000000000000000000000000000",'',
     ''      "nonce_hex": "000000000000000000000000",'',
     ''      "aad_hex": "",'',
     ''      "plaintext_hex": "",'',
     ''      "expected_b64url": "AQAAAAAAAAAAAAAAAFMPivvHRTa5qWO08cTLc4s"'',
     ''    }'']\<close>

definition aead_text2 :: string where
  \<open>aead_text2 = lines
    [''{'',
     ''      "name": "all-zero key, all-zero nonce, ASCII plaintext, no AAD",'',
     ''      "key_hex": "0000000000000000000000000000000000000000000000000000000000000000",'',
     ''      "nonce_hex": "000000000000000000000000",'',
     ''      "aad_hex": "",'',
     ''      "plaintext_hex": "68656c6c6f2c20776f726c64",'',
     ''      "expected_b64url": "AQAAAAAAAAAAAAAAAKbCLFEiTEsZaDyptyVyvm9D_ANLvLHf91EaQ6I"'',
     ''    }'']\<close>

definition aead_text3 :: string where
  \<open>aead_text3 = lines
    [''{'',
     ''      "name": "all-zero key, all-zero nonce, ASCII plaintext, ASCII AAD",'',
     ''      "key_hex": "0000000000000000000000000000000000000000000000000000000000000000",'',
     ''      "nonce_hex": "000000000000000000000000",'',
     ''      "aad_hex": "757365723a3432",'',
     ''      "plaintext_hex": "68656c6c6f2c20776f726c64",'',
     ''      "expected_b64url": "AQAAAAAAAAAAAAAAAKbCLFEiTEsZaDypt1i1i-WvUsUgHzjEz9xiQJ0"'',
     ''    }'']\<close>

definition aead_text4 :: string where
  \<open>aead_text4 = lines
    [''{'',
     ''      "name": "patterned key, patterned nonce, longer plaintext",'',
     ''      "key_hex": "000102030405060708090a0b0c0d0e0f101112131415161718191a1b1c1d1e1f",'',
     ''      "nonce_hex": "111213141516171819101a1b",'',
     ''      "aad_hex": "636f6e746578742d62696e64696e672d737472696e67",'',
     ''      "plaintext_hex": "74686520717569636b2062726f776e20666f78206a756d7073206f76657220746865206c617a7920646f672030313233343536373839",'',
     ''      "expected_b64url": "ARESExQVFhcYGRAaG02zELqvtgMZdTLRnB920A89R5Gy_tBdQYshiZwMIaENd-PjpDYdxtOqaf2jSXAuYIUS0VTgJ0svKV4faIdv8mOPpGNpi_I"'',
     ''    }'']\<close>

definition aead_text5 :: string where
  \<open>aead_text5 = lines
    [''{'',
     ''      "name": "binary plaintext, no AAD",'',
     ''      "key_hex": "0123456789abcdef0123456789abcdef0123456789abcdef0123456789abcdef",'',
     ''      "nonce_hex": "fedcba9876543210fedcba98",'',
     ''      "aad_hex": "",'',
     ''      "plaintext_hex": "000102030405060708090a0b0c0d0e0ffefcfdf8f0e0d0c0b0a0908070605040",'',
     ''      "expected_b64url": "Af7cuph2VDIQ_ty6mNKuSaE7UmVDRZ8uHWlPw_Jr_vhu4ppGNcxtl4Yiupwnt_SPD7MeTma-g5qXCBV9kA"'',
     ''    }'']\<close>

definition hmac_text1 :: string where
  \<open>hmac_text1 = lines
    [''{'',
     ''      "name": "empty data",'',
     ''      "key_hex": "aaaaaaaaaaaaaaaaaaaaaaaaaaaaaaaaaaaaaaaaaaaaaaaaaaaaaaaaaaaaaaaa",'',
     ''      "data_hex": "",'',
     ''      "expected_hex": "63210aee265762634fa3db8c1aa920dcd07d31ec297309580394a21412f83372"'',
     ''    }'']\<close>

definition hmac_text2 :: string where
  \<open>hmac_text2 = lines
    [''{'',
     ''      "name": "short ASCII data",'',
     ''      "key_hex": "aaaaaaaaaaaaaaaaaaaaaaaaaaaaaaaaaaaaaaaaaaaaaaaaaaaaaaaaaaaaaaaa",'',
     ''      "data_hex": "68656c6c6f",'',
     ''      "expected_hex": "b6e8136a040e71266e360e23c7d48eac29362d4cff102207565d5b3072f1453b"'',
     ''    }'']\<close>

definition hmac_text3 :: string where
  \<open>hmac_text3 = lines
    [''{'',
     ''      "name": "long ASCII data",'',
     ''      "key_hex": "0123456789abcdef0123456789abcdef0123456789abcdef0123456789abcdef",'',
     ''      "data_hex": "74686520717569636b2062726f776e20666f78206a756d7073206f76657220746865206c617a7920646f67",'',
     ''      "expected_hex": "57d075d661dfc62b3075c1ecd0e8d95a47c552d52ba14b72e8140588dc416710"'',
     ''    }'']\<close>

definition hmac_text4 :: string where
  \<open>hmac_text4 = lines
    [''{'',
     ''      "name": "binary data",'',
     ''      "key_hex": "fedcba9876543210fedcba9876543210fedcba9876543210fedcba9876543210",'',
     ''      "data_hex": "000102fffefd",'',
     ''      "expected_hex": "4e5b5f87793ae112c40262b1bcbdbf058f53af55e4d5f51c7277d289e7a7d06d"'',
     ''    }'']\<close>

definition cbc_text1 :: string where
  \<open>cbc_text1 = lines
    [''{'',
     ''      "name": "AES-256-CBC, short plaintext",'',
     ''      "key_hex": "0000000000000000000000000000000000000000000000000000000000000000",'',
     ''      "iv_hex": "11111111111111111111111111111111",'',
     ''      "plaintext_hex": "68656c6c6f",'',
     ''      "expected_hex": "11111111111111111111111111111111de7609295c6f95e6796b12f25cfa8550"'',
     ''    }'']\<close>

definition cbc_text2 :: string where
  \<open>cbc_text2 = lines
    [''{'',
     ''      "name": "AES-256-CBC, exact-block plaintext",'',
     ''      "key_hex": "0000000000000000000000000000000000000000000000000000000000000000",'',
     ''      "iv_hex": "22222222222222222222222222222222",'',
     ''      "plaintext_hex": "30313233343536373839616263646566",'',
     ''      "expected_hex": "2222222222222222222222222222222278f53377b0fdaa51e1fda1afa4bbf3c79ece5a5ddd68b880c2c46049a91cbc4e"'',
     ''    }'']\<close>

definition cbc_text3 :: string where
  \<open>cbc_text3 = lines
    [''{'',
     ''      "name": "AES-256-CBC, longer plaintext",'',
     ''      "key_hex": "0123456789abcdef0123456789abcdef0123456789abcdef0123456789abcdef",'',
     ''      "iv_hex": "fedcba9876543210fedcba9876543210",'',
     ''      "plaintext_hex": "74686520717569636b2062726f776e20666f78206a756d7073206f76657220746865206c617a7920646f67",'',
     ''      "expected_hex": "fedcba9876543210fedcba9876543210955f52e9c049484c36615c5482343377ddbfb3c8816c78a04f806fb543ac649a90463124bbd7a5ac5b4a6f02cf1334dc"'',
     ''    }'']\<close>

definition vectors_file :: gostring where
  \<open>vectors_file = lit (lines
    [''{'',
     ''  "version": 1,'',
     ''  "notes": "Cross-language test vectors for github.com/ubgo/crypt and @ubgo/crypt. Both Go and TS test suites consume this file. Regenerate with: go run ./cmd/gen-vectors '' @ [CHR 0x5C] @ ''u003e testdata/vectors.json",'',
     ''  "aead": ['',
     ''    '' @ aead_text1 @ '','',
     ''    '' @ aead_text2 @ '','',
     ''    '' @ aead_text3 @ '','',
     ''    '' @ aead_text4 @ '','',
     ''    '' @ aead_text5,
     ''  ],'',
     ''  "hmac": ['',
     ''    '' @ hmac_text1 @ '','',
     ''    '' @ hmac_text2 @ '','',
     ''    '' @ hmac_text3 @ '','',
     ''    '' @ hmac_text4,
     ''  ],'',
     ''  "cbc_legacy": ['',
     ''    '' @ cbc_text1 @ '','',
     ''    '' @ cbc_text2 @ '','',
     ''    '' @ cbc_text3,
     ''  ]'',
     ''}'',
     ''''])\<close>

lemma lit_append: "lit (s @ t) = lit s @ lit t"
  by (simp add: lit_def)

lemma lit_Cons: "lit (c # s) = of_char c # lit s" "lit [] = []"
  by (simp_all add: lit_def)

lemma version_text: "FormatInt 1 = [49]"
  by code_simp

lemma fresh_line_values: "fresh_line 0 = [10]" "fresh_line 1 = [10, 32, 32]" "fresh_line (Suc 0) = [10, 32, 32]"
  "fresh_line 2 = [10, 32, 32, 32, 32]" "fresh_line 3 = [10, 32, 32, 32, 32, 32, 32]"
  by code_simp+

lemma safe_list: "list_all html_safe
    [32, 33, 35, 36, 37, 39, 40, 41, 42, 43, 44, 45, 46, 47, 48, 49, 50, 51, 52, 53,
     54, 55, 56, 57, 58, 59, 61, 63, 64, 65, 66, 67, 68, 69, 70, 71, 72, 73, 74, 75,
     76, 77, 78, 79, 80, 81, 82, 83, 84, 85, 86, 87, 88, 89, 90, 91, 93, 94, 95, 96,
     97, 98, 99, 100, 101, 102, 103, 104, 105, 106, 107, 108, 109, 110, 111, 112, 113, 114, 115, 116,
     117, 118, 119, 120, 121, 122, 123, 124, 125, 126, 127]"
  by code_simp

lemmas safe_bytes = safe_list [unfolded list.pred_inject simp_thms]

lemma quote_plain: "html_safe b \<Longrightarrow> quote_body (b # p) = b # quote_body p"
  using quote_body_ascii [of b p] by (simp add: html_safe_def)

lemma quote_greater: "quote_body (62 # p) = [92, 117, 48, 48, 51, 101] @ quote_body p"
proof -
  have "escape 62 = [92, 117, 48, 48, 51, 101]" by code_simp
  then show ?thesis using quote_body_ascii [of 62 p] by (simp add: html_safe_def)
qed

lemmas document_eval = json_fields_def json_quote_def quote_plain quote_greater safe_bytes fresh_line_values lines.simps lit_append lit_Cons

lemma aead_printed1: "indented 2 (AEADVector_json aead_answer1) = lit aead_text1"
  by (simp add: AEADVector_json_def aead_answer1_def aead_text1_def document_eval)

lemma aead_printed2: "indented 2 (AEADVector_json aead_answer2) = lit aead_text2"
  by (simp add: AEADVector_json_def aead_answer2_def aead_text2_def document_eval)

lemma aead_printed3: "indented 2 (AEADVector_json aead_answer3) = lit aead_text3"
  by (simp add: AEADVector_json_def aead_answer3_def aead_text3_def document_eval)

lemma aead_printed4: "indented 2 (AEADVector_json aead_answer4) = lit aead_text4"
  by (simp add: AEADVector_json_def aead_answer4_def aead_text4_def document_eval)

lemma aead_printed5: "indented 2 (AEADVector_json aead_answer5) = lit aead_text5"
  by (simp add: AEADVector_json_def aead_answer5_def aead_text5_def document_eval)

lemma hmac_printed1: "indented 2 (HMACVector_json hmac_answer1) = lit hmac_text1"
  by (simp add: HMACVector_json_def hmac_answer1_def hmac_text1_def document_eval)

lemma hmac_printed2: "indented 2 (HMACVector_json hmac_answer2) = lit hmac_text2"
  by (simp add: HMACVector_json_def hmac_answer2_def hmac_text2_def document_eval)

lemma hmac_printed3: "indented 2 (HMACVector_json hmac_answer3) = lit hmac_text3"
  by (simp add: HMACVector_json_def hmac_answer3_def hmac_text3_def document_eval)

lemma hmac_printed4: "indented 2 (HMACVector_json hmac_answer4) = lit hmac_text4"
  by (simp add: HMACVector_json_def hmac_answer4_def hmac_text4_def document_eval)

lemma cbc_printed1: "indented 2 (CBCVector_json cbc_answer1) = lit cbc_text1"
  by (simp add: CBCVector_json_def cbc_answer1_def cbc_text1_def document_eval)

lemma cbc_printed2: "indented 2 (CBCVector_json cbc_answer2) = lit cbc_text2"
  by (simp add: CBCVector_json_def cbc_answer2_def cbc_text2_def document_eval)

lemma cbc_printed3: "indented 2 (CBCVector_json cbc_answer3) = lit cbc_text3"
  by (simp add: CBCVector_json_def cbc_answer3_def cbc_text3_def document_eval)

lemma file_printed: "Encode_indented (Vectors_json file_vectors) = vectors_file"
  by (simp add: Encode_indented_def Vectors_json_def file_vectors_def vectors_file_def vectors_notes_def document_eval
      version_text numeral_2_eq_2 [symmetric] aead_printed1 aead_printed2 aead_printed3 aead_printed4 aead_printed5 hmac_printed1 hmac_printed2 hmac_printed3 hmac_printed4 cbc_printed1 cbc_printed2 cbc_printed3)

subsection \<open>The package computes them\<close>

lemma aead_vector_sealed:
  assumes "aead_spec_valid spec" and "aead_vector spec = Ok v"
  shows "fst (sealWithNonce (hex_decoded_prefix (av_KeyHex v)) (hex_decoded_prefix (av_PlaintextHex v))
    (hex_decoded_prefix (av_AADHex v)) (Some (hex_decoded_prefix (av_NonceHex v))) rnd) = Ok (av_ExpectedB64URL v)"
proof -
  obtain name keyHex nonceHex aadHex plaintextHex where spec: "spec = (name, keyHex, nonceHex, aadHex, plaintextHex)"
    by (cases spec) auto
  obtain key nonce aad p where h: "hex_DecodeString keyHex = Some key" "length key = 32"
      "hex_DecodeString nonceHex = Some nonce" "length nonce = 12" "hex_DecodeString aadHex = Some aad"
      "hex_DecodeString plaintextHex = Some p"
    using assms(1) by (auto simp: aead_spec_valid_def spec hex_size_def split: option.splits)
  note pre = h(1,3,5,6)[THEN hex_decoded_prefix_valid]
  have "(if aadHex \<noteq> [] then of_option (Msg ''decode aad_hex %q: %v'') (hex_DecodeString aadHex) else Ok []) = Ok aad"
    using h(5) by auto
  with assms(2) h(2,6) obtain ct where "aead_Seal (aes_gcm key) nonce p aad = Ok ct"
      "v = \<lparr>av_Name = name, av_KeyHex = keyHex, av_NonceHex = nonceHex, av_AADHex = aadHex, av_PlaintextHex = plaintextHex,
         av_ExpectedB64URL = RawURLEncoding_EncodeToString (frame VersionAEADv1 nonce ct)\<rparr>"
    by (auto simp: spec aead_vector_def pre Let_def and_then_eq_Ok frame_def)
  then show ?thesis by (simp add: pre sealWithNonce_nonce [OF h(2,4)])
qed

lemma cbc_vector_encrypted:
  assumes "cbc_spec_valid spec" and "cbc_vector spec = Ok v"
  shows "fst (EncryptCBC (hex_decoded_prefix (cv_KeyHex v)) (hex_decoded_prefix (cv_PlaintextHex v))
    \<lparr>rd_data = hex_decoded_prefix (cv_IVHex v), rd_end = EOF\<rparr>) = Ok (cv_ExpectedHex v)"
proof -
  obtain name keyHex ivHex plaintextHex where spec: "spec = (name, keyHex, ivHex, plaintextHex)"
    by (cases spec) auto
  obtain key iv p where h: "hex_DecodeString keyHex = Some key" "length key = 32"
      "hex_DecodeString ivHex = Some iv" "length iv = 16" "hex_DecodeString plaintextHex = Some p"
    using assms(1) by (auto simp: cbc_spec_valid_def spec hex_size_def split: option.splits)
  note pre = h(1,3,5)[THEN hex_decoded_prefix_valid]
  from assms(2) h(2,5) show ?thesis
    by (auto simp: spec cbc_vector_def pre Let_def and_then_eq_Ok or_err_eq_Ok pkcs7Pad_pad EncryptCBC_def validCBCKeyLen_def
        then_do_eq_Ok read_rand_enough h(4) aes_BlockSize_def)
qed

lemma all_aead_sealed: "list_all (\<lambda>v. fst (sealWithNonce (hex_decoded_prefix (av_KeyHex v))
    (hex_decoded_prefix (av_PlaintextHex v)) (hex_decoded_prefix (av_AADHex v)) (Some (hex_decoded_prefix (av_NonceHex v))) rnd) =
    Ok (av_ExpectedB64URL v)) (vs_AEAD file_vectors)"
  using specs_valid(1) aead_vector_sealed
  by (intro collect_all [OF aeadVectors_answers [unfolded aeadVectors_def]]) (auto simp: list_all_iff)

lemma all_cbc_encrypted: "list_all (\<lambda>v. fst (EncryptCBC (hex_decoded_prefix (cv_KeyHex v))
    (hex_decoded_prefix (cv_PlaintextHex v)) \<lparr>rd_data = hex_decoded_prefix (cv_IVHex v), rd_end = EOF\<rparr>) =
    Ok (cv_ExpectedHex v)) (vs_CBC file_vectors)"
  using specs_valid(3) cbc_vector_encrypted
  by (intro collect_all [OF cbcVectors_answers [unfolded cbcVectors_def]]) (auto simp: list_all_iff)

lemma gen_vectors_prints_file:
  assumes "wr_left w = None"
  shows "gen_vectors_main w = (Ok (), w\<lparr>wr_out := wr_out w @ vectors_file\<rparr>) \<and> parse_json vectors_file = Some (Vectors_json file_vectors)"
proof -
  have v: "\<lparr>vs_Version = 1, vs_Notes = vectors_notes, vs_AEAD = vs_AEAD file_vectors, vs_HMAC = vs_HMAC file_vectors,
      vs_CBC = vs_CBC file_vectors\<rparr> = file_vectors" by (simp add: file_vectors_def)
  have "gen_vectors_main w = (Ok (), w\<lparr>wr_out := wr_out w @ vectors_file\<rparr>)"
    using assms by (simp add: gen_vectors_main_def aeadVectors_answers hmacVectors_answers cbcVectors_answers v file_printed)
  moreover have "parse_json vectors_file = Some (Vectors_json file_vectors)"
    using parse_Encode_indented [OF vectors_encodable [OF aeadVectors_answers hmacVectors_answers cbcVectors_answers]]
    by (simp add: v file_printed)
  ultimately show ?thesis by simp
qed

subsection \<open>Properties\<close>

text \<open>Property C28: the generator reproduces the committed file of known-answer vectors byte for byte: it returns and
  prints exactly \<^verbatim>\<open>src/testdata/vectors.json\<close>, which parses to the twelve vectors of that file. The package computes
  and accepts them: sealing with the nonce of an AEAD vector gives its expected text and \<^verbatim>\<open>Open\<close> opens it, \<^verbatim>\<open>Verify\<close>
  accepts the expected tag of an HMAC vector, and \<^verbatim>\<open>EncryptCBC\<close> drawing the IV of a CBC vector gives its expected text,
  which \<^verbatim>\<open>DecryptCBC\<close> decrypts.\<close>

theorem vectors_file_reproduced:
  "gen_vectors_main \<lparr>wr_out = [], wr_left = None, wr_err = e\<rparr> =
     (Ok (), \<lparr>wr_out = vectors_file, wr_left = None, wr_err = e\<rparr>) \<and>
   parse_json vectors_file = Some (Vectors_json file_vectors) \<and>
   list_all (\<lambda>v. fst (sealWithNonce (hex_decoded_prefix (av_KeyHex v)) (hex_decoded_prefix (av_PlaintextHex v))
       (hex_decoded_prefix (av_AADHex v)) (Some (hex_decoded_prefix (av_NonceHex v))) rnd) = Ok (av_ExpectedB64URL v))
     (vs_AEAD file_vectors) \<and>
   list_all (\<lambda>v. Open (hex_decoded_prefix (av_KeyHex v)) (av_ExpectedB64URL v) (hex_decoded_prefix (av_AADHex v)) =
       Ok (hex_decoded_prefix (av_PlaintextHex v))) (vs_AEAD file_vectors) \<and>
   list_all (\<lambda>v. Verify (hex_decoded_prefix (hv_KeyHex v)) (hex_decoded_prefix (hv_DataHex v))
       (hex_decoded_prefix (hv_ExpectedHex v))) (vs_HMAC file_vectors) \<and>
   list_all (\<lambda>v. fst (EncryptCBC (hex_decoded_prefix (cv_KeyHex v)) (hex_decoded_prefix (cv_PlaintextHex v))
       \<lparr>rd_data = hex_decoded_prefix (cv_IVHex v), rd_end = EOF\<rparr>) = Ok (cv_ExpectedHex v)) (vs_CBC file_vectors) \<and>
   list_all (\<lambda>v. DecryptCBC (hex_decoded_prefix (cv_KeyHex v)) (cv_ExpectedHex v) =
       Ok (hex_decoded_prefix (cv_PlaintextHex v))) (vs_CBC file_vectors)"
  using gen_vectors_prints_file [of "\<lparr>wr_out = [], wr_left = None, wr_err = e\<rparr>"] all_aead_sealed all_cbc_encrypted
    generated_vectors_ok [OF aeadVectors_answers hmacVectors_answers cbcVectors_answers]
  unfolding aead_vector_opens_def hmac_vector_verifies_def cbc_vector_decrypts_def by simp

end
