(* ===== verification/Webhook.thy ===== *)
theory Webhook
  imports GoText Sign Timelock
begin

text \<open>
  \<^verbatim>\<open>src/examples/webhook_with_timestamp/main.go\<close>: webhook signatures over \<open>timestamp.body\<close> with a freshness
  window. The time difference and its conversion to nanoseconds are computed in 64-bit integers, as in
  the code.
\<close>

subsection \<open>Model\<close>

definition SignWebhook :: "bytes \<Rightarrow> bytes \<Rightarrow> int \<Rightarrow> gostring" where
  "SignWebhook secret body now =
     (let ts = FormatInt (Unix now);
          signed = (ts @ lit ''.'') @ body;
          mac = Sign secret signed
      in lit ''t='' @ ts @ lit '',v1='' @ hex_EncodeToString mac)"

fun header_fields :: "gostring list \<Rightarrow> gostring \<times> gostring \<Rightarrow> gostring \<times> gostring" where
  "header_fields [] (ts, v1) = (ts, v1)"
| "header_fields (p # ps) (ts, v1) =
     header_fields ps
       (if HasPrefix p (lit ''t='') then (drop 2 p, v1)
        else if HasPrefix p (lit ''v1='') then (ts, drop 3 p)
        else (ts, v1))"

text \<open>The message has an em dash, three bytes in UTF-8.\<close>

definition replayed :: error where
  "replayed = Msg (''timestamp outside tolerance '' @ [CHR 0xE2, CHR 0x80, CHR 0x94] @ '' possible replay'')"

definition VerifyWebhook :: "bytes \<Rightarrow> bytes \<Rightarrow> gostring \<Rightarrow> int \<Rightarrow> int \<Rightarrow> unit res" where
  "VerifyWebhook secret body header now tolerance =
     (let parts = strings_Split header 44 in
      if length parts \<noteq> 2 then Err (Msg ''malformed signature header'')
      else
        let (ts, v1) = header_fields parts ([], []) in
        if ts = [] \<or> v1 = [] then Err (Msg ''malformed signature header'')
        else
          case ParseInt ts of
            None \<Rightarrow> Err (Msg ''malformed timestamp'')
          | Some tsInt \<Rightarrow>
              let delta = (word_of_int (Unix now) - word_of_int tsInt :: 64 word);
                  delta = (if sint delta < 0 then - delta else delta)
              in
              if tolerance < sint (delta * 10 ^ 9) then Err replayed
              else
                case hex_DecodeString v1 of
                  None \<Rightarrow> Err (Msg ''malformed mac'')
                | Some mac \<Rightarrow>
                    let signed = (ts @ lit ''.'') @ body in
                    if \<not> Verify secret signed mac then Err (Msg ''signature mismatch'') else Ok ())"

subsection \<open>The header is split into its two fields\<close>

lemma hex_chars: "c \<in> set (hex_EncodeToString bs) \<Longrightarrow> c \<in> set hextable"
proof (induction bs)
  case (Cons b bs)
  have "unat (drop_bit 4 b) < 16" "unat (take_bit 4 b) < 16"
    by (rule unat_nibble; simp add: bit_simps)+
  moreover have "length hextable = 16" by (simp add: hextable_def lit_def)
  ultimately show ?case using Cons by auto
qed simp

lemma hex_no_comma: "44 \<notin> set (hex_EncodeToString bs)"
  using hex_chars [of 44 bs] by (auto simp: hextable_def lit_def)

lemma SignWebhook_parts:
  "strings_Split (SignWebhook secret body now) 44 =
     [lit ''t='' @ FormatInt (Unix now),
      lit ''v1='' @ hex_EncodeToString (Sign secret ((FormatInt (Unix now) @ lit ''.'') @ body))]"
proof -
  let ?ts = "FormatInt (Unix now)"
  let ?mac = "hex_EncodeToString (Sign secret ((?ts @ lit ''.'') @ body))"
  have h: "SignWebhook secret body now = (lit ''t='' @ ?ts) @ 44 # (lit ''v1='' @ ?mac)"
    by (simp add: SignWebhook_def Let_def lit_def)
  have parts: "44 \<notin> set (lit ''t='' @ ?ts)" "44 \<notin> set (lit ''v1='' @ ?mac)"
    using FormatInt_no_comma hex_no_comma by (auto simp: lit_def)
  show ?thesis unfolding h strings_Split_append [OF parts(1)] strings_Split_single [OF parts(2)] ..
qed

lemma VerifyWebhook_SignWebhook:
  assumes "- (2 ^ 63) \<le> Unix now" and "Unix now < 2 ^ 63"
  shows "VerifyWebhook secret' body' (SignWebhook secret body now) later tolerance =
    (let delta = (word_of_int (Unix later) - word_of_int (Unix now) :: 64 word);
         delta = (if sint delta < 0 then - delta else delta)
     in if tolerance < sint (delta * 10 ^ 9) then Err replayed
        else if Sign secret' ((FormatInt (Unix now) @ lit ''.'') @ body') =
                Sign secret ((FormatInt (Unix now) @ lit ''.'') @ body)
        then Ok () else Err (Msg ''signature mismatch''))"
proof -
  let ?mac = "Sign secret ((FormatInt (Unix now) @ lit ''.'') @ body)"
  have fields: "header_fields [lit ''t='' @ FormatInt (Unix now), lit ''v1='' @ hex_EncodeToString ?mac] ([], []) =
      (FormatInt (Unix now), hex_EncodeToString ?mac)"
    by (simp add: HasPrefix_def lit_def)
  have "hex_EncodeToString ?mac \<noteq> []"
    using length_hex_encode [of ?mac] by (metis Sign_length list.size(3) mult_eq_0_iff zero_neq_numeral)
  then have ne: "(FormatInt (Unix now) = [] \<or> hex_EncodeToString ?mac = []) = False" by simp
  have two: "(length [a, b] \<noteq> 2) = False" for a b :: gostring by simp
  show ?thesis
    unfolding VerifyWebhook_def SignWebhook_parts Let_def fields two if_False prod.case ne
      ParseInt_FormatInt [OF assms] option.case hex.dec_enc Verify_iff
    by (rule if_cong [OF refl refl]) auto
qed

text \<open>Without overflow the window is the absolute difference of the whole seconds.\<close>

lemma no_overflow:
  assumes "\<bar>x - y\<bar> \<le> 9 * 10 ^ 9"
  shows "sint ((let d = (word_of_int x - word_of_int y :: 64 word) in if sint d < 0 then - d else d) * 10 ^ 9) =
    \<bar>x - y\<bar> * 10 ^ 9"
proof -
  have d: "(word_of_int x - word_of_int y :: 64 word) = word_of_int (x - y)" by simp
  have s: "sint (word_of_int (x - y) :: 64 word) = x - y" using assms by (intro sint_expiry) auto
  have a: "(if sint (word_of_int (x - y) :: 64 word) < 0 then - word_of_int (x - y) else word_of_int (x - y)) =
      (word_of_int \<bar>x - y\<bar> :: 64 word)"
    unfolding s by (simp add: abs_if)
  have "(word_of_int \<bar>x - y\<bar> :: 64 word) * 10 ^ 9 = word_of_int (\<bar>x - y\<bar> * 10 ^ 9)" by simp
  moreover have "sint (word_of_int (\<bar>x - y\<bar> * 10 ^ 9) :: 64 word) = \<bar>x - y\<bar> * 10 ^ 9"
  proof (rule sint_expiry)
    have "0 \<le> \<bar>x - y\<bar> * 10 ^ 9" by simp
    then show "- (2 ^ 63) \<le> \<bar>x - y\<bar> * 10 ^ 9" by (rule order.trans [rotated]) simp
    have "\<bar>x - y\<bar> * 10 ^ 9 \<le> (9 * 10 ^ 9) * 10 ^ 9" using assms by (intro mult_right_mono) simp_all
    then show "\<bar>x - y\<bar> * 10 ^ 9 < 2 ^ 63" by (rule order.strict_trans1) simp
  qed
  ultimately show ?thesis unfolding d Let_def a by simp
qed

lemma VerifyWebhook_outcome:
  assumes "- (2 ^ 63) \<le> Unix now" and "Unix now < 2 ^ 63" and "\<bar>Unix later - Unix now\<bar> \<le> 9 * 10 ^ 9"
  shows "VerifyWebhook secret' body' (SignWebhook secret body now) later tolerance =
    (if tolerance < \<bar>Unix later - Unix now\<bar> * 10 ^ 9 then Err replayed
     else if Sign secret' ((FormatInt (Unix now) @ lit ''.'') @ body') = Sign secret ((FormatInt (Unix now) @ lit ''.'') @ body)
     then Ok () else Err (Msg ''signature mismatch''))"
  using VerifyWebhook_SignWebhook [OF assms(1,2), of secret' body' secret body later tolerance] no_overflow [OF assms(3)]
  by (simp add: Let_def)

subsection \<open>Properties\<close>

text \<open>Property C37: a signed webhook verifies exactly when the two clocks, in whole seconds, differ by at most the
  tolerance and the tag of the received body is that of the sent one (in particular for the same body).
  This holds up to clock differences of 9 * 10^9 seconds, beyond which the 64-bit product of the code
  can wrap.\<close>

theorem webhook_accepts_exactly:
  assumes "- (2 ^ 63) \<le> now div 10 ^ 9" and "now div 10 ^ 9 < 2 ^ 63"
    and "\<bar>later div 10 ^ 9 - now div 10 ^ 9\<bar> \<le> 9 * 10 ^ 9"
  shows "VerifyWebhook secret body' (SignWebhook secret body now) later tolerance = Ok () \<longleftrightarrow>
    \<bar>later div 10 ^ 9 - now div 10 ^ 9\<bar> * 10 ^ 9 \<le> tolerance \<and>
    Sign secret (FormatInt (now div 10 ^ 9) @ lit ''.'' @ body') = Sign secret (FormatInt (now div 10 ^ 9) @ lit ''.'' @ body)"
  using VerifyWebhook_outcome [of now later secret body' secret body tolerance] assms
  by (simp add: Unix_def Let_def linorder_not_less)

lemma webhook_accepts_exactly_witness:
  "VerifyWebhook [1] [2, 3] (SignWebhook [1] [2, 3] 5000000000) 305999999999 300000000000 = Ok () \<and>
   VerifyWebhook [1] [2, 3] (SignWebhook [1] [2, 3] 5000000000) 306000000000 300000000000 \<noteq> Ok ()"
  using webhook_accepts_exactly [of 5000000000 305999999999 "[1]" "[2, 3]" "[2, 3]" 300000000000]
    webhook_accepts_exactly [of 5000000000 306000000000 "[1]" "[2, 3]" "[2, 3]" 300000000000]
  by simp

end
