(* ===== verification/AuditLog.thy ===== *)
theory AuditLog
  imports GoText Sign
begin

text \<open>
  \<^verbatim>\<open>src/examples/audit_log_chain/main.go\<close>: a log whose entries carry an HMAC over the previous entry's MAC and
  their own payload. A \<^verbatim>\<open>time.Time\<close> is its nanoseconds since the Unix epoch; \<open>FormatRFC3339Nano\<close> is the
  UTC formatting of the payload (civil date by the days-from-epoch algorithm, fraction without trailing
  zeros).
\<close>

subsection \<open>Timestamps\<close>

definition pad_decimal :: "nat \<Rightarrow> nat \<Rightarrow> gostring" where
  "pad_decimal w n = (let s = decimal n in replicate (w - length s) 48 @ s)"

definition civil_from_days :: "int \<Rightarrow> int \<times> nat \<times> nat" where
  "civil_from_days days =
     (let z = days + 719468;
          era = z div 146097;
          doe = z mod 146097;
          yoe = (doe - doe div 1460 + doe div 36524 - doe div 146096) div 365;
          doy = doe - (365 * yoe + yoe div 4 - yoe div 100);
          mp = (5 * doy + 2) div 153;
          d = doy - (153 * mp + 2) div 5 + 1;
          m = (if mp < 10 then mp + 3 else mp - 9);
          y = yoe + era * 400 + (if m \<le> 2 then 1 else 0)
      in (y, nat m, nat d))"

definition fraction :: "nat \<Rightarrow> gostring" where
  "fraction nsec =
     (if nsec = 0 then []
      else 46 # rev (dropWhile (\<lambda>c. c = 48) (rev (pad_decimal 9 nsec))))"

definition FormatRFC3339Nano :: "int \<Rightarrow> gostring" where
  "FormatRFC3339Nano t =
     (let sec = t div 10 ^ 9; nsec = nat (t mod 10 ^ 9);
          days = sec div 86400; s = nat (sec mod 86400);
          (y, m, d) = civil_from_days days
      in (if y < 0 then 45 # pad_decimal 4 (nat (- y)) else pad_decimal 4 (nat y))
         @ lit ''-'' @ pad_decimal 2 m @ lit ''-'' @ pad_decimal 2 d @ lit ''T''
         @ pad_decimal 2 (s div 3600) @ lit '':'' @ pad_decimal 2 (s mod 3600 div 60) @ lit '':''
         @ pad_decimal 2 (s mod 60) @ fraction nsec @ lit ''Z'')"

subsection \<open>Model\<close>

record AuditEntry =
  ae_Timestamp :: int
  ae_Actor :: gostring
  ae_Action :: gostring
  ae_Resource :: gostring
  ae_MAC :: bytes

definition payload :: "AuditEntry \<Rightarrow> bytes" where
  "payload e = FormatRFC3339Nano (ae_Timestamp e) @ lit ''|'' @ ae_Actor e @ lit ''|'' @ ae_Action e
     @ lit ''|'' @ ae_Resource e"

record AuditLog =
  al_secret :: bytes
  al_entries :: "AuditEntry list"

definition NewAuditLog :: "bytes \<Rightarrow> AuditLog" where
  "NewAuditLog secret = \<lparr>al_secret = secret, al_entries = []\<rparr>"

definition AuditLog_Append :: "int \<Rightarrow> AuditLog \<Rightarrow> gostring \<Rightarrow> gostring \<Rightarrow> gostring \<Rightarrow> AuditLog" where
  "AuditLog_Append now l actor action resource =
     (let prev = (if 0 < length (al_entries l) then ae_MAC (al_entries l ! (length (al_entries l) - 1)) else []);
          e = \<lparr>ae_Timestamp = now, ae_Actor = actor, ae_Action = action, ae_Resource = resource, ae_MAC = []\<rparr>;
          signed = prev @ payload e;
          e = e\<lparr>ae_MAC := Sign (al_secret l) signed\<rparr>
      in l\<lparr>al_entries := al_entries l @ [e]\<rparr>)"

fun verify_entries :: "bytes \<Rightarrow> bytes \<Rightarrow> int \<Rightarrow> AuditEntry list \<Rightarrow> int" where
  "verify_entries secret prev i [] = - 1"
| "verify_entries secret prev i (e # es) =
     (let signed = prev @ payload e in
      if \<not> Verify secret signed (ae_MAC e) then i
      else verify_entries secret (ae_MAC e) (i + 1) es)"

definition AuditLog_Verify :: "AuditLog \<Rightarrow> int" where
  "AuditLog_Verify l = verify_entries (al_secret l) [] 0 (al_entries l)"

subsection \<open>The chain condition\<close>

text \<open>Entry \<open>i\<close> carries the tag of the previous entry's MAC (nothing for the first) and its payload.\<close>

definition entry_good :: "bytes \<Rightarrow> bytes \<Rightarrow> AuditEntry list \<Rightarrow> nat \<Rightarrow> bool" where
  "entry_good secret prev es i \<longleftrightarrow>
     ae_MAC (es ! i) = Sign secret ((if i = 0 then prev else ae_MAC (es ! (i - 1))) @ payload (es ! i))"

lemma payload_MAC [simp]: "payload (e\<lparr>ae_MAC := m\<rparr>) = payload e"
  by (simp add: payload_def)

lemma entry_good_Cons: "entry_good secret prev (e # es) (Suc i) = entry_good secret (ae_MAC e) es i"
  by (cases i) (simp_all add: entry_good_def)

lemma list_all_upt_Suc: "list_all P [0..<Suc n] \<longleftrightarrow> P 0 \<and> list_all (\<lambda>i. P (Suc i)) [0..<n]"
proof -
  have "[0..<Suc n] = 0 # map Suc [0..<n]" by (simp add: map_Suc_upt upt_conv_Cons del: upt_Suc)
  then show ?thesis by (simp add: list.pred_map o_def del: upt_Suc)
qed

lemma verify_entries_all:
  "0 \<le> i \<Longrightarrow> verify_entries secret prev i es = - 1 \<longleftrightarrow> list_all (entry_good secret prev es) [0..<length es]"
proof (induction es arbitrary: prev i)
  case (Cons e es)
  have "Verify secret (prev @ payload e) (ae_MAC e) \<longleftrightarrow> entry_good secret prev (e # es) 0"
    by (simp add: entry_good_def Verify_iff)
  then show ?case
    using Cons.prems Cons.IH [of "i + 1" "ae_MAC e"]
    by (simp add: list_all_upt_Suc entry_good_Cons del: upt_Suc)
qed simp

lemma verify_entries_ge: "verify_entries secret prev i es = - 1 \<or> i \<le> verify_entries secret prev i es"
proof (induction es arbitrary: prev i)
  case (Cons e es)
  show ?case using Cons.IH [of "ae_MAC e" "i + 1"] by (auto simp: Let_def)
qed simp

lemma verify_entries_first:
  "0 \<le> i \<Longrightarrow> verify_entries secret prev i es = i + int j \<longleftrightarrow>
     j < length es \<and> list_all (entry_good secret prev es) [0..<j] \<and> \<not> entry_good secret prev es j"
proof (induction es arbitrary: prev i j)
  case (Cons e es)
  have v: "Verify secret (prev @ payload e) (ae_MAC e) \<longleftrightarrow> entry_good secret prev (e # es) 0"
    by (simp add: entry_good_def Verify_iff)
  show ?case
  proof (cases j)
    case 0
    have "verify_entries secret (ae_MAC e) (i + 1) es \<noteq> i"
      using Cons.prems verify_entries_ge [of secret "ae_MAC e" "i + 1" es] by linarith
    with 0 v show ?thesis by auto
  next
    case (Suc k)
    then show ?thesis
      using Cons.prems Cons.IH [of "i + 1" "ae_MAC e" k] v
      by (simp add: list_all_upt_Suc entry_good_Cons algebra_simps del: upt_Suc)
  qed
qed simp

lemma AuditLog_Append_entries:
  "\<exists>e. al_entries (AuditLog_Append now l actor action resource) = al_entries l @ [e] \<and>
     al_secret (AuditLog_Append now l actor action resource) = al_secret l \<and>
     ae_Timestamp e = now \<and> ae_Actor e = actor \<and> ae_Action e = action \<and> ae_Resource e = resource \<and>
     entry_good (al_secret l) [] (al_entries l @ [e]) (length (al_entries l))"
  by (auto simp: AuditLog_Append_def Let_def entry_good_def nth_append payload_def)

lemma entry_good_append: "i < length es \<Longrightarrow> entry_good secret prev (es @ es') i = entry_good secret prev es i"
  by (auto simp: entry_good_def nth_append)

lemma entry_good_take: "i < k \<Longrightarrow> entry_good secret prev (take k es) i = entry_good secret prev es i"
  by (auto simp: entry_good_def)

lemma AuditLog_Verify_Append:
  assumes "AuditLog_Verify l = - 1"
  shows "AuditLog_Verify (AuditLog_Append now l actor action resource) = - 1"
proof -
  obtain e where e: "al_entries (AuditLog_Append now l actor action resource) = al_entries l @ [e]"
      "al_secret (AuditLog_Append now l actor action resource) = al_secret l"
      "entry_good (al_secret l) [] (al_entries l @ [e]) (length (al_entries l))"
    using AuditLog_Append_entries by blast
  with assms show ?thesis
    by (auto simp: AuditLog_Verify_def verify_entries_all list_all_iff entry_good_append less_Suc_eq)
qed

lemma AuditLog_Verify_take:
  "AuditLog_Verify l = - 1 \<Longrightarrow> AuditLog_Verify (l\<lparr>al_entries := take k (al_entries l)\<rparr>) = - 1"
  by (auto simp: AuditLog_Verify_def verify_entries_all list_all_iff entry_good_take)

text \<open>The payload does not separate its fields: an entry can be replaced by a different one with the same MAC.\<close>

lemma payload_ambiguous:
  "payload e = payload (e\<lparr>ae_Actor := ae_Actor e @ lit ''|'' @ take n (ae_Action e), ae_Action := drop (Suc n) (ae_Action e)\<rparr>)"
  if "n < length (ae_Action e)" and "ae_Action e ! n = 124"
proof -
  have "ae_Action e = take n (ae_Action e) @ 124 # drop (Suc n) (ae_Action e)"
    using that by (metis id_take_nth_drop)
  then have "lit ''|'' @ ae_Action e = lit ''|'' @ take n (ae_Action e) @ lit ''|'' @ drop (Suc n) (ae_Action e)"
    by (simp add: lit_def)
  then show ?thesis by (simp add: payload_def)
qed

subsection \<open>Properties\<close>

text \<open>Property C38: \<^verbatim>\<open>Verify\<close> reports the index of the first entry whose MAC is not the tag of the previous MAC and its
  own payload, and -1 when there is none; appending keeps a valid log valid. Cutting entries off the
  end also keeps it valid: unlike what the comment says, removing the latest entries is not detected.\<close>

theorem audit_log_verification:
  "(AuditLog_Verify l = int i \<longleftrightarrow>
      i < length (al_entries l) \<and> list_all (entry_good (al_secret l) [] (al_entries l)) [0..<i] \<and>
      \<not> entry_good (al_secret l) [] (al_entries l) i) \<and>
   (AuditLog_Verify l = - 1 \<longleftrightarrow>
      list_all (entry_good (al_secret l) [] (al_entries l)) [0..<length (al_entries l)]) \<and>
   (AuditLog_Verify l = - 1 \<longrightarrow>
      AuditLog_Verify (AuditLog_Append now l actor action resource) = - 1 \<and>
      AuditLog_Verify (l\<lparr>al_entries := take k (al_entries l)\<rparr>) = - 1)"
  using verify_entries_first [of 0 "al_secret l" "[]" "al_entries l" i]
    verify_entries_all [of 0 "al_secret l" "[]" "al_entries l"]
    AuditLog_Verify_Append AuditLog_Verify_take
  by (simp add: AuditLog_Verify_def)

lemma audit_log_verification_witness:
  "AuditLog_Verify (AuditLog_Append 1000000000 (NewAuditLog [1]) (lit ''usr'') (lit ''login'') (lit ''/auth'')) = - 1"
proof -
  have "AuditLog_Verify (NewAuditLog [1]) = - 1" by (simp add: AuditLog_Verify_def NewAuditLog_def)
  then show ?thesis
    using audit_log_verification [of "NewAuditLog [1]" 0 1000000000 "lit ''usr''" "lit ''login''" "lit ''/auth''" 0]
    by blast
qed

end
