(* ===== verification/Migration.thy ===== *)
theory Migration
  imports OpenAuto Console GoText
begin

text \<open>
  \<^verbatim>\<open>src/examples/migrate_cbc_to_gcm/main.go\<close>: a table of mixed CBC and AEAD ciphertexts, the migration loop
  that rewrites every row as AEAD, and the listings before and after it. The table is a map; the order in
  which Go iterates it is an argument of each loop. The migration loop changes only rows that exist, so
  every key of the order is visited once.
\<close>

subsection \<open>Model\<close>

record fakeDB =
  db_rows :: "gostring \<rightharpoonup> gostring"

record migration = fakeDB +
  mg_migrated :: nat
  mg_skipped :: nat
  mg_errored :: nat

definition migrate_row :: "bytes \<Rightarrow> gostring \<Rightarrow> gostring \<Rightarrow> migration \<times> process \<Rightarrow> unit res \<times> migration \<times> process" where
  "migrate_row key rowid oldCt = (\<lambda>(m, p).
     (case OpenAuto key oldCt [] of
        Panic \<Rightarrow> (Panic, m, p)
      | Err e \<Rightarrow>
          (Ok (), m\<lparr>mg_errored := mg_errored m + 1\<rparr>,
           printf (lines [''  %s: decrypt error: %v'', '''']) [Str rowid, Error (Some e)] p)
      | Ok plain \<Rightarrow>
          (case draw (Seal key plain []) p of
             (Panic, p) \<Rightarrow> (Panic, m, p)
           | (Err e, p) \<Rightarrow>
               (Ok (), m\<lparr>mg_errored := mg_errored m + 1\<rparr>,
                printf (lines [''  %s: re-encrypt error: %v'', '''']) [Str rowid, Error (Some e)] p)
           | (Ok newCt, p) \<Rightarrow>
               if oldCt = newCt then (Ok (), m\<lparr>mg_skipped := mg_skipped m + 1\<rparr>, p)
               else (Ok (), m\<lparr>db_rows := (db_rows m)(rowid \<mapsto> newCt), mg_migrated := mg_migrated m + 1\<rparr>, p))))"

fun migrate_loop :: "bytes \<Rightarrow> gostring list \<Rightarrow> migration \<times> process \<Rightarrow> unit res \<times> migration \<times> process" where
  "migrate_loop key [] s = (Ok (), s)"
| "migrate_loop key (rowid # order) (m, p) =
     (case db_rows m rowid of
        None \<Rightarrow> migrate_loop key order (m, p)
      | Some oldCt \<Rightarrow>
          then_do (migrate_row key rowid oldCt (m, p)) (\<lambda>_ s. migrate_loop key order s))"

definition truncate_text :: "gostring \<Rightarrow> nat \<Rightarrow> gostring res" where
  "truncate_text s n = (if length s \<le> n then Ok s else go_slice s 0 n)"

fun setup_rows :: "bytes \<Rightarrow> nat \<Rightarrow> gostring list \<Rightarrow> fakeDB \<times> process \<Rightarrow> unit res \<times> fakeDB \<times> process" where
  "setup_rows key i [] s = (Ok (), s)"
| "setup_rows key i (plaintext # rest) (db, p) =
     (case fatalf ''setup CBC: %v'' (draw (EncryptCBC key plaintext) p) of
        (Err e, p) \<Rightarrow> (Err e, db, p)
      | (Panic, p) \<Rightarrow> (Panic, db, p)
      | (Ok ct, p) \<Rightarrow>
          setup_rows key (i + 1) rest (db\<lparr>db_rows := (db_rows db)(lit ''row_'' @ FormatInt (int i) \<mapsto> ct)\<rparr>, p))"

fun print_rows :: "gostring list \<Rightarrow> (gostring \<rightharpoonup> gostring) \<Rightarrow> process \<Rightarrow> unit res \<times> process" where
  "print_rows [] rows p = (Ok (), p)"
| "print_rows (rowid # order) rows p =
     (case rows rowid of
        None \<Rightarrow> print_rows order rows p
      | Some ct \<Rightarrow>
          then_do (truncate_text ct 32, p) (\<lambda>start p.
            print_rows order rows (printf (lines [''  %s = %s...'', '''']) [Str rowid, Str start] p)))"

fun sanity_check :: "bytes \<Rightarrow> gostring list \<Rightarrow> (gostring \<rightharpoonup> gostring) \<Rightarrow> process \<Rightarrow> unit res \<times> process" where
  "sanity_check key [] rows p = (Ok (), p)"
| "sanity_check key (rowid # order) rows p =
     (case rows rowid of
        None \<Rightarrow> sanity_check key order rows p
      | Some ct \<Rightarrow>
          (case Open key ct [] of
             Panic \<Rightarrow> (Panic, p)
           | Err e \<Rightarrow> sanity_check key order rows (printf (lines [''  %s: %v'', '''']) [Str rowid, Error (Some e)] p)
           | Ok pt \<Rightarrow> sanity_check key order rows (printf (lines [''  %s = %s'', '''']) [Str rowid, Str pt] p)))"

definition migration_main ::
    "gostring list \<Rightarrow> gostring list \<Rightarrow> gostring list \<Rightarrow> gostring list \<Rightarrow> process \<Rightarrow> unit res \<times> process" where
  "migration_main order1 order2 order3 order4 p =
     (let key = lit ''01234567890123456789012345678901'' in
      case setup_rows key 0 [lit ''sk_live_aaaa1111'', lit ''sk_live_bbbb2222'', lit ''sk_live_cccc3333'']
             (\<lparr>db_rows = (\<lambda>_. None)\<rparr>, p) of
        (Err e, db, p) \<Rightarrow> (Err e, p)
      | (Panic, db, p) \<Rightarrow> (Panic, p)
      | (Ok _, db, p) \<Rightarrow>
          then_do (or_zero [] (draw (Seal key (lit ''sk_live_dddd4444'') []) p)) (\<lambda>aeadCt p.
          let db = db\<lparr>db_rows := (db_rows db)(lit ''row_3'' \<mapsto> aeadCt)\<rparr>;
              p = println [Str (lit ''--- before migration ---'')] p in
          then_do (print_rows order1 (db_rows db) p) (\<lambda>_ p.
          case migrate_loop key order2
                 (\<lparr>db_rows = db_rows db, mg_migrated = 0, mg_skipped = 0, mg_errored = 0\<rparr>, p) of
            (Err e, m, p) \<Rightarrow> (Err e, p)
          | (Panic, m, p) \<Rightarrow> (Panic, p)
          | (Ok _, m, p) \<Rightarrow>
              let p = printf (lines ['''', ''--- migration result ---'', '''']) [] p;
                  p = printf (lines [''migrated: %d'', ''skipped:  %d'', ''errored:  %d'', '''', ''''])
                        [Num (int (mg_migrated m)), Num (int (mg_skipped m)), Num (int (mg_errored m))] p;
                  p = println [Str (lit ''--- after migration ---'')] p in
              then_do (print_rows order3 (db_rows m) p) (\<lambda>_ p.
              let p = println [Str (lit (lines ['''', ''--- sanity check (all rows decrypt with crypt.Open) ---'']))] p in
              sanity_check key order4 (db_rows m) p))))"

subsection \<open>One row\<close>

text \<open>
  What a row holds after its step: a ciphertext \<^verbatim>\<open>Open\<close> reads to the same plaintext, or, where \<open>OpenAuto\<close>
  could not read it, what it held.
\<close>

definition row_done :: "bytes \<Rightarrow> gostring \<Rightarrow> gostring \<Rightarrow> bool" where
  "row_done key oldCt ct \<longleftrightarrow>
     (if is_ok (OpenAuto key oldCt []) then Open key ct [] = OpenAuto key oldCt [] else ct = oldCt)"

definition sealable :: "bytes \<Rightarrow> gostring \<Rightarrow> bool" where
  "sealable key ct \<longleftrightarrow> (case OpenAuto key ct [] of Ok p \<Rightarrow> length p \<le> gcm_max | Err e \<Rightarrow> True | Panic \<Rightarrow> True)"

lemma OpenAuto_no_panic: "OpenAuto key s a \<noteq> Panic"
  using Open_no_panic [of key s a] DecryptCBC_no_panic [of key s] by (simp add: OpenAuto_eq)

lemma migrate_row_effect:
  assumes "length key = 32" and "12 \<le> length (rd_data (pr_rand p))" and "db_rows m rowid = Some oldCt" and "sealable key oldCt"
  shows "\<exists>m' p' ct. migrate_row key rowid oldCt (m, p) = (Ok (), m', p') \<and>
    db_rows m' = (db_rows m)(rowid \<mapsto> ct) \<and> row_done key oldCt ct \<and>
    length (rd_data (pr_rand p)) \<le> length (rd_data (pr_rand p')) + 12 \<and>
    mg_migrated m' + mg_skipped m' + mg_errored m' = mg_migrated m + mg_skipped m + mg_errored m + 1 \<and>
    (is_ok (OpenAuto key oldCt []) \<longrightarrow> mg_errored m' = mg_errored m \<and> p' = p\<lparr>pr_rand := skip 12 (pr_rand p)\<rparr>)"
proof (cases "OpenAuto key oldCt []")
  case (Ok pt)
  then obtain newCt where c: "Seal key pt [] (pr_rand p) = (Ok newCt, skip 12 (pr_rand p))"
    using Seal_returns [OF assms(1) _ assms(2), of pt "[]"] assms(4) by (auto simp: sealable_def)
  then have row: "row_done key oldCt newCt" using Seal_Open [OF c] by (simp add: row_done_def Ok)
  show ?thesis
  proof (cases "oldCt = newCt")
    case True
    then show ?thesis
      using Ok c row assms(2,3) by (auto simp: migrate_row_def draw_def intro!: exI [of _ newCt])
  next
    case False
    then show ?thesis using Ok c row assms(2) by (auto simp: migrate_row_def draw_def)
  qed
next
  case (Err e)
  then show ?thesis using assms(3) by (simp add: migrate_row_def row_done_def fun_upd_idem printf_def)
qed (use OpenAuto_no_panic [of key oldCt "[]"] in simp)

subsection \<open>The whole table\<close>

definition rows_sealable :: "bytes \<Rightarrow> (gostring \<rightharpoonup> gostring) \<Rightarrow> gostring list \<Rightarrow> bool" where
  "rows_sealable key rows = list_all (\<lambda>i. case rows i of None \<Rightarrow> True | Some ct \<Rightarrow> sealable key ct)"

definition rows_readable :: "bytes \<Rightarrow> (gostring \<rightharpoonup> gostring) \<Rightarrow> gostring list \<Rightarrow> bool" where
  "rows_readable key rows = list_all (\<lambda>i. case rows i of None \<Rightarrow> True | Some ct \<Rightarrow> is_ok (OpenAuto key ct []))"

lemma migrate_loop_effect:
  assumes "length key = 32" and "distinct order" and "set order \<subseteq> dom (db_rows m)"
    and "12 * length order \<le> length (rd_data (pr_rand p))" and "rows_sealable key (db_rows m) order"
  shows "\<exists>m' p'. migrate_loop key order (m, p) = (Ok (), m', p') \<and> dom (db_rows m') = dom (db_rows m) \<and>
    (\<forall>i. i \<notin> set order \<longrightarrow> db_rows m' i = db_rows m i) \<and>
    (\<forall>i oldCt. i \<in> set order \<and> db_rows m i = Some oldCt \<longrightarrow> (\<exists>ct. db_rows m' i = Some ct \<and> row_done key oldCt ct)) \<and>
    mg_migrated m' + mg_skipped m' + mg_errored m' = mg_migrated m + mg_skipped m + mg_errored m + length order \<and>
    (rows_readable key (db_rows m) order \<longrightarrow>
       mg_errored m' = mg_errored m \<and> p' = p\<lparr>pr_rand := skip (12 * length order) (pr_rand p)\<rparr>)"
  using assms(2-)
proof (induction order arbitrary: m p)
  case (Cons i order)
  then obtain oldCt where old: "db_rows m i = Some oldCt" by auto
  have len: "12 \<le> length (rd_data (pr_rand p))" using Cons.prems(3) by simp
  obtain m1 p1 ct where step: "migrate_row key i oldCt (m, p) = (Ok (), m1, p1)"
      "db_rows m1 = (db_rows m)(i \<mapsto> ct)" "row_done key oldCt ct"
      "length (rd_data (pr_rand p)) \<le> length (rd_data (pr_rand p1)) + 12"
      "mg_migrated m1 + mg_skipped m1 + mg_errored m1 = mg_migrated m + mg_skipped m + mg_errored m + 1"
      "is_ok (OpenAuto key oldCt []) \<longrightarrow> mg_errored m1 = mg_errored m \<and> p1 = p\<lparr>pr_rand := skip 12 (pr_rand p)\<rparr>"
    using migrate_row_effect [OF assms(1) len old] Cons.prems(4) old by (auto simp: rows_sealable_def)
  have same: "db_rows m1 j = db_rows m j" if "j \<in> set order" for j
    using that Cons.prems(1) by (auto simp: step(2))
  have "rows_sealable key (db_rows m1) order"
    using Cons.prems(4) same by (auto simp: rows_sealable_def list_all_iff)
  moreover have "distinct order" "set order \<subseteq> dom (db_rows m1)" "12 * length order \<le> length (rd_data (pr_rand p1))"
    using Cons.prems(1-3) step(2,4) by auto
  ultimately obtain m' p' where rest: "migrate_loop key order (m1, p1) = (Ok (), m', p')"
      "dom (db_rows m') = dom (db_rows m1)" "\<forall>j. j \<notin> set order \<longrightarrow> db_rows m' j = db_rows m1 j"
      "\<forall>j oldCt. j \<in> set order \<and> db_rows m1 j = Some oldCt \<longrightarrow> (\<exists>ct. db_rows m' j = Some ct \<and> row_done key oldCt ct)"
      "mg_migrated m' + mg_skipped m' + mg_errored m' = mg_migrated m1 + mg_skipped m1 + mg_errored m1 + length order"
      "rows_readable key (db_rows m1) order \<longrightarrow>
         mg_errored m' = mg_errored m1 \<and> p' = p1\<lparr>pr_rand := skip (12 * length order) (pr_rand p1)\<rparr>"
    using Cons.IH [of m1 p1] by blast
  have "migrate_loop key (i # order) (m, p) = (Ok (), m', p')"
    by (simp add: old step(1) rest(1))
  moreover have "dom (db_rows m') = dom (db_rows m)" using rest(2) old by (auto simp: step(2))
  moreover have "db_rows m' j = db_rows m j" if "j \<notin> set (i # order)" for j
    using rest(3) that by (simp add: step(2))
  moreover have "\<exists>ct. db_rows m' j = Some ct \<and> row_done key o' ct"
    if "j \<in> set (i # order)" "db_rows m j = Some o'" for j o'
  proof (cases "j = i")
    case True
    then have "db_rows m' j = Some ct" using rest(3) Cons.prems(1) by (simp add: step(2))
    with True that old step(3) show ?thesis by simp
  next
    case False
    with that rest(4) show ?thesis by (simp add: step(2))
  qed
  moreover have "mg_errored m' = mg_errored m \<and> p' = p\<lparr>pr_rand := skip (12 * length (i # order)) (pr_rand p)\<rparr>"
    if "rows_readable key (db_rows m) (i # order)"
  proof -
    have "rows_readable key (db_rows m1) order" "is_ok (OpenAuto key oldCt [])"
      using that same old by (auto simp: rows_readable_def list_all_iff)
    with rest(6) step(6) show ?thesis by (simp add: add.commute)
  qed
  ultimately show ?case using rest(5) step(5) by (intro exI [of _ m'] exI [of _ p']) simp
qed simp

subsection \<open>The main\<close>

lemma truncate_text_prefix: "truncate_text s n = Ok (take n s)"
  by (simp add: truncate_text_def go_slice_def)

lemma print_rows_output:
  "set order \<subseteq> dom rows \<Longrightarrow> print_rows order rows p = (Ok (), p\<lparr>pr_out := pr_out p @
     map (\<lambda>i. Printf (lines [''  %s = %s...'', '''']) [Str i, Str (take 32 (the (rows i)))]) order\<rparr>)"
  by (induction order arbitrary: p) (auto simp: truncate_text_prefix printf_def)

lemma sanity_check_output:
  assumes "set order \<subseteq> dom rows" and "\<forall>i \<in> set order. Open key (the (rows i)) [] = Ok (plain i)"
  shows "sanity_check key order rows p =
    (Ok (), p\<lparr>pr_out := pr_out p @ map (\<lambda>i. Printf (lines [''  %s = %s'', '''']) [Str i, Str (plain i)]) order\<rparr>)"
  using assms by (induction order arbitrary: p) (auto simp: printf_def)

lemma EncryptCBC_obtain:
  assumes "length key = 32" and "k + 16 \<le> length (rd_data rnd)"
  obtains c where "EncryptCBC key pt (skip k rnd) = (Ok c, skip (k + 16) rnd)" and "OpenAuto key c [] = Ok pt"
proof -
  have "16 \<le> length (rd_data (skip k rnd))" using assms(2) by simp
  then obtain c where c: "EncryptCBC key pt (skip k rnd) = (Ok c, skip (k + 16) rnd)"
    using EncryptCBC_returns [of key "skip k rnd" pt] assms(1) by (auto simp: aes_key_size_def add.commute)
  have "OpenAuto key c [] = Ok pt"
    using EncryptCBC_DecryptCBC [OF c] EncryptCBC_not_Open [OF c] by (simp add: OpenAuto_eq)
  with c show thesis by (rule that)
qed

text \<open>The four rows of the table and the secrets they hold.\<close>

definition secrets :: "gostring \<rightharpoonup> gostring" where
  "secrets = [lit ''row_0'' \<mapsto> lit ''sk_live_aaaa1111'', lit ''row_1'' \<mapsto> lit ''sk_live_bbbb2222'',
     lit ''row_2'' \<mapsto> lit ''sk_live_cccc3333'', lit ''row_3'' \<mapsto> lit ''sk_live_dddd4444'']"

lemma row_names:
  "lit ''row_'' @ FormatInt 0 = lit ''row_0''" "lit ''row_'' @ FormatInt 1 = lit ''row_1''"
  "lit ''row_'' @ FormatInt 2 = lit ''row_2''"
  by (simp_all add: FormatInt_def decimal.simps digit_def lit_def)

text \<open>
  Whatever order Go picks for each loop, the program returns, no row fails, every row is counted as migrated
  or skipped, and the sanity check prints the secret of every row.
\<close>

lemma migration_outcome:
  assumes rnd: "108 \<le> length (rd_data (pr_rand p))" and "distinct order2"
    and "set order1 = dom secrets" "set order2 = dom secrets" "set order3 = dom secrets" "set order4 = dom secrets"
  shows "\<exists>old new migrated skipped. migrated + skipped = 4 \<and>
    migration_main order1 order2 order3 order4 p = (Ok (), after 108
      ([Println [Str (lit ''--- before migration ---'')]] @
       map (\<lambda>i. Printf (lines [''  %s = %s...'', '''']) [Str i, Str (take 32 (old i))]) order1 @
       [Printf (lines ['''', ''--- migration result ---'', '''']) [],
        Printf (lines [''migrated: %d'', ''skipped:  %d'', ''errored:  %d'', '''', '''']) [Num (int migrated), Num (int skipped), Num 0],
        Println [Str (lit ''--- after migration ---'')]] @
       map (\<lambda>i. Printf (lines [''  %s = %s...'', '''']) [Str i, Str (take 32 (new i))]) order3 @
       [Println [Str (lit (lines ['''', ''--- sanity check (all rows decrypt with crypt.Open) ---'']))]] @
       map (\<lambda>i. Printf (lines [''  %s = %s'', '''']) [Str i, Str (the (secrets i))]) order4) p)"
proof -
  define key where "key = lit ''01234567890123456789012345678901''"
  have key: "length key = 32" by (simp add: key_def lit_def)
  let ?r = "pr_rand p"
  obtain c0 where c0: "EncryptCBC key (lit ''sk_live_aaaa1111'') ?r = (Ok c0, skip 16 ?r)" "OpenAuto key c0 [] = Ok (lit ''sk_live_aaaa1111'')"
    using EncryptCBC_obtain [OF key, of 0 ?r "lit ''sk_live_aaaa1111''"] rnd by auto
  obtain c1 where c1: "EncryptCBC key (lit ''sk_live_bbbb2222'') (skip 16 ?r) = (Ok c1, skip 32 ?r)" "OpenAuto key c1 [] = Ok (lit ''sk_live_bbbb2222'')"
    using EncryptCBC_obtain [OF key, of 16 ?r "lit ''sk_live_bbbb2222''"] rnd by auto
  obtain c2 where c2: "EncryptCBC key (lit ''sk_live_cccc3333'') (skip 32 ?r) = (Ok c2, skip 48 ?r)" "OpenAuto key c2 [] = Ok (lit ''sk_live_cccc3333'')"
    using EncryptCBC_obtain [OF key, of 32 ?r "lit ''sk_live_cccc3333''"] rnd by auto
  have l: "length (lit ''sk_live_dddd4444'') \<le> gcm_max" "12 \<le> length (rd_data (skip 48 ?r))"
    using rnd by (simp_all add: lit_def gcm_max_def)
  then obtain c3 where c3: "Seal key (lit ''sk_live_dddd4444'') [] (skip 48 ?r) = (Ok c3, skip 60 ?r)"
    using Seal_returns [OF key l, of "[]"] by (auto simp: add.commute)
  have o3: "OpenAuto key c3 [] = Ok (lit ''sk_live_dddd4444'')"
    using Seal_Open [OF c3] by (simp add: OpenAuto_eq)
  define rows where "rows = [lit ''row_0'' \<mapsto> c0, lit ''row_1'' \<mapsto> c1, lit ''row_2'' \<mapsto> c2, lit ''row_3'' \<mapsto> c3]"
  have dom: "dom rows = dom secrets" by (simp add: rows_def secrets_def)
  have auto: "OpenAuto key ct [] = Ok (the (secrets i))" if "rows i = Some ct" for i ct
    using that c0(2) c1(2) c2(2) o3 by (auto simp: rows_def secrets_def split: if_splits)
  have "length (the (secrets i)) \<le> gcm_max" if "rows i = Some ct" for i ct
    using that by (auto simp: rows_def secrets_def lit_def gcm_max_def split: if_splits)
  with auto have rs: "rows_sealable key rows order2" "rows_readable key rows order2"
    by (auto simp: rows_sealable_def rows_readable_def sealable_def list_all_iff split: option.split)
  let ?m = "\<lparr>db_rows = rows, mg_migrated = 0, mg_skipped = 0, mg_errored = 0\<rparr>"
  have n: "length order2 = 4"
  proof -
    have "card (dom secrets) = 4" by (simp add: secrets_def lit_def)
    with assms(2,4) show ?thesis by (metis distinct_card)
  qed
  define q where "q = p\<lparr>pr_rand := skip 60 ?r, pr_out := pr_out p @ [Println [Str (lit ''--- before migration ---'')]] @
      map (\<lambda>i. Printf (lines [''  %s = %s...'', '''']) [Str i, Str (take 32 (the (rows i)))]) order1\<rparr>"
  have "set order2 \<subseteq> dom (db_rows ?m)" "12 * length order2 \<le> length (rd_data (pr_rand q))" "rows_sealable key (db_rows ?m) order2"
    using assms(4) dom rnd n rs by (simp_all add: q_def)
  from migrate_loop_effect [OF key assms(2) this] rs(2) obtain m where
    m: "migrate_loop key order2 (?m, q) = (Ok (), m, q\<lparr>pr_rand := skip 48 (pr_rand q)\<rparr>)" "dom (db_rows m) = dom rows"
      "\<And>i oldCt. i \<in> set order2 \<Longrightarrow> rows i = Some oldCt \<Longrightarrow> \<exists>ct. db_rows m i = Some ct \<and> row_done key oldCt ct"
      "mg_migrated m + mg_skipped m = 4" "mg_errored m = 0"
    by (auto simp: n)
  have opened: "\<forall>i \<in> set order4. Open key (the (db_rows m i)) [] = Ok (the (secrets i))"
  proof
    fix i assume "i \<in> set order4"
    then have i: "i \<in> set order2" "i \<in> dom rows" using assms(4,6) dom by auto
    then obtain oldCt where "rows i = Some oldCt" by auto
    with m(3) [OF i(1)] auto show "Open key (the (db_rows m i)) [] = Ok (the (secrets i))"
      by (force simp: row_done_def)
  qed
  have prepared: "setup_rows key 0 [lit ''sk_live_aaaa1111'', lit ''sk_live_bbbb2222'', lit ''sk_live_cccc3333''] (\<lparr>db_rows = (\<lambda>_. None)\<rparr>, p) =
      (Ok (), \<lparr>db_rows = [lit ''row_0'' \<mapsto> c0, lit ''row_1'' \<mapsto> c1, lit ''row_2'' \<mapsto> c2]\<rparr>, p\<lparr>pr_rand := skip 48 ?r\<rparr>)"
    by (simp add: draw_def c0 c1 c2 row_names)
  have sub: "set order1 \<subseteq> dom rows" "set order3 \<subseteq> dom (db_rows m)" "set order4 \<subseteq> dom (db_rows m)"
    using assms(3-6) dom m(2) by simp_all
  show ?thesis
    by (rule exI [of _ "\<lambda>i. the (rows i)"], rule exI [of _ "\<lambda>i. the (db_rows m i)"],
        rule exI [of _ "mg_migrated m"], rule exI [of _ "mg_skipped m"])
      (simp add: m(4) migration_main_def prepared console_simps c3 print_rows_output [OF sub(1)] print_rows_output [OF sub(2)]
        sanity_check_output [OF sub(3) opened] m(1,5) [unfolded q_def, simplified] del: setup_rows.simps flip: key_def rows_def)
qed

subsection \<open>Properties\<close>

text \<open>Property C39: migrating a table of mixed CBC and AEAD rows finishes, visits every row once and keeps the set of
  rows; afterwards \<^verbatim>\<open>Open\<close> reads every row that \<open>OpenAuto\<close> could read before, to the same plaintext, and
  the rows that could not be read are unchanged.\<close>

theorem migration_preserves_data:
  assumes "length key = 32" and "distinct order" and "set order = dom rows"
    and "12 * length order \<le> length (rd_data (pr_rand p))" and "rows_sealable key rows order"
  shows "\<exists>m p'. migrate_loop key order (\<lparr>db_rows = rows, mg_migrated = 0, mg_skipped = 0, mg_errored = 0\<rparr>, p) =
      (Ok (), m, p') \<and>
    mg_migrated m + mg_skipped m + mg_errored m = length order \<and> dom (db_rows m) = dom rows \<and>
    (\<forall>i ct. rows i = Some ct \<longrightarrow> (\<exists>ct'. db_rows m i = Some ct' \<and>
       (if is_ok (OpenAuto key ct []) then Open key ct' [] = OpenAuto key ct [] else ct' = ct)))"
proof -
  let ?m = "\<lparr>db_rows = rows, mg_migrated = 0, mg_skipped = 0, mg_errored = 0\<rparr>"
  have "set order \<subseteq> dom (db_rows ?m)" "rows_sealable key (db_rows ?m) order" using assms(3,5) by simp_all
  from migrate_loop_effect [OF assms(1,2) this(1) assms(4) this(2)] obtain m p' where
    m: "migrate_loop key order (?m, p) = (Ok (), m, p')" "dom (db_rows m) = dom rows"
      "\<And>i ct. i \<in> set order \<Longrightarrow> rows i = Some ct \<Longrightarrow> \<exists>ct'. db_rows m i = Some ct' \<and> row_done key ct ct'"
      "mg_migrated m + mg_skipped m + mg_errored m = length order"
    by auto
  have "\<exists>ct'. db_rows m i = Some ct' \<and> row_done key ct ct'" if "rows i = Some ct" for i ct
    using m(3) [OF _ that] that assms(3) by auto
  with m(1,2,4) show ?thesis unfolding row_done_def by blast
qed

lemma migration_preserves_data_witness:
  "\<exists>c ct'. EncryptCBC (replicate 32 1) [5] \<lparr>rd_data = replicate 16 0, rd_end = EOF\<rparr> = (Ok c, \<lparr>rd_data = [], rd_end = EOF\<rparr>) \<and>
     (\<exists>m p'. migrate_loop (replicate 32 1) [lit ''row''] (\<lparr>db_rows = [lit ''row'' \<mapsto> c], mg_migrated = 0,
        mg_skipped = 0, mg_errored = 0\<rparr>, \<lparr>pr_rand = \<lparr>rd_data = replicate 12 0, rd_end = EOF\<rparr>, pr_out = []\<rparr>) = (Ok (), m, p') \<and>
      db_rows m (lit ''row'') = Some ct' \<and> Open (replicate 32 1) ct' [] = Ok [5])"
proof -
  let ?key = "replicate 32 (1 :: byte)" and ?row = "lit ''row''"
    and ?p = "\<lparr>pr_rand = \<lparr>rd_data = replicate 12 0, rd_end = EOF\<rparr>, pr_out = []\<rparr>"
  obtain c where c: "EncryptCBC ?key [5] \<lparr>rd_data = replicate 16 0, rd_end = EOF\<rparr> = (Ok c, \<lparr>rd_data = [], rd_end = EOF\<rparr>)"
    using EncryptCBC_returns [of ?key "\<lparr>rd_data = replicate 16 0, rd_end = EOF\<rparr>" "[5]"] by (auto simp: aes_key_size_def)
  have auto: "OpenAuto ?key c [] = Ok [5]"
    using EncryptCBC_DecryptCBC [OF c] EncryptCBC_not_Open [OF c] by (simp add: OpenAuto_eq)
  have key: "length ?key = 32" by simp
  have order: "distinct [?row]" "set [?row] = dom [?row \<mapsto> c]" by auto
  have rnd: "12 * length [?row] \<le> length (rd_data (pr_rand ?p))" by simp
  have "rows_sealable ?key [?row \<mapsto> c] [?row]"
    by (simp add: rows_sealable_def sealable_def auto gcm_max_def)
  from migration_preserves_data [OF key order rnd this] obtain m p' where
    m: "migrate_loop ?key [?row] (\<lparr>db_rows = [?row \<mapsto> c], mg_migrated = 0, mg_skipped = 0, mg_errored = 0\<rparr>, ?p) =
        (Ok (), m, p')"
      "\<forall>i ct. [?row \<mapsto> c] i = Some ct \<longrightarrow> (\<exists>ct'. db_rows m i = Some ct' \<and>
        (if is_ok (OpenAuto ?key ct []) then Open ?key ct' [] = OpenAuto ?key ct [] else ct' = ct))"
    by blast
  have "[?row \<mapsto> c] ?row = Some c" by simp
  with m(2) obtain ct' where "db_rows m ?row = Some ct'" "Open ?key ct' [] = Ok [5]"
    using auto by (metis is_ok.simps(1))
  with c m(1) show ?thesis by blast
qed

end
