(* ===== verification/Login.thy ===== *)
theory Login
  imports Password Bcrypt
begin

text \<open>
  \<^verbatim>\<open>src/examples/bcrypt_migration/main.go\<close>: a login that verifies a bcrypt hash and replaces it by an argon2id
  one, and \<^verbatim>\<open>src/examples/hash_password/main.go\<close>, registration and login against argon2id hashes. The user
  record, or the table of them, is the state; \<open>IDKey\<close> and \<open>Compare\<close> are the two third-party hash functions.
\<close>

subsection \<open>Model\<close>

record fakeUser =
  user_Email :: gostring
  user_PasswordHash :: gostring

definition loginAndRehash ::
    "idkey \<Rightarrow> (bytes \<Rightarrow> bytes \<Rightarrow> error option) \<Rightarrow> fakeUser \<Rightarrow> gostring \<Rightarrow> reader \<Rightarrow> unit res \<times> fakeUser \<times> reader" where
  "loginAndRehash IDKey Compare u plaintext rnd =
     (if HasPrefix (user_PasswordHash u) (lit ''$2'') then
        (case VerifyPasswordBcrypt Compare plaintext (user_PasswordHash u) of
           Err e \<Rightarrow> (Err e, u, rnd)
         | Panic \<Rightarrow> (Panic, u, rnd)
         | Ok matched \<Rightarrow>
             if \<not> matched then (Err (Msg ''invalid credentials''), u, rnd)
             else
               (case HashPassword IDKey plaintext rnd of
                  (Err e, rnd) \<Rightarrow> (Err e, u, rnd)
                | (Panic, rnd) \<Rightarrow> (Panic, u, rnd)
                | (Ok newHash, rnd) \<Rightarrow> (Ok (), u\<lparr>user_PasswordHash := newHash\<rparr>, rnd)))
      else if HasPrefix (user_PasswordHash u) (lit ''$argon2'') then
        (case VerifyPassword IDKey plaintext (user_PasswordHash u) of
           Err e \<Rightarrow> (Err e, u, rnd)
         | Panic \<Rightarrow> (Panic, u, rnd)
         | Ok matched \<Rightarrow> if \<not> matched then (Err (Msg ''invalid credentials''), u, rnd) else (Ok (), u, rnd))
      else (Err (Msg ''unknown password hash format''), u, rnd))"

text \<open>
  \<^verbatim>\<open>src/examples/hash_password/main.go\<close>: registration and login over a table of such records, keyed by email.
\<close>

type_synonym users = "gostring \<rightharpoonup> fakeUser"

definition register ::
    "idkey \<Rightarrow> gostring \<Rightarrow> gostring \<Rightarrow> users \<times> reader \<Rightarrow> unit res \<times> users \<times> reader" where
  "register IDKey email password = (\<lambda>(us, rnd).
     (case us email of
        Some u \<Rightarrow> (Err (Msg ''email already registered''), us, rnd)
      | None \<Rightarrow>
          (case HashPassword IDKey password rnd of
             (Err e, rnd) \<Rightarrow> (Err (Wrap ''hash: %w'' e), us, rnd)
           | (Panic, rnd) \<Rightarrow> (Panic, us, rnd)
           | (Ok hash, rnd) \<Rightarrow>
               (Ok (), us(email \<mapsto> \<lparr>user_Email = email, user_PasswordHash = hash\<rparr>), rnd))))"

definition login :: "idkey \<Rightarrow> gostring \<Rightarrow> gostring \<Rightarrow> users \<Rightarrow> unit res" where
  "login IDKey email password us =
     (case us email of
        None \<Rightarrow> Err (Msg ''invalid credentials'')
      | Some u \<Rightarrow>
          and_then (or_err (Wrap ''verify: %w'') (VerifyPassword IDKey password (user_PasswordHash u))) (\<lambda>matched.
          if \<not> matched then Err (Msg ''invalid credentials'') else Ok ()))"

subsection \<open>The hash formats are told apart\<close>

lemma formatPHC_prefix:
  "HasPrefix (formatPHC salt hash) (lit ''$argon2'')" "\<not> HasPrefix (formatPHC salt hash) (lit ''$2'')"
  by (simp_all add: HasPrefix_def formatPHC_def argonAlgo_def lit_def)

lemma login_refused:
  "fst (loginAndRehash IDKey Compare u pw rnd) \<noteq> Ok () \<Longrightarrow> fst (snd (loginAndRehash IDKey Compare u pw rnd)) = u"
  by (auto simp: loginAndRehash_def split: res.splits prod.splits if_splits)

lemma login_argon2:
  assumes "salt \<noteq> []" and "length h = 32" and "user_PasswordHash u = formatPHC salt h"
  shows "loginAndRehash IDKey Compare u pw rnd =
    (case IDKey pw salt 2 65536 1 32 of
       Ok h' \<Rightarrow> ((if h' = h then Ok () else Err (Msg ''invalid credentials'')), u, rnd)
     | Err e \<Rightarrow> (Err e, u, rnd) | Panic \<Rightarrow> (Panic, u, rnd))"
  using formatPHC_prefix [of salt h] VerifyPassword_formatPHC [OF assms(1,2), of IDKey pw]
  by (cases "IDKey pw salt 2 65536 1 32") (simp_all add: loginAndRehash_def assms(3))

subsection \<open>Registration and login\<close>

lemma register_keeps:
  assumes "register IDKey email pw (us, rnd) = (r, us', rnd')"
  shows "us email' = Some u \<Longrightarrow> us' email' = Some u" and "r \<noteq> Ok () \<Longrightarrow> us' = us"
  using assms by (auto simp: register_def split: option.splits prod.splits res.splits)

lemma register_login:
  assumes "argon2_spec IDKey" and "16 \<le> length (rd_data rnd)" and "us email = None"
  shows "\<exists>us'. register IDKey email pw (us, rnd) = (Ok (), us', rnd\<lparr>rd_data := drop 16 (rd_data rnd)\<rparr>) \<and>
    login IDKey email pw us' = Ok () \<and> (email' \<noteq> email \<longrightarrow> login IDKey email' pw' us' = login IDKey email' pw' us)"
proof -
  have salt: "take 16 (rd_data rnd) \<noteq> []" using assms(2) by auto
  obtain h where h: "length h = 32" "IDKey pw (take 16 (rd_data rnd)) 2 65536 1 32 = Ok h"
      "HashPassword IDKey pw rnd = (Ok (formatPHC (take 16 (rd_data rnd)) h), rnd\<lparr>rd_data := drop 16 (rd_data rnd)\<rparr>)"
    using HashPassword_returns [OF assms(1,2)] by blast
  with assms(3) VerifyPassword_formatPHC [OF salt h(1), of IDKey pw] show ?thesis
    by (simp add: register_def login_def)
qed

subsection \<open>The tables registration can build\<close>

inductive users_reachable :: "idkey \<Rightarrow> users \<Rightarrow> bool" for IDKey where
  users_empty: "users_reachable IDKey Map.empty"
| users_register: "users_reachable IDKey us \<Longrightarrow> users_reachable IDKey (fst (snd (register IDKey email pw (us, rnd))))"

text \<open>A record is stored under its own email, with a hash of 16 bytes of salt and 32 of key derived from some password.\<close>

definition user_good :: "idkey \<Rightarrow> gostring \<Rightarrow> fakeUser \<Rightarrow> bool" where
  "user_good IDKey email u \<longleftrightarrow> user_Email u = email \<and>
     (\<exists>pw salt h. length salt = 16 \<and> length h = 32 \<and> IDKey pw salt 2 65536 1 32 = Ok h \<and>
        user_PasswordHash u = formatPHC salt h)"

lemma register_good:
  assumes "argon2_spec IDKey" and "\<And>e u. us e = Some u \<Longrightarrow> user_good IDKey e u"
    and "fst (snd (register IDKey email pw (us, rnd))) e = Some u"
  shows "user_good IDKey e u"
proof (cases "us email = None \<and> 16 \<le> length (rd_data rnd)")
  case True
  then obtain h where h: "length h = 32" "IDKey pw (take 16 (rd_data rnd)) 2 65536 1 32 = Ok h"
      "HashPassword IDKey pw rnd = (Ok (formatPHC (take 16 (rd_data rnd)) h), rnd\<lparr>rd_data := drop 16 (rd_data rnd)\<rparr>)"
    using HashPassword_returns [OF assms(1)] by blast
  have "length (take 16 (rd_data rnd)) = 16" using True by simp
  with h(1,2) have "user_good IDKey email \<lparr>user_Email = email, user_PasswordHash = formatPHC (take 16 (rd_data rnd)) h\<rparr>"
    unfolding user_good_def fakeUser.select_convs by blast
  with assms(2,3) h(3) True show ?thesis by (auto simp: register_def split: if_splits)
next
  case False
  have "fst (HashPassword IDKey pw rnd) \<noteq> Ok hash" if "\<not> 16 \<le> length (rd_data rnd)" for hash
    using that by (auto simp: HashPassword_def argonSaltLen_def read_rand_def ReadFull_def)
  with False have "fst (snd (register IDKey email pw (us, rnd))) = us"
    by (auto simp: register_def split: option.split prod.split res.split) (metis fst_conv)+
  with assms(2,3) show ?thesis by simp
qed

lemma users_reachable_good:
  "users_reachable IDKey us \<Longrightarrow> argon2_spec IDKey \<Longrightarrow> us e = Some u \<Longrightarrow> user_good IDKey e u"
proof (induction arbitrary: e u rule: users_reachable.induct)
  case (users_register us email pw rnd)
  from users_register.prems(1) users_register.IH [OF users_register.prems(1)] users_register.prems(2) show ?case
    by (rule register_good)
qed simp

subsection \<open>Properties\<close>

text \<open>Property C35: the first login with the right password against a bcrypt hash succeeds and replaces the hash by an
  argon2id one; the next login with it succeeds without another change; and any other password logs in
  then exactly when argon2id derives the same key from it. A refused login changes nothing.\<close>

theorem login_migrates_hash:
  assumes "argon2_spec IDKey" and "16 \<le> length (rd_data rnd)"
    and "HasPrefix (user_PasswordHash u) (lit ''$2'')"
    and "VerifyPasswordBcrypt Compare pw (user_PasswordHash u) = Ok True"
  shows "\<exists>u'. loginAndRehash IDKey Compare u pw rnd = (Ok (), u', rnd\<lparr>rd_data := drop 16 (rd_data rnd)\<rparr>) \<and>
    HasPrefix (user_PasswordHash u') (lit ''$argon2'') \<and> user_Email u' = user_Email u \<and>
    loginAndRehash IDKey Compare u' pw rnd2 = (Ok (), u', rnd2) \<and>
    (fst (loginAndRehash IDKey Compare u' pw' rnd2) = Ok () \<longleftrightarrow>
      IDKey pw' (take 16 (rd_data rnd)) 2 65536 1 32 = IDKey pw (take 16 (rd_data rnd)) 2 65536 1 32) \<and>
    (fst (loginAndRehash IDKey Compare u'' pw' rnd2) = Ok () \<or> fst (snd (loginAndRehash IDKey Compare u'' pw' rnd2)) = u'')"
proof -
  let ?salt = "take 16 (rd_data rnd)"
  have salt: "?salt \<noteq> []" using assms(2) by auto
  obtain h where h: "length h = 32" "IDKey pw ?salt 2 65536 1 32 = Ok h"
      "HashPassword IDKey pw rnd = (Ok (formatPHC ?salt h), rnd\<lparr>rd_data := drop 16 (rd_data rnd)\<rparr>)"
    using HashPassword_returns [OF assms(1,2)] by blast
  let ?u = "u\<lparr>user_PasswordHash := formatPHC ?salt h\<rparr>"
  have first: "loginAndRehash IDKey Compare u pw rnd = (Ok (), ?u, rnd\<lparr>rd_data := drop 16 (rd_data rnd)\<rparr>)"
    using assms(3,4) h(3) by (simp add: loginAndRehash_def)
  obtain h' where h': "IDKey pw' ?salt 2 65536 1 32 = Ok h'"
    using argon2_specD(1) [OF assms(1), of 2 1 pw' ?salt 65536 32] by auto
  have "user_PasswordHash ?u = formatPHC ?salt h" by simp
  note again = login_argon2 [OF salt h(1) this]
  have one: "loginAndRehash IDKey Compare ?u pw rnd2 = (Ok (), ?u, rnd2)"
    using again [of IDKey Compare pw rnd2] h(2) by simp
  have other: "fst (loginAndRehash IDKey Compare ?u pw' rnd2) = Ok () \<longleftrightarrow> h' = h"
    using again [of IDKey Compare pw' rnd2] h' by simp
  have refused: "fst (loginAndRehash IDKey Compare u'' pw' rnd2) = Ok () \<or>
      fst (snd (loginAndRehash IDKey Compare u'' pw' rnd2)) = u''"
    using login_refused by blast
  have "HasPrefix (user_PasswordHash ?u) (lit ''$argon2'')" by (simp add: formatPHC_prefix(1))
  then show ?thesis using first one other refused h(2) h' by (intro exI [of _ ?u]) simp
qed

lemma login_migrates_hash_witness:
  "\<exists>u'. loginAndRehash sample_IDKey sample_Compare \<lparr>user_Email = lit ''a@b'', user_PasswordHash = lit ''$2a$pw''\<rparr>
      (lit ''pw'') \<lparr>rd_data = replicate 16 1, rd_end = EOF\<rparr> = (Ok (), u', \<lparr>rd_data = [], rd_end = EOF\<rparr>) \<and>
     HasPrefix (user_PasswordHash u') (lit ''$argon2'')"
proof -
  let ?u = "\<lparr>user_Email = lit ''a@b'', user_PasswordHash = lit ''$2a$pw''\<rparr>"
  have "HasPrefix (user_PasswordHash ?u) (lit ''$2'')"
    "VerifyPasswordBcrypt sample_Compare (lit ''pw'') (user_PasswordHash ?u) = Ok True"
    by (simp_all add: HasPrefix_def lit_def VerifyPasswordBcrypt_def sample_Compare_def)
  note login_migrates_hash [OF sample_IDKey_spec _ this, of "\<lparr>rd_data = replicate 16 1, rd_end = EOF\<rparr>"
      "\<lparr>rd_data = [], rd_end = EOF\<rparr>" "[]" ?u]
  then show ?thesis by simp blast
qed

text \<open>Property C36: in every table that registrations build from the empty one, whatever passwords and randomness they
  get and whether they succeed or not, a record is stored under its own email with the argon2id hash of
  some password; a login then either succeeds, exactly with the passwords from which argon2id derives the
  stored key, or is refused as invalid credentials: no stored hash makes it fail in another way.\<close>

theorem registered_users_login:
  assumes "argon2_spec IDKey" and "users_reachable IDKey us"
  shows "(case us email of
      None \<Rightarrow> login IDKey email pw us = Err (Msg ''invalid credentials'')
    | Some u \<Rightarrow> user_Email u = email \<and>
        (\<exists>pw' salt h. length salt = 16 \<and> length h = 32 \<and> IDKey pw' salt 2 65536 1 32 = Ok h \<and>
          user_PasswordHash u = formatPHC salt h \<and> login IDKey email pw' us = Ok () \<and>
          login IDKey email pw us =
            (if IDKey pw salt 2 65536 1 32 = Ok h then Ok () else Err (Msg ''invalid credentials''))))"
proof (cases "us email")
  case (Some u)
  then obtain pw' salt h where u: "user_Email u = email" "length salt = 16" "length h = 32"
      "IDKey pw' salt 2 65536 1 32 = Ok h" "user_PasswordHash u = formatPHC salt h"
    using users_reachable_good [OF assms(2,1)] unfolding user_good_def by blast
  have salt: "salt \<noteq> []" using u(2) by auto
  obtain h' where h': "IDKey pw salt 2 65536 1 32 = Ok h'"
    using argon2_specD(1) [OF assms(1), of 2 1 pw salt 65536 32] by auto
  have "login IDKey email pw us = (if h' = h then Ok () else Err (Msg ''invalid credentials''))"
    "login IDKey email pw' us = Ok ()"
    using VerifyPassword_formatPHC [OF salt u(3), of IDKey] u(4) h' by (simp_all add: login_def Some u(5))
  moreover have "IDKey pw salt 2 65536 1 32 = Ok h \<longleftrightarrow> h' = h" using h' by simp
  ultimately show ?thesis using u unfolding Some option.case by metis
qed (simp add: login_def)

lemma registered_users_login_witness:
  "\<exists>us. users_reachable sample_IDKey us \<and> us (lit ''a@b'') \<noteq> None \<and>
     (\<exists>u. us (lit ''a@b'') = Some u \<and> user_Email u = lit ''a@b'')"
proof -
  let ?us = "fst (snd (register sample_IDKey (lit ''a@b'') (lit ''pw'') (Map.empty, \<lparr>rd_data = replicate 16 1, rd_end = EOF\<rparr>)))"
  have r: "users_reachable sample_IDKey ?us" by (intro users_reachable.intros)
  obtain us' rnd' where reg: "register sample_IDKey (lit ''a@b'') (lit ''pw'') (Map.empty, \<lparr>rd_data = replicate 16 1, rd_end = EOF\<rparr>) =
      (Ok (), us', rnd')" "login sample_IDKey (lit ''a@b'') (lit ''pw'') us' = Ok ()"
    using register_login [OF sample_IDKey_spec, of "\<lparr>rd_data = replicate 16 1, rd_end = EOF\<rparr>" Map.empty "lit ''a@b''" "lit ''pw''" "[]" "[]"]
    by auto
  then obtain u where "?us (lit ''a@b'') = Some u" by (cases "us' (lit ''a@b'')") (simp_all add: login_def)
  with registered_users_login [OF sample_IDKey_spec r, of "lit ''a@b''" "lit ''pw''"] r show ?thesis
    by (intro exI [of _ ?us]) simp
qed

end
