(* ===== verification/Usage.thy ===== *)
theory Usage
  imports Sign Aead Hkdf Timelock
begin

text \<open>
  The smaller programs of \<^verbatim>\<open>src/examples\<close> with logic of their own: the multi-key reader of \<^verbatim>\<open>key_rotation\<close>, the
  file store of \<^verbatim>\<open>encrypted_file\<close>, the key derivation of \<^verbatim>\<open>tenant_keys\<close> and the check of \<^verbatim>\<open>api_key_check\<close>.
\<close>

subsection \<open>\<^verbatim>\<open>key_rotation\<close>\<close>

record MultiKeyReader =
  mk_keys :: "bytes list"

definition NewMultiKeyReader :: "bytes \<Rightarrow> bytes list \<Rightarrow> MultiKeyReader" where
  "NewMultiKeyReader active retired = \<lparr>mk_keys = active # retired\<rparr>"

fun try_keys :: "bytes list \<Rightarrow> gostring \<Rightarrow> bytes \<Rightarrow> error option \<Rightarrow> bytes res" where
  "try_keys [] ciphertext aad lastErr =
     (case lastErr of None \<Rightarrow> Err (Msg ''no keys configured'') | Some e \<Rightarrow> Err e)"
| "try_keys (k # ks) ciphertext aad lastErr =
     (case Open k ciphertext aad of
        Ok pt \<Rightarrow> Ok pt
      | Err e \<Rightarrow> try_keys ks ciphertext aad (Some e)
      | Panic \<Rightarrow> Panic)"

definition MultiKeyReader_Open :: "MultiKeyReader \<Rightarrow> gostring \<Rightarrow> bytes \<Rightarrow> bytes res" where
  "MultiKeyReader_Open m ciphertext aad = try_keys (mk_keys m) ciphertext aad None"

lemma try_keys_ok: "is_ok (try_keys ks s a e) \<longleftrightarrow> list_ex (\<lambda>k. is_ok (Open k s a)) ks"
proof (induction ks arbitrary: e)
  case (Cons k ks)
  show ?case using Cons Open_no_panic [of k s a] by (cases "Open k s a") simp_all
qed (simp split: option.split)

lemma try_keys_plaintext: "try_keys ks s a e = Ok p \<Longrightarrow> list_ex (\<lambda>k. Open k s a = Ok p) ks"
  by (induction ks arbitrary: e) (auto split: option.splits res.splits)

lemma MultiKeyReader_Open_iff:
  "is_ok (MultiKeyReader_Open (NewMultiKeyReader active retired) s a) \<longleftrightarrow>
     list_ex (\<lambda>k. is_ok (Open k s a)) (active # retired)"
  using try_keys_ok [of "active # retired" s a None] by (simp add: MultiKeyReader_Open_def NewMultiKeyReader_def)

subsection \<open>\<^verbatim>\<open>encrypted_file\<close>\<close>

text \<open>The file system is a map from paths to contents; writing can fail with \<open>fs_err\<close>.\<close>

record filesystem =
  fs_files :: "gostring \<rightharpoonup> bytes"
  fs_err :: "error option"

definition os_WriteFile :: "gostring \<Rightarrow> bytes \<Rightarrow> filesystem \<Rightarrow> unit res \<times> filesystem" where
  "os_WriteFile path data fs =
     (case fs_err fs of Some e \<Rightarrow> (Err e, fs) | None \<Rightarrow> (Ok (), fs\<lparr>fs_files := (fs_files fs)(path \<mapsto> data)\<rparr>))"

definition os_ReadFile :: "gostring \<Rightarrow> filesystem \<Rightarrow> bytes res" where
  "os_ReadFile path fs = of_option (Msg ''no such file or directory'') (fs_files fs path)"

definition writeEncrypted ::
    "Sealer \<Rightarrow> gostring \<Rightarrow> bytes \<Rightarrow> bytes \<Rightarrow> filesystem \<times> reader \<Rightarrow> unit res \<times> filesystem \<times> reader" where
  "writeEncrypted sealer path plaintext aad = (\<lambda>(fs, rnd).
     (case Sealer_Seal sealer plaintext aad rnd of
        (Err e, rnd) \<Rightarrow> (Err e, fs, rnd)
      | (Panic, rnd) \<Rightarrow> (Panic, fs, rnd)
      | (Ok ct, rnd) \<Rightarrow> (let (r, fs) = os_WriteFile path ct fs in (r, fs, rnd))))"

definition readEncrypted :: "Sealer \<Rightarrow> gostring \<Rightarrow> bytes \<Rightarrow> filesystem \<Rightarrow> bytes res" where
  "readEncrypted sealer path aad fs =
     and_then (os_ReadFile path fs) (\<lambda>raw. Sealer_Open sealer raw aad)"

lemma readEncrypted_writeEncrypted:
  assumes "NewSealer key = Ok s" and "writeEncrypted s path p a (fs, rnd) = (Ok (), fs', rnd')"
  shows "readEncrypted s path a fs' = Ok p \<and>
    (path' \<noteq> path \<longrightarrow> readEncrypted s path' b fs' = readEncrypted s path' b fs)"
proof -
  obtain ct where ct: "Sealer_Seal s p a rnd = (Ok ct, rnd')" "fs' = fs\<lparr>fs_files := (fs_files fs)(path \<mapsto> ct)\<rparr>"
    using assms(2) by (auto simp: writeEncrypted_def os_WriteFile_def split: prod.splits res.splits option.splits)
  from Sealer_Seal_Open [OF assms(1) ct(1)] ct(2) show ?thesis by (simp add: readEncrypted_def os_ReadFile_def)
qed

subsection \<open>\<^verbatim>\<open>tenant_keys\<close>\<close>

definition deriveTenantKey :: "(bytes \<Rightarrow> bytes \<Rightarrow> bytes \<Rightarrow> reader) \<Rightarrow> bytes \<Rightarrow> gostring \<Rightarrow> bytes res" where
  "deriveTenantKey hkdf_New rootKey tenantID =
     (case ReadFull AEADKeySize (hkdf_New rootKey [] (lit ''tenant:'' @ tenantID)) of
        ((out, Some e), h) \<Rightarrow> Err e
      | ((out, None), h) \<Rightarrow> Ok out)"

text \<open>The hand-written derivation is the package's, which only adds the check for an empty root key.\<close>

lemma deriveTenantKey_DeriveKey:
  assumes "hkdf_spec hkdf_New" and "rootKey \<noteq> []"
  shows "deriveTenantKey hkdf_New rootKey tenantID = DeriveKey hkdf_New rootKey [] (lit ''tenant:'' @ tenantID) 32"
  using assms by (simp add: deriveTenantKey_def DeriveKey_def hkdf_spec_def AEADKeySize_def ReadFull_enough)

subsection \<open>\<^verbatim>\<open>api_key_check\<close>\<close>

text \<open>A handler maps the request's headers to a status and a body.\<close>

type_synonym handler = "(gostring \<rightharpoonup> gostring) \<Rightarrow> nat \<times> gostring"

definition http_Error :: "gostring \<Rightarrow> nat \<Rightarrow> nat \<times> gostring" where
  "http_Error msg code = (code, msg @ [10])"

definition requireAPIKey :: "bytes \<Rightarrow> handler \<Rightarrow> handler" where
  "requireAPIKey expected inner = (\<lambda>headers.
     let got = (case headers (lit ''X-API-Key'') of None \<Rightarrow> [] | Some v \<Rightarrow> v) in
     if \<not> ConstantTimeEqual got expected then http_Error (lit ''unauthorized'') 401 else inner headers)"

lemma requireAPIKey_iff:
  "expected \<noteq> [] \<Longrightarrow> requireAPIKey expected inner headers =
     (if headers (lit ''X-API-Key'') = Some expected then inner headers else http_Error (lit ''unauthorized'') 401)"
  by (auto simp: requireAPIKey_def ConstantTimeEqual_iff Let_def split: option.split)

subsection \<open>\<^verbatim>\<open>sealer\<close>\<close>

record Service =
  service_sealer :: Sealer

definition NewService :: "Sealer \<Rightarrow> Service" where
  "NewService sealer = \<lparr>service_sealer = sealer\<rparr>"

definition Service_Encrypt :: "Service \<Rightarrow> gostring \<Rightarrow> reader \<Rightarrow> gostring res \<times> reader" where
  "Service_Encrypt s plaintext rnd = Sealer_Seal (service_sealer s) plaintext [] rnd"

definition Service_Decrypt :: "Service \<Rightarrow> gostring \<Rightarrow> gostring res" where
  "Service_Decrypt s ciphertext =
     and_then (Sealer_Open (service_sealer s) ciphertext []) (\<lambda>pt. Ok pt)"

lemma Service_Decrypt_Encrypt:
  assumes "NewSealer key = Ok s" and "Service_Encrypt (NewService s) p rnd = (Ok c, rnd')"
  shows "Service_Decrypt (NewService s) c = Ok p"
  using Sealer_Seal_Open [OF assms(1)] assms(2)
  by (simp add: Service_Encrypt_def Service_Decrypt_def NewService_def)

subsection \<open>\<^verbatim>\<open>seal_with_aad\<close>\<close>

definition issueSession :: "bytes \<Rightarrow> gostring \<Rightarrow> gostring \<Rightarrow> reader \<Rightarrow> gostring res \<times> reader" where
  "issueSession serverKey userID payload rnd =
     (let aad = lit ''user:'' @ userID in Seal serverKey payload aad rnd)"

definition openSession :: "bytes \<Rightarrow> gostring \<Rightarrow> gostring \<Rightarrow> gostring res" where
  "openSession serverKey userID ciphertext =
     (let aad = lit ''user:'' @ userID in and_then (Open serverKey ciphertext aad) (\<lambda>pt. Ok pt))"

lemma openSession_issueSession:
  "issueSession key userID payload rnd = (Ok c, rnd') \<Longrightarrow> openSession key userID c = Ok payload"
  by (simp add: issueSession_def openSession_def Seal_Open)

subsection \<open>\<^verbatim>\<open>time_locked_token\<close>\<close>

definition packExpiryBytes :: "int \<Rightarrow> int \<Rightarrow> bytes" where
  "packExpiryBytes now offset =
     (let expiry = word_of_int (Unix (now + offset)) :: 64 word
      in fold (\<lambda>i out. out[7 - i := ucast (drop_bit (8 * i) expiry)]) [0..<8] (replicate 8 0))"

text \<open>The bytes it packs are those \<open>IssueToken\<close> seals in front of the payload.\<close>

lemma bytes_of_halves:
  "k \<le> 24 \<Longrightarrow> (ucast (drop_bit k (ucast (drop_bit 32 w) :: 32 word)) :: byte) = ucast (drop_bit (k + 32) (w :: 64 word))"
  "k \<le> 24 \<Longrightarrow> (ucast (drop_bit k (ucast w :: 32 word)) :: byte) = ucast (drop_bit k w)"
  by (rule bit_word_eqI; auto simp: bit_simps ac_simps dest: bit_imp_le_length)+

lemma packExpiryBytes_eq: "packExpiryBytes now offset = PutUint64 (word_of_int (Unix (now + offset)))"
proof -
  have upt: "[0..<8] = [0, 1, 2, 3, 4, 5, 6, 7 :: nat]" by (simp add: upt_rec)
  have zeros: "replicate 8 (0 :: byte) = [0, 0, 0, 0, 0, 0, 0, 0]" by (simp add: eval_nat_numeral)
  define w where "w = (word_of_int (Unix (now + offset)) :: 64 word)"
  have "packExpiryBytes now offset = map (\<lambda>i. ucast (drop_bit (8 * i) w)) [7, 6, 5, 4, 3, 2, 1, 0]"
    by (simp add: packExpiryBytes_def Let_def upt zeros flip: w_def)
  also have "\<dots> = PutUint64 w"
    using bytes_of_halves [of 0 w] by (simp add: PutUint64_def PutUint32_def bytes_of_halves)
  finally show ?thesis by (simp add: w_def)
qed

lemma packExpiryBytes_expired:
  assumes "0 \<le> now + offset" and "offset \<le> 0" and "now + offset < 2 ^ 63"
    and "Seal key (packExpiryBytes now offset @ payload) aad rnd = (Ok c, rnd')"
  shows "VerifyToken now key c aad = Err ErrExpired"
proof -
  have "sint (word_of_int (Unix (now + offset)) :: 64 word) = Unix (now + offset)"
    using Unix_bounds [OF assms(1)] assms(3) by (intro sint_expiry) linarith+
  moreover have "Unix (now + offset) \<le> Unix now" unfolding Unix_def using assms(2) by (simp add: zdiv_mono1)
  moreover have "Open key c aad = Ok (PutUint64 (word_of_int (Unix (now + offset))) @ payload)"
    using Seal_Open [OF assms(4)] by (simp add: packExpiryBytes_eq)
  ultimately show ?thesis by (simp add: VerifyToken_sealed)
qed

end
