(* ===== verification/Sessions.thy ===== *)
theory Sessions
  imports Json Timelock
begin

text \<open>
  The examples that seal a JSON document with a time in it: \<^verbatim>\<open>magic_link\<close>, \<^verbatim>\<open>csrf_token\<close>, \<^verbatim>\<open>session_token\<close> and
  \<^verbatim>\<open>encrypted_cookie\<close> of \<^verbatim>\<open>src/examples\<close>. The structs are records, their \<^verbatim>\<open>json\<close> tags the letters of
  \<open>json_field\<close>; the clock is the argument \<open>now\<close>, in nanoseconds. A response is the list of the cookies set
  in it and a request the list of its cookies; the values set are base64url text, which the cookie
  syntax carries unchanged.
\<close>

subsection \<open>Structs with a string and a time\<close>

text \<open>The two fields, and their document with the field names \<open>k\<close> and \<open>t\<close>.\<close>

record stamped =
  st_ID :: gostring
  st_Time :: int

definition json_field :: "byte \<Rightarrow> gostring \<Rightarrow> gostring" where
  "json_field name v = json_quote [name] @ [58] @ v"

definition marshal_stamped :: "byte \<Rightarrow> byte \<Rightarrow> stamped \<Rightarrow> gostring" where
  "marshal_stamped k t x =
     [123] @ json_field k (json_quote (st_ID x)) @ [44] @ json_field t (FormatInt (st_Time x)) @ [125]"

definition stamped_field :: "byte \<Rightarrow> byte \<Rightarrow> gostring \<Rightarrow> json \<Rightarrow> stamped \<Rightarrow> stamped option" where
  "stamped_field k t key v x =
     (if key_matches k key then map_option (\<lambda>s. x\<lparr>st_ID := s\<rparr>) (assign_string v (st_ID x))
      else if key_matches t key then map_option (\<lambda>i. x\<lparr>st_Time := i\<rparr>) (assign_int64 v (st_Time x))
      else Some x)"

definition unmarshal_stamped :: "byte \<Rightarrow> byte \<Rightarrow> gostring \<Rightarrow> stamped option" where
  "unmarshal_stamped k t = Unmarshal (stamped_field k t) \<lparr>st_ID = [], st_Time = 0\<rparr>"

subsection \<open>\<^verbatim>\<open>magic_link\<close>\<close>

definition issueLink :: "int \<Rightarrow> Sealer \<Rightarrow> gostring \<Rightarrow> gostring \<Rightarrow> int \<Rightarrow> reader \<Rightarrow> gostring res \<times> reader" where
  "issueLink now sealer userID purpose ttl rnd =
     (let pt = marshal_stamped 117 101 \<lparr>st_ID = userID, st_Time = Unix (now + ttl)\<rparr>
      in Sealer_Seal sealer pt purpose rnd)"

definition verifyLink :: "int \<Rightarrow> Sealer \<Rightarrow> gostring \<Rightarrow> gostring \<Rightarrow> gostring res" where
  "verifyLink now sealer token purpose =
     and_then (or_err (\<lambda>e. Msg ''invalid token'') (Sealer_Open sealer token purpose)) (\<lambda>pt.
     and_then (of_option (Msg ''invalid token'') (unmarshal_stamped 117 101 pt)) (\<lambda>p.
     if st_Time p \<le> Unix now then Err (Msg ''token expired'') else Ok (st_ID p)))"

subsection \<open>\<^verbatim>\<open>csrf_token\<close>\<close>

definition csrfTTL :: int where
  "csrfTTL = 15 * 60 * 10 ^ 9"

definition IssueCSRF :: "int \<Rightarrow> Sealer \<Rightarrow> gostring \<Rightarrow> reader \<Rightarrow> gostring res \<times> reader" where
  "IssueCSRF now sealer sessionID rnd =
     (let pt = marshal_stamped 115 105 \<lparr>st_ID = sessionID, st_Time = Unix now\<rparr>
      in Sealer_Seal sealer pt (lit ''csrf-v1'') rnd)"

text \<open>The age is a difference of 64-bit integers.\<close>

definition VerifyCSRF :: "int \<Rightarrow> Sealer \<Rightarrow> gostring \<Rightarrow> gostring \<Rightarrow> unit res" where
  "VerifyCSRF now sealer token expectedSession =
     and_then (or_err (\<lambda>e. Msg ''invalid csrf token'') (Sealer_Open sealer token (lit ''csrf-v1''))) (\<lambda>pt.
     and_then (of_option (Msg ''invalid csrf token'') (unmarshal_stamped 115 105 pt)) (\<lambda>p.
     if st_ID p \<noteq> expectedSession then Err (Msg ''csrf token does not belong to this session'')
     else if csrfTTL div 10 ^ 9 < sint (word_of_int (Unix now) - word_of_int (st_Time p) :: 64 word)
     then Err (Msg ''csrf token expired'')
     else Ok ()))"

subsection \<open>\<^verbatim>\<open>encrypted_cookie\<close>\<close>

record http_Cookie =
  ck_Name :: gostring
  ck_Value :: gostring
  ck_HttpOnly :: bool
  ck_SameSiteLax :: bool
  ck_Path :: gostring
  ck_Expires :: int

definition cookieName :: gostring where
  "cookieName = lit ''_session''"

definition setSession ::
    "int \<Rightarrow> Sealer \<Rightarrow> gostring \<Rightarrow> int \<Rightarrow> http_Cookie list \<times> reader \<Rightarrow> unit res \<times> http_Cookie list \<times> reader" where
  "setSession now sealer userID ttl = (\<lambda>(w, rnd).
     let pt = marshal_stamped 117 101 \<lparr>st_ID = userID, st_Time = Unix (now + ttl)\<rparr> in
     (case Sealer_Seal sealer pt (lit ''cookie-v1'') rnd of
        (Err e, rnd) \<Rightarrow> (Err e, w, rnd)
      | (Panic, rnd) \<Rightarrow> (Panic, w, rnd)
      | (Ok value, rnd) \<Rightarrow>
          (Ok (), w @ [\<lparr>ck_Name = cookieName, ck_Value = value, ck_HttpOnly = True, ck_SameSiteLax = True,
                        ck_Path = lit ''/'', ck_Expires = now + ttl\<rparr>], rnd)))"

definition request_Cookie :: "(gostring \<times> gostring) list \<Rightarrow> gostring \<Rightarrow> gostring res" where
  "request_Cookie r name = of_option (Msg ''http: named cookie not present'') (map_of r name)"

definition getSession :: "int \<Rightarrow> (gostring \<times> gostring) list \<Rightarrow> Sealer \<Rightarrow> stamped res" where
  "getSession now r sealer =
     and_then (or_err (\<lambda>e. Msg ''no session'') (request_Cookie r cookieName)) (\<lambda>value.
     and_then (or_err (\<lambda>e. Msg ''invalid session'') (Sealer_Open sealer value (lit ''cookie-v1''))) (\<lambda>pt.
     and_then (of_option (Msg ''invalid session'') (unmarshal_stamped 117 101 pt)) (\<lambda>s.
     if st_Time s \<le> Unix now then Err (Msg ''session expired'') else Ok s)))"

subsection \<open>\<^verbatim>\<open>session_token\<close>\<close>

text \<open>\<open>se_Scopes\<close> is a slice: a backing array and a length.\<close>

record Session =
  se_UserID :: gostring
  se_Scopes :: "gostring list \<times> nat"
  se_IssuedAt :: int
  se_ExpiresAt :: int

definition sessionTTL :: int where
  "sessionTTL = 24 * 60 * 60 * 10 ^ 9"

definition clockSkewLimit :: int where
  "clockSkewLimit = 30 * 10 ^ 9"

definition marshal_session :: "Session \<Rightarrow> gostring" where
  "marshal_session s =
     [123] @ json_field 117 (json_quote (se_UserID s))
     @ (if snd (se_Scopes s) = 0 then []
        else [44] @ json_field 115 (json_strings (take (snd (se_Scopes s)) (fst (se_Scopes s)))))
     @ [44] @ json_field 105 (FormatInt (se_IssuedAt s))
     @ [44] @ json_field 101 (FormatInt (se_ExpiresAt s)) @ [125]"

definition session_field :: "gostring \<Rightarrow> json \<Rightarrow> Session \<Rightarrow> Session option" where
  "session_field key v x =
     (if key_matches 117 key then map_option (\<lambda>s. x\<lparr>se_UserID := s\<rparr>) (assign_string v (se_UserID x))
      else if key_matches 115 key then map_option (\<lambda>s. x\<lparr>se_Scopes := s\<rparr>) (assign_slice v (se_Scopes x))
      else if key_matches 105 key then map_option (\<lambda>i. x\<lparr>se_IssuedAt := i\<rparr>) (assign_int64 v (se_IssuedAt x))
      else if key_matches 101 key then map_option (\<lambda>i. x\<lparr>se_ExpiresAt := i\<rparr>) (assign_int64 v (se_ExpiresAt x))
      else Some x)"

definition unmarshal_session :: "gostring \<Rightarrow> Session option" where
  "unmarshal_session =
     Unmarshal session_field \<lparr>se_UserID = [], se_Scopes = ([], 0), se_IssuedAt = 0, se_ExpiresAt = 0\<rparr>"

definition IssueSession :: "int \<Rightarrow> Sealer \<Rightarrow> gostring \<Rightarrow> gostring list \<Rightarrow> reader \<Rightarrow> gostring res \<times> reader" where
  "IssueSession now sealer userID scopes rnd =
     (let pt = marshal_session \<lparr>se_UserID = userID, se_Scopes = (scopes, length scopes),
                 se_IssuedAt = Unix now, se_ExpiresAt = Unix (now + sessionTTL)\<rparr>
      in Sealer_Seal sealer pt (lit ''session-v1'') rnd)"

definition OpenSession :: "int \<Rightarrow> Sealer \<Rightarrow> gostring \<Rightarrow> Session res" where
  "OpenSession now sealer token =
     and_then (or_err (\<lambda>e. Msg ''invalid session'') (Sealer_Open sealer token (lit ''session-v1''))) (\<lambda>pt.
     and_then (of_option (Msg ''invalid session'') (unmarshal_session pt)) (\<lambda>s.
     let now = Unix now in
     if se_ExpiresAt s \<le> now then Err (Msg ''session expired'')
     else if now + clockSkewLimit div 10 ^ 9 < se_IssuedAt s then Err (Msg ''session in the future'')
     else Ok s))"

subsection \<open>Documents are read back\<close>

lemma ToValidUTF8_letter: "b < 0x80 \<Longrightarrow> ToValidUTF8 [b] = [b]"
  by (simp add: ToValidUTF8_ascii)

lemma number_end_punct: "number_end (44 # t)" "number_end (125 # t)"
  by (simp_all add: number_end_def is_digit_def)

lemma unmarshal_marshal_stamped:
  assumes "k < 0x80" and "t < 0x80" and "\<not> key_matches k [t]" and "- (2 ^ 63) \<le> st_Time x" and "st_Time x < 2 ^ 63"
  shows "unmarshal_stamped k t (marshal_stamped k t x) = Some (x\<lparr>st_ID := ToValidUTF8 (st_ID x)\<rparr>)"
proof -
  let ?v = "json_quote (st_ID x)" and ?i = "FormatInt (st_Time x)"
  have "parse_members 9999 (json_quote [t] @ 58 # ?i @ 125 # []) = Some ([([t], JNum ?i)], [])"
    using parse_members_last [OF parse_value_int [OF number_end_punct(2)]]
    by (simp add: ToValidUTF8_letter assms(2))
  then have "parse_members 9999 (json_quote [k] @ 58 # ?v @ 44 # json_quote [t] @ 58 # ?i @ 125 # []) =
      Some ([([k], JStr (ToValidUTF8 (st_ID x))), ([t], JNum ?i)], [])"
    using parse_members_more [OF parse_value_string] by (simp add: ToValidUTF8_letter assms(1))
  from parse_value_object [OF this]
  have "parse_json (marshal_stamped k t x) = Some (JObj [([k], JStr (ToValidUTF8 (st_ID x))), ([t], JNum ?i)])"
    by (simp add: parse_json_def marshal_stamped_def json_field_def skip_ws_def)
  then show ?thesis
    using assms(3-5) by (simp add: unmarshal_stamped_def Unmarshal_def stamped_field_def key_matches_def
        assign_string_def assign_int64_def ParseInt_FormatInt)
qed

lemma unmarshal_marshal_session:
  assumes "- (2 ^ 63) \<le> se_IssuedAt x" and "se_IssuedAt x < 2 ^ 63"
    and "- (2 ^ 63) \<le> se_ExpiresAt x" and "se_ExpiresAt x < 2 ^ 63" and "snd (se_Scopes x) = length (fst (se_Scopes x))"
  shows "unmarshal_session (marshal_session x) =
    Some (x\<lparr>se_UserID := ToValidUTF8 (se_UserID x),
            se_Scopes := (map ToValidUTF8 (fst (se_Scopes x)), snd (se_Scopes x))\<rparr>)"
proof -
  let ?v = "json_quote (se_UserID x)" and ?i = "FormatInt (se_IssuedAt x)" and ?e = "FormatInt (se_ExpiresAt x)"
  let ?s = "fst (se_Scopes x)" and ?times = "json_quote [105] @ 58 # FormatInt (se_IssuedAt x) @ 44 #
      json_quote [101] @ 58 # FormatInt (se_ExpiresAt x) @ 125 # []"
  have "parse_members 9999 (json_quote [101] @ 58 # ?e @ 125 # []) = Some ([([101], JNum ?e)], [])"
    using parse_members_last [OF parse_value_int [OF number_end_punct(2)]] by (simp add: ToValidUTF8_letter)
  then have times: "parse_members 9999 ?times = Some ([([105], JNum ?i), ([101], JNum ?e)], [])"
    using parse_members_more [OF parse_value_int [OF number_end_punct(1)]] by (simp add: ToValidUTF8_letter)
  define ms :: "(gostring \<times> json) list" where "ms = ([117], JStr (ToValidUTF8 (se_UserID x)))
      # (if ?s = [] then [] else [([115], JArr (map (\<lambda>p. JStr (ToValidUTF8 p)) ?s))]) @ [([105], JNum ?i), ([101], JNum ?e)]"
  have "parse_members 9999 (json_quote [115] @ 58 # json_strings ?s @ 44 # ?times) =
      Some (([115], JArr (map (\<lambda>p. JStr (ToValidUTF8 p)) ?s)) # [([105], JNum ?i), ([101], JNum ?e)], [])"
    using parse_members_more [OF parse_value_strings [of 9998]] times by (simp add: ToValidUTF8_letter)
  with times have "parse_members 9999 (json_quote [117] @ 58 # ?v @ 44 #
      (if ?s = [] then [] else json_quote [115] @ 58 # json_strings ?s @ [44]) @ ?times) = Some (ms, [])"
    using parse_members_more [OF parse_value_string] by (simp add: ToValidUTF8_letter ms_def)
  from parse_value_object [OF this] have "parse_json (marshal_session x) = Some (JObj ms)"
    using assms(5)
    by (cases "?s = []") (simp_all add: parse_json_def marshal_session_def json_field_def skip_ws_def)
  then show ?thesis
    using assms assign_elems_strings [of ToValidUTF8 ?s "[]"]
    by (cases "se_Scopes x") (auto simp: unmarshal_session_def Unmarshal_def ms_def session_field_def key_matches_def
        assign_string_def assign_int64_def assign_slice_def ParseInt_FormatInt)
qed

lemma Unix_int64: "0 \<le> t \<Longrightarrow> t < 2 ^ 63 \<Longrightarrow> - (2 ^ 63) \<le> Unix t \<and> Unix t < 2 ^ 63"
  using Unix_bounds [of t] by linarith

lemma link_lifetime:
  assumes "NewSealer key = Ok s" and "12 \<le> length (rd_data rnd)" and "0 \<le> now + ttl" and "now + ttl < 2 ^ 63"
    and "length (marshal_stamped 117 101 \<lparr>st_ID = userID, st_Time = Unix (now + ttl)\<rparr>) \<le> gcm_max"
  shows "\<exists>c. issueLink now s userID purpose ttl rnd = (Ok c, rnd\<lparr>rd_data := drop 12 (rd_data rnd)\<rparr>) \<and>
    verifyLink later s c purpose =
      (if Unix later < Unix (now + ttl) then Ok (ToValidUTF8 userID) else Err (Msg ''token expired''))"
proof -
  have "\<not> key_matches 117 [101]" by (simp add: key_matches_def)
  then show ?thesis
    using Sealer_Seal_returns [OF assms(1,5,2), of purpose] Unix_int64 [OF assms(3,4)]
    by (auto simp: issueLink_def verifyLink_def unmarshal_marshal_stamped of_option_def)
qed

lemma csrf_lifetime:
  assumes "NewSealer key = Ok s" and "12 \<le> length (rd_data rnd)" and "0 \<le> now" and "now < 2 ^ 63"
    and "0 \<le> later" and "later < 2 ^ 63"
    and "length (marshal_stamped 115 105 \<lparr>st_ID = sessionID, st_Time = Unix now\<rparr>) \<le> gcm_max"
  shows "\<exists>c. IssueCSRF now s sessionID rnd = (Ok c, rnd\<lparr>rd_data := drop 12 (rd_data rnd)\<rparr>) \<and>
    VerifyCSRF later s c expected =
      (if ToValidUTF8 sessionID \<noteq> expected then Err (Msg ''csrf token does not belong to this session'')
       else if 900 < Unix later - Unix now then Err (Msg ''csrf token expired'') else Ok ())"
proof -
  have "\<not> key_matches 115 [105]" by (simp add: key_matches_def)
  moreover have "sint (word_of_int (Unix later) - word_of_int (Unix now) :: 64 word) = Unix later - Unix now"
    using Unix_bounds [OF assms(3)] Unix_bounds [OF assms(5)] assms(4,6)
    unfolding wi_hom_sub by (intro sint_expiry) linarith+
  ultimately show ?thesis
    using Sealer_Seal_returns [OF assms(1,7,2), of "lit ''csrf-v1''"] Unix_int64 [OF assms(3,4)]
    by (auto simp: IssueCSRF_def VerifyCSRF_def csrfTTL_def unmarshal_marshal_stamped of_option_def)
qed

lemma cookie_lifetime:
  assumes "NewSealer key = Ok s" and "12 \<le> length (rd_data rnd)" and "0 \<le> now + ttl" and "now + ttl < 2 ^ 63"
    and "length (marshal_stamped 117 101 \<lparr>st_ID = userID, st_Time = Unix (now + ttl)\<rparr>) \<le> gcm_max"
  shows "\<exists>ck. setSession now s userID ttl (w, rnd) = (Ok (), w @ [ck], rnd\<lparr>rd_data := drop 12 (rd_data rnd)\<rparr>) \<and>
    ck_HttpOnly ck \<and>
    getSession later [(ck_Name ck, ck_Value ck)] s =
      (if Unix later < Unix (now + ttl) then Ok \<lparr>st_ID = ToValidUTF8 userID, st_Time = Unix (now + ttl)\<rparr>
       else Err (Msg ''session expired''))"
proof -
  have "\<not> key_matches 117 [101]" by (simp add: key_matches_def)
  then show ?thesis
    using Sealer_Seal_returns [OF assms(1,5,2), of "lit ''cookie-v1''"] Unix_int64 [OF assms(3,4)]
    by (auto simp: setSession_def getSession_def request_Cookie_def unmarshal_marshal_stamped of_option_def)
qed

lemma session_lifetime:
  assumes "NewSealer key = Ok s" and "12 \<le> length (rd_data rnd)" and "0 \<le> now" and "now + sessionTTL < 2 ^ 63"
    and "length (marshal_session \<lparr>se_UserID = userID, se_Scopes = (scopes, length scopes),
           se_IssuedAt = Unix now, se_ExpiresAt = Unix (now + sessionTTL)\<rparr>) \<le> gcm_max"
  shows "\<exists>c. IssueSession now s userID scopes rnd = (Ok c, rnd\<lparr>rd_data := drop 12 (rd_data rnd)\<rparr>) \<and>
    OpenSession later s c =
      (if (now + 86400 * 10 ^ 9) div 10 ^ 9 \<le> later div 10 ^ 9 then Err (Msg ''session expired'')
       else if later div 10 ^ 9 + 30 < now div 10 ^ 9 then Err (Msg ''session in the future'')
       else Ok \<lparr>se_UserID = ToValidUTF8 userID, se_Scopes = (map ToValidUTF8 scopes, length scopes),
                se_IssuedAt = now div 10 ^ 9, se_ExpiresAt = (now + 86400 * 10 ^ 9) div 10 ^ 9\<rparr>)"
proof -
  have "0 \<le> now + sessionTTL" "now < 2 ^ 63" using assms(3,4) by (simp_all add: sessionTTL_def)
  note bounds = Unix_int64 [OF assms(3) this(2)] Unix_int64 [OF this(1) assms(4)]
  obtain c where c: "IssueSession now s userID scopes rnd = (Ok c, rnd\<lparr>rd_data := drop 12 (rd_data rnd)\<rparr>)"
    "Sealer_Open s c (lit ''session-v1'') = Ok (marshal_session \<lparr>se_UserID = userID,
       se_Scopes = (scopes, length scopes), se_IssuedAt = Unix now, se_ExpiresAt = Unix (now + sessionTTL)\<rparr>)"
    using Sealer_Seal_returns [OF assms(1,5,2), of "lit ''session-v1''"] by (auto simp: IssueSession_def Let_def)
  have ttl: "sessionTTL = 86400 * 10 ^ 9" "clockSkewLimit div 10 ^ 9 = 30"
    by (simp_all add: sessionTTL_def clockSkewLimit_def)
  have "OpenSession later s c =
      (if Unix (now + sessionTTL) \<le> Unix later then Err (Msg ''session expired'')
       else if Unix later + 30 < Unix now then Err (Msg ''session in the future'')
       else Ok \<lparr>se_UserID = ToValidUTF8 userID, se_Scopes = (map ToValidUTF8 scopes, length scopes),
                se_IssuedAt = Unix now, se_ExpiresAt = Unix (now + sessionTTL)\<rparr>)"
    using bounds by (simp add: OpenSession_def c(2) unmarshal_marshal_session of_option_def Let_def clockSkewLimit_def)
  with c(1) show ?thesis unfolding Unix_def ttl(1) by blast
qed

subsection \<open>Properties\<close>

text \<open>Property C33: a session issued at \<open>now\<close> opens at \<open>later\<close> to the same user and scopes, with invalid UTF-8 in
  them replaced by U+FFFD, exactly while the whole second of \<open>later\<close> is before the expiry and at most 30
  seconds before the issue: sealing, the JSON document, base64 and the clock checks together.\<close>

theorem session_token_lifetime:
  assumes "NewSealer key = Ok s" and "12 \<le> length (rd_data rnd)" and "0 \<le> now" and "now + sessionTTL < 2 ^ 63"
    and "length (marshal_session \<lparr>se_UserID = userID, se_Scopes = (scopes, length scopes),
           se_IssuedAt = Unix now, se_ExpiresAt = Unix (now + sessionTTL)\<rparr>) \<le> gcm_max"
  shows "\<exists>c. IssueSession now s userID scopes rnd = (Ok c, rnd\<lparr>rd_data := drop 12 (rd_data rnd)\<rparr>) \<and>
    OpenSession later s c =
      (if (now + 86400 * 10 ^ 9) div 10 ^ 9 \<le> later div 10 ^ 9 then Err (Msg ''session expired'')
       else if later div 10 ^ 9 + 30 < now div 10 ^ 9 then Err (Msg ''session in the future'')
       else Ok \<lparr>se_UserID = ToValidUTF8 userID, se_Scopes = (map ToValidUTF8 scopes, length scopes),
                se_IssuedAt = now div 10 ^ 9, se_ExpiresAt = (now + 86400 * 10 ^ 9) div 10 ^ 9\<rparr>)"
  by (rule session_lifetime [OF assms])

lemma session_token_lifetime_witness:
  "\<exists>s c. NewSealer (replicate 32 1) = Ok s \<and>
     fst (IssueSession 1000 s (lit ''u<1>'') [lit ''read'', [0xFF]] \<lparr>rd_data = replicate 12 0, rd_end = EOF\<rparr>) = Ok c \<and>
     OpenSession 5000000000 s c = Ok \<lparr>se_UserID = lit ''u<1>'', se_Scopes = ([lit ''read'', [0xEF, 0xBF, 0xBD]], 2),
       se_IssuedAt = 0, se_ExpiresAt = 86400\<rparr> \<and>
     OpenSession (86400 * 10 ^ 9) s c = Err (Msg ''session expired'')"
proof -
  let ?rnd = "\<lparr>rd_data = replicate 12 0, rd_end = EOF\<rparr>" and ?u = "lit ''u<1>''" and ?sc = "[lit ''read'', [0xFF]]"
  obtain s where s: "NewSealer (replicate 32 1) = Ok s" using NewSealer_cases [of "replicate 32 1"] by auto
  have "length (json_quote ?u) \<le> 26" "length (json_quote (lit ''read'')) \<le> 26" "length (json_quote [0xFF]) \<le> 8"
    using length_json_quote [of ?u] length_json_quote [of "lit ''read''"] length_json_quote [of "[0xFF]"]
    by (simp_all add: lit_def)
  moreover have "length (json_quote [117]) \<le> 8" "length (json_quote [115]) \<le> 8" "length (json_quote [105]) \<le> 8"
      "length (json_quote [101]) \<le> 8"
    using length_json_quote [of "[b]" for b] by simp_all
  moreover have "length (FormatInt (Unix 1000)) \<le> 2" "length (FormatInt (Unix (1000 + sessionTTL))) \<le> 86402"
    using length_FormatInt [of "Unix 1000"] length_FormatInt [of "Unix (1000 + sessionTTL)"]
    by (simp_all add: Unix_def sessionTTL_def)
  ultimately have len: "length (marshal_session \<lparr>se_UserID = ?u, se_Scopes = (?sc, length ?sc),
      se_IssuedAt = Unix 1000, se_ExpiresAt = Unix (1000 + sessionTTL)\<rparr>) \<le> gcm_max"
    by (simp add: marshal_session_def json_field_def json_strings_def gcm_max_def)
  have valid: "ToValidUTF8 ?u = ?u" "map ToValidUTF8 ?sc = [lit ''read'', [0xEF, 0xBF, 0xBD]]"
    by (simp_all add: lit_def ToValidUTF8_ascii ToValidUTF8.simps [of "[255]"] DecodeRune_def EncodeRune_def RuneError_def)
  have rnd: "12 \<le> length (rd_data ?rnd)" "(0 :: int) \<le> 1000" "1000 + sessionTTL < 2 ^ 63"
    by (simp_all add: sessionTTL_def)
  note life = session_token_lifetime [OF s rnd len, unfolded valid]
  obtain c where "IssueSession 1000 s ?u ?sc ?rnd = (Ok c, ?rnd\<lparr>rd_data := []\<rparr>)"
    using life by auto
  then show ?thesis using life [of 5000000000] life [of "86400 * 10 ^ 9"] s by auto
qed

end
