(* ===== verification/DemoSealing.thy ===== *)
theory DemoSealing
  imports Console Usage AeadChaCha20 GoText
begin

text \<open>
  The example programs that seal and open: the mains of \<^verbatim>\<open>encrypt_field\<close>, \<^verbatim>\<open>seal_with_aad\<close>, \<^verbatim>\<open>chacha20_aead\<close>,
  \<^verbatim>\<open>cross_lang_go\<close>, \<^verbatim>\<open>key_rotation\<close> and \<^verbatim>\<open>encrypted_file\<close> (all under \<^verbatim>\<open>src/examples\<close>).
\<close>

subsection \<open>\<^verbatim>\<open>encrypt_field\<close>\<close>

definition appKey :: bytes where
  "appKey = lit ''01234567890123456789012345678901''"

record fakeRow =
  row_ID :: gostring
  row_ClientSecret :: gostring

definition encrypt_field_main :: "process \<Rightarrow> unit res \<times> process" where
  "encrypt_field_main p =
     then_do (fatalf ''init sealer: %v'' (NewSealer appKey, p)) (\<lambda>sealer p.
     let plaintext = lit ''sk_live_4242deadbeef'' in
     then_do (fatalf ''seal: %v'' (draw (Sealer_Seal sealer plaintext []) p)) (\<lambda>encrypted p.
     let row = \<lparr>row_ID = lit ''prtn_001'', row_ClientSecret = encrypted\<rparr>;
         p = printf (lines [''stored row:'', ''  id=%s'', ''  client_secret=%s'', '''', ''''])
               [Str (row_ID row), Str (row_ClientSecret row)] p in
     then_do (fatalf ''open: %v'' (Sealer_Open sealer (row_ClientSecret row) [], p)) (\<lambda>decrypted p.
     let p = printf (lines [''loaded plaintext: %s'', '''']) [Str decrypted] p in
     then_do (chop 1 (row_ClientSecret row), p) (\<lambda>cut p.
     let tampered = cut @ lit ''X'' in
     check (Sealer_Open sealer tampered []) quiet
       (\<lambda>err. printf (lines ['''', ''tamper detected: %v'', '''']) [Error (Some err)]) p))))"

text \<open>
  The comment says that any modification surfaces as an error. Overwriting the last character does not when
  the tag ends in the two bits of that character.
\<close>

lemma length_appKey [simp]: "length appKey = 32"
  by (simp add: appKey_def lit_def)

text \<open>A sealer is the pair of package functions at its key.\<close>

lemma Sealer_Seal_eq: "length key = 32 \<Longrightarrow> Sealer_Seal \<lparr>sealer_gcm = aes_gcm key\<rparr> = Seal key"
  by (intro ext) (simp add: Seal_eq_Sealer)

lemma Sealer_Open_eq: "length key = 32 \<Longrightarrow> Sealer_Open \<lparr>sealer_gcm = aes_gcm key\<rparr> = Open key"
  by (intro ext) (simp add: Open_spec Sealer_Open_spec)

lemmas app_sealer [console_simps] = NewSealer_Ok [OF length_appKey]
  Sealer_Seal_eq [OF length_appKey] Sealer_Open_eq [OF length_appKey]

lemma Seal_obtain:
  assumes "length key = 32" and "length pt \<le> gcm_max" and "k + 12 \<le> length (rd_data rnd)"
  obtains c where "Seal key pt a (skip k rnd) = (Ok c, skip (k + 12) rnd)"
    and "Open key c a = Ok pt" and "length c = ((29 + length pt) * 4 + 2) div 3"
proof -
  have "12 \<le> length (rd_data (skip k rnd))" using assms(3) by simp
  from Seal_returns [OF assms(1,2) this, of a] obtain c where c: "Seal key pt a (skip k rnd) = (Ok c, skip (k + 12) rnd)"
    by (auto simp: add.commute)
  from that [OF c Seal_Open [OF c] Seal_length [OF c]] show thesis .
qed

lemma skip_0 [simp]: "skip 0 r = r"
  by simp

lemma encrypt_field_outcome:
  assumes "12 \<le> length (rd_data (pr_rand p))"
  shows "\<exists>c m b. Seal appKey (lit ''sk_live_4242deadbeef'') [] (pr_rand p) =
       (Ok c, skip 12 (pr_rand p)) \<and>
     RawURLEncoding_DecodeString c = Some (m @ [b]) \<and>
     encrypt_field_main p =
       (Ok (), after 12
          ([Printf (lines [''stored row:'', ''  id=%s'', ''  client_secret=%s'', '''', ''''])
              [Str (lit ''prtn_001''), Str c],
            Printf (lines [''loaded plaintext: %s'', '''']) [Str (lit ''sk_live_4242deadbeef'')]] @
           (if take_bit 2 b = 1 then []
            else [Printf (lines ['''', ''tamper detected: %v'', '''']) [Error (Some (Wrap ''%w: %v'' ErrTampered))]])) p)"
proof -
  let ?p = "lit ''sk_live_4242deadbeef''"
  have lp: "length ?p = 20" by (simp add: lit_def)
  obtain c where c: "Seal appKey ?p [] (pr_rand p) = (Ok c, skip 12 (pr_rand p))"
      "Open appKey c [] = Ok ?p" "length c = 66"
    using Seal_obtain [OF length_appKey, of ?p 0 "pr_rand p" "[]"] assms by (auto simp: gcm_max_def lp)
  then have "c \<noteq> []" by auto
  have "b64_index url_alphabet 88 0 = Some 23" by (simp add: url_alphabet_def lit_def)
  moreover obtain m b where "RawURLEncoding_DecodeString c = Some (m @ [b])"
      "\<forall>x v. b64_index url_alphabet x 0 = Some v \<longrightarrow> Open appKey (butlast c @ [x]) [] =
        (if drop_bit 4 v = take_bit 2 b then Ok ?p else Err (Wrap ''%w: %v'' ErrTampered))"
    using sealed_last_char [OF c(1)] lp by auto
  ultimately have mb: "RawURLEncoding_DecodeString c = Some (m @ [b])"
      "Open appKey (butlast c @ lit ''X'') [] =
        (if take_bit 2 b = 1 then Ok ?p else Err (Wrap ''%w: %v'' ErrTampered))"
    by (auto simp: lit_def)
  show ?thesis
    by (rule exI [of _ c], rule exI [of _ m], rule exI [of _ b])
      (cases "take_bit 2 b = 1"; simp add: encrypt_field_main_def console_simps c(1,2) mb \<open>c \<noteq> []\<close>)
qed

subsection \<open>\<^verbatim>\<open>seal_with_aad\<close>\<close>

definition seal_with_aad_main :: "process \<Rightarrow> unit res \<times> process" where
  "seal_with_aad_main p =
     (let serverKey = lit ''01234567890123456789012345678901'' in
     then_do (or_panic (draw (issueSession serverKey (lit ''alice'') (lit ''{\"role\":\"admin\"}'')) p)) (\<lambda>token p.
     let p = printf (lines [''token issued for alice: %s'', '''', '''']) [Str token] p in
     then_do (outcome [] (openSession serverKey (lit ''alice'') token, p)) (\<lambda>(pt, err) p.
     let p = printf (lines [''open as alice: pt=%q err=%v'', '''']) [Str pt, Error err] p in
     then_do (outcome [] (openSession serverKey (lit ''bob'') token, p)) (\<lambda>(_, err) p.
     let p = printf (lines [''open as bob:   err=%v'', '''']) [Error err] p;
         p = printf (lines [''is tampered:   %v'', '''']) [Flag (err_Is err ErrTampered)] p in
     returns p))))"

text \<open>
  Opened as another user, the token is reported as tampered exactly when it does not open: no other error
  comes out of a sealed token.
\<close>

lemma sealed_other_aad:
  assumes "Seal key pt a rnd = (Ok c, rnd')" and "Open key c b = Err e"
  shows "e = Wrap ''%w: %v'' ErrTampered"
proof -
  obtain ct where key: "length key = 32" and n: "length (take 12 (rd_data rnd)) = 12"
      and ct: "aead_Seal (aes_gcm key) (take 12 (rd_data rnd)) pt a = Ok ct"
      and c: "c = RawURLEncoding_EncodeToString (frame VersionAEADv1 (take 12 (rd_data rnd)) ct)"
    using assms(1) by (auto simp: Seal_Ok_iff)
  with assms(2) aes_gcm.seal_length [OF key ct] show ?thesis
    by (simp add: Open_spec open_spec_def frame_def or_err_eq_Err)
qed

lemma seal_with_aad_outcome:
  assumes "12 \<le> length (rd_data (pr_rand p))"
  shows "\<exists>c. Seal appKey (lit ''{\"role\":\"admin\"}'') (lit ''user:alice'') (pr_rand p) = (Ok c, skip 12 (pr_rand p)) \<and>
    seal_with_aad_main p = (Ok (), after 12
      [Printf (lines [''token issued for alice: %s'', '''', '''']) [Str c],
       Printf (lines [''open as alice: pt=%q err=%v'', '''']) [Str (lit ''{\"role\":\"admin\"}''), Error None],
       Printf (lines [''open as bob:   err=%v'', '''']) [Error (error_of (Open appKey c (lit ''user:bob'')))],
       Printf (lines [''is tampered:   %v'', '''']) [Flag (\<not> is_ok (Open appKey c (lit ''user:bob'')))]] p)"
proof -
  have user: "lit ''user:'' @ lit s = lit (''user:'' @ s)" for s by (simp add: lit_def)
  obtain c where c: "Seal appKey (lit ''{\"role\":\"admin\"}'') (lit ''user:alice'') (pr_rand p) = (Ok c, skip 12 (pr_rand p))"
      "Open appKey c (lit ''user:alice'') = Ok (lit ''{\"role\":\"admin\"}'')"
    using Seal_obtain [OF length_appKey, of "lit ''{\"role\":\"admin\"}''" 0 "pr_rand p" "lit ''user:alice''"] assms
    by (auto simp: gcm_max_def lit_def)
  moreover have "Open appKey c (lit ''user:bob'') \<noteq> Panic" by (rule Open_no_panic)
  ultimately show ?thesis
    using sealed_other_aad [OF c(1), of "lit ''user:bob''"]
    by (cases "Open appKey c (lit ''user:bob'')")
      (auto simp: seal_with_aad_main_def console_simps issueSession_def openSession_def user simp flip: appKey_def)
qed

subsection \<open>\<^verbatim>\<open>chacha20_aead\<close>\<close>

definition chacha20_aead_main :: "(bytes \<Rightarrow> AEAD res) \<Rightarrow> process \<Rightarrow> unit res \<times> process" where
  "chacha20_aead_main chacha_New p =
     then_do (draw (read_rand (\<lambda>e. e) AEADKeySize) p) (\<lambda>key p.
     then_do (draw (SealChaCha20 chacha_New key (lit ''hello via chacha20'') (lit ''ctx'')) p) (\<lambda>ct p.
     let p = printf (lines [''ciphertext (v2): %s'', '''']) [Str ct] p in
     then_do (OpenChaCha20 chacha_New key ct (lit ''ctx''), p) (\<lambda>pt p.
     let p = printf (lines [''decrypted: %s'', '''']) [Str pt] p in
     then_do (outcome [] (Open key ct (lit ''ctx''), p)) (\<lambda>(_, err) p.
     let p = (if err_Is err ErrUnsupportedVersion
              then printf (lines ['''', ''AES Open on v2: %v (correctly rejected)'', '''']) [Error err] p else p) in
     then_do (chop 2 ct, p) (\<lambda>cut p.
     let tampered = cut @ lit ''XX'' in
     check (OpenChaCha20 chacha_New key tampered (lit ''ctx'')) quiet
       (\<lambda>err. printf (lines [''tamper detected: %v'', '''']) [Error (Some err)]) p)))))"

lemma chacha20_aead_outcome:
  assumes new: "aead_new mk (\<lambda>k. length k = 32) maxlen chacha_New" and max: "18 \<le> maxlen"
    and rnd: "44 \<le> length (rd_data (pr_rand p))"
  defines "key \<equiv> take 32 (rd_data (pr_rand p))"
  shows "\<exists>c. SealChaCha20 chacha_New key (lit ''hello via chacha20'') (lit ''ctx'') (skip 32 (pr_rand p)) =
       (Ok c, skip 44 (pr_rand p)) \<and>
     chacha20_aead_main chacha_New p = (Ok (), after 44
       ([Printf (lines [''ciphertext (v2): %s'', '''']) [Str c],
         Printf (lines [''decrypted: %s'', '''']) [Str (lit ''hello via chacha20'')],
         Printf (lines ['''', ''AES Open on v2: %v (correctly rejected)'', ''''])
           [Error (Some (Wrap ''%w: 0x%02x'' ErrUnsupportedVersion))]] @
        (let r = OpenChaCha20 chacha_New key (take (length c - 2) c @ lit ''XX'') (lit ''ctx'') in
         if is_ok r then [] else [Printf (lines [''tamper detected: %v'', '''']) [Error (error_of r)]])) p)"
proof -
  let ?pt = "lit ''hello via chacha20''" and ?rnd = "skip 32 (pr_rand p)"
  have key: "length key = 32" using rnd by (simp add: key_def)
  have "length ?pt \<le> maxlen" "12 \<le> length (rd_data ?rnd)" using max rnd by (simp_all add: lit_def)
  from aead_new.SealChaCha20_OpenChaCha20 [OF new key key this, of "lit ''ctx''" "aes_gcm key" "lit ''ctx''"]
  obtain c where c: "SealChaCha20 chacha_New key ?pt (lit ''ctx'') ?rnd = (Ok c, skip 44 (pr_rand p))"
      "OpenChaCha20 chacha_New key c (lit ''ctx'') = Ok ?pt"
      "Open key c (lit ''ctx'') = Err (Wrap ''%w: 0x%02x'' ErrUnsupportedVersion)"
    by (auto simp: Open_spec [OF key])
  have "2 \<le> length c" using aead_new.SealChaCha20_length [OF new key key c(1)] by (simp add: lit_def)
  moreover have "OpenChaCha20 chacha_New key s a \<noteq> Panic" for s a
    by (rule aead_new.OpenChaCha20_no_panic [OF new key key])
  ultimately show ?thesis using c rnd
    by (intro exI [of _ c])
      (simp add: chacha20_aead_main_def console_simps chop_in check_failed AEADKeySize_def del: check.simps flip: key_def)
qed

subsection \<open>\<^verbatim>\<open>cross_lang_go\<close>\<close>

definition sharedKeyHex :: gostring where
  "sharedKeyHex = lit ''0123456789abcdef0123456789abcdef0123456789abcdef0123456789abcdef''"

definition cross_lang_go_main :: "process \<Rightarrow> unit res \<times> process" where
  "cross_lang_go_main p =
     then_do (of_option (Msg ''encoding/hex: invalid'') (hex_DecodeString sharedKeyHex), p) (\<lambda>key p.
     let plaintext = lit ''Hello from Go! This message will decrypt in Node.''; aad = lit ''crypt-demo-v1'' in
     then_do (draw (Seal key plaintext aad) p) (\<lambda>ct p.
     let p = println [Str (lit ''=== Go encrypt ==='')] p;
         p = printf (lines [''key (hex): %s'', '''']) [Str sharedKeyHex] p;
         p = printf (lines [''aad      : %s'', '''']) [Str aad] p;
         p = printf (lines [''plaintext: %s'', '''']) [Str plaintext] p;
         p = printf (lines [''ciphertext (paste into TS decrypt.ts):'', ''%s'', '''']) [Str ct] p in
     then_do (Open key ct aad, p) (\<lambda>pt p.
     let p = printf (lines ['''', ''Go round-trip plaintext: %s'', '''']) [Str pt] p in
     returns p)))"

lemma cross_lang_go_outcome:
  assumes "12 \<le> length (rd_data (pr_rand p))"
  shows "\<exists>key c. hex_DecodeString sharedKeyHex = Some key \<and> length key = 32 \<and>
    Seal key (lit ''Hello from Go! This message will decrypt in Node.'') (lit ''crypt-demo-v1'') (pr_rand p) =
      (Ok c, skip 12 (pr_rand p)) \<and>
    cross_lang_go_main p = (Ok (), after 12
      [Println [Str (lit ''=== Go encrypt ==='')],
       Printf (lines [''key (hex): %s'', '''']) [Str sharedKeyHex],
       Printf (lines [''aad      : %s'', '''']) [Str (lit ''crypt-demo-v1'')],
       Printf (lines [''plaintext: %s'', '''']) [Str (lit ''Hello from Go! This message will decrypt in Node.'')],
       Printf (lines [''ciphertext (paste into TS decrypt.ts):'', ''%s'', '''']) [Str c],
       Printf (lines ['''', ''Go round-trip plaintext: %s'', ''''])
         [Str (lit ''Hello from Go! This message will decrypt in Node.'')]] p)"
proof -
  let ?pt = "lit ''Hello from Go! This message will decrypt in Node.''"
  obtain key where key: "hex_DecodeString sharedKeyHex = Some key" "length key = 32"
    by (simp add: sharedKeyHex_def lit_def fromHexChar_def)
  obtain c where "Seal key ?pt (lit ''crypt-demo-v1'') (pr_rand p) = (Ok c, skip 12 (pr_rand p))"
      "Open key c (lit ''crypt-demo-v1'') = Ok ?pt"
    using Seal_obtain [OF key(2), of ?pt 0 "pr_rand p" "lit ''crypt-demo-v1''"] assms
    by (auto simp: gcm_max_def lit_def)
  with key show ?thesis
    by (intro exI [of _ key] exI [of _ c]) (simp add: cross_lang_go_main_def console_simps)
qed

subsection \<open>\<^verbatim>\<open>key_rotation\<close>\<close>

text \<open>The main ranges over a map of two ciphertexts: \<open>order\<close> is the order in which Go visits its entries.\<close>

fun open_labelled :: "MultiKeyReader \<Rightarrow> (gostring \<times> gostring) list \<Rightarrow> process \<Rightarrow> unit res \<times> process" where
  "open_labelled reader [] p = (Ok (), p)"
| "open_labelled reader ((label, ct) # rest) p =
     then_do (fatalf ''%s: %v'' (MultiKeyReader_Open reader ct [], p)) (\<lambda>pt p.
       open_labelled reader rest (printf (lines [''%s: %s'', '''']) [Str label, Str pt] p))"

definition key_rotation_main ::
    "((gostring \<times> gostring) list \<Rightarrow> (gostring \<times> gostring) list) \<Rightarrow> process \<Rightarrow> unit res \<times> process" where
  "key_rotation_main order p =
     (let keyV1 = replicate 32 0x01; keyV2 = replicate 32 0x02 in
     then_do (or_zero [] (draw (Seal keyV1 (lit ''encrypted with old key'') []) p)) (\<lambda>oldCT p.
     then_do (or_zero [] (draw (Seal keyV2 (lit ''encrypted with new key'') []) p)) (\<lambda>newCT p.
     let reader = NewMultiKeyReader keyV2 [keyV1] in
     then_do (open_labelled reader (order [(lit ''old data'', oldCT), (lit ''new data'', newCT)]) p) (\<lambda>_ p.
     then_do (or_zero [] (draw (Seal keyV2 (lit ''just written'') []) p)) (\<lambda>freshCT p.
     then_do (or_zero [] (MultiKeyReader_Open reader freshCT [], p)) (\<lambda>pt p.
     let p = printf (lines [''fresh write: %s'', '''']) [Str pt] p in
     returns p))))))"

text \<open>
  The first key that opens a ciphertext decides: the reader returns the retired key's plaintext unless the
  active key happens to open the old ciphertext too.
\<close>

lemma key_rotation_outcome:
  assumes rnd: "36 \<le> length (rd_data (pr_rand p))"
    and order: "\<And>xs. order xs = xs \<or> order xs = rev xs"
    and old: "\<And>c. Seal (replicate 32 0x01) (lit ''encrypted with old key'') [] (pr_rand p) = (Ok c, skip 12 (pr_rand p)) \<Longrightarrow>
      \<not> is_ok (Open (replicate 32 0x02) c [])"
  shows "\<exists>out. out \<in> {id, rev} \<and> key_rotation_main order p = (Ok (), after 36
    (out [Printf (lines [''%s: %s'', '''']) [Str (lit ''old data''), Str (lit ''encrypted with old key'')],
          Printf (lines [''%s: %s'', '''']) [Str (lit ''new data''), Str (lit ''encrypted with new key'')]] @
     [Printf (lines [''fresh write: %s'', '''']) [Str (lit ''just written'')]]) p)"
proof -
  let ?k1 = "replicate 32 0x01 :: bytes" and ?k2 = "replicate 32 0x02 :: bytes"
  have l: "length ?k1 = 32" "length ?k2 = 32" by simp_all
  obtain c1 where c1: "Seal ?k1 (lit ''encrypted with old key'') [] (pr_rand p) = (Ok c1, skip 12 (pr_rand p))"
      "Open ?k1 c1 [] = Ok (lit ''encrypted with old key'')"
    using Seal_obtain [OF l(1), of "lit ''encrypted with old key''" 0 "pr_rand p" "[]"] rnd
    by (auto simp: gcm_max_def lit_def)
  obtain c2 where c2: "Seal ?k2 (lit ''encrypted with new key'') [] (skip 12 (pr_rand p)) = (Ok c2, skip 24 (pr_rand p))"
      "Open ?k2 c2 [] = Ok (lit ''encrypted with new key'')"
    using Seal_obtain [OF l(2), of "lit ''encrypted with new key''" 12 "pr_rand p" "[]"] rnd
    by (auto simp: gcm_max_def lit_def)
  obtain c3 where c3: "Seal ?k2 (lit ''just written'') [] (skip 24 (pr_rand p)) = (Ok c3, skip 36 (pr_rand p))"
      "Open ?k2 c3 [] = Ok (lit ''just written'')"
    using Seal_obtain [OF l(2), of "lit ''just written''" 24 "pr_rand p" "[]"] rnd
    by (auto simp: gcm_max_def lit_def)
  obtain e where "Open ?k2 c1 [] = Err e"
    using old [OF c1(1)] Open_no_panic [of ?k2 c1 "[]"] by (cases "Open ?k2 c1 []") auto
  note run = key_rotation_main_def console_simps NewMultiKeyReader_def MultiKeyReader_Open_def c1 c2 c3 this
  from order [of "[(lit ''old data'', c1), (lit ''new data'', c2)]"] show ?thesis
  proof
    assume "order [(lit ''old data'', c1), (lit ''new data'', c2)] = [(lit ''old data'', c1), (lit ''new data'', c2)]"
    then show ?thesis by (intro exI [of _ id]) (simp add: run)
  next
    assume "order [(lit ''old data'', c1), (lit ''new data'', c2)] = rev [(lit ''old data'', c1), (lit ''new data'', c2)]"
    then show ?thesis by (intro exI [of _ rev]) (simp add: run)
  qed
qed

subsection \<open>\<^verbatim>\<open>encrypted_file\<close>\<close>

text \<open>
  The process has a file system besides. \<open>mkdir\<close> is what \<^verbatim>\<open>os.MkdirTemp\<close> returns. \<^verbatim>\<open>os.Stat\<close> of a missing file
  gives a nil \<^verbatim>\<open>FileInfo\<close>, whose \<^verbatim>\<open>Size\<close> panics; a nil sealer panics at its first use. The deferred
  \<^verbatim>\<open>os.RemoveAll\<close> runs when the main returns, not when \<^verbatim>\<open>log.Fatal\<close> ends the process.
\<close>

record file_process = process +
  pr_fs :: filesystem

definition on_files :: "(filesystem \<times> reader \<Rightarrow> 'a res \<times> filesystem \<times> reader) \<Rightarrow> file_process \<Rightarrow> 'a res \<times> file_process" where
  "on_files m p = (case m (pr_fs p, pr_rand p) of (r, fs, rnd) \<Rightarrow> (r, p\<lparr>pr_fs := fs, pr_rand := rnd\<rparr>))"

definition filepath_Join :: "gostring \<Rightarrow> gostring \<Rightarrow> gostring" where
  "filepath_Join dir name = dir @ lit ''/'' @ name"

definition file_Size :: "gostring \<Rightarrow> filesystem \<Rightarrow> nat res" where
  "file_Size path fs = (case fs_files fs path of None \<Rightarrow> Panic | Some data \<Rightarrow> Ok (length data))"

definition os_RemoveAll :: "gostring \<Rightarrow> filesystem \<Rightarrow> filesystem" where
  "os_RemoveAll dir fs = fs\<lparr>fs_files := (\<lambda>path.
     if path = dir \<or> HasPrefix path (dir @ lit ''/'') then None else fs_files fs path)\<rparr>"

definition encrypted_file_main :: "gostring res \<Rightarrow> file_process \<Rightarrow> unit res \<times> file_process" where
  "encrypted_file_main mkdir p =
     then_do (or_panic (NewSealer (lit ''01234567890123456789012345678901''), p)) (\<lambda>sealer p.
     then_do (mkdir, p) (\<lambda>tmp p.
     let plain = lit (lines [''This is the contents of a sensitive document.'',
                   ''Anyone with the encryption key can decrypt; everyone else sees ciphertext.'']);
         encPath = filepath_Join tmp (lit ''report.enc'');
         aad = lit ''file:report-2026-05'' in
     then_do (on_files (writeEncrypted sealer encPath plain aad) p) (\<lambda>_ p.
     then_do (file_Size encPath (pr_fs p), p) (\<lambda>size p.
     let p = printf (lines [''wrote %s (%d bytes ciphertext, %d bytes plaintext)'', ''''])
               [Str encPath, Num (int size), Num (int (length plain))] p in
     then_do (readEncrypted sealer encPath aad (pr_fs p), p) (\<lambda>got p.
     let p = printf (lines ['''', ''decrypted contents:'', ''%s'', '''']) [Str got] p in
     then_do (check (readEncrypted sealer encPath (lit ''file:wrong-name'') (pr_fs p)) quiet
       (\<lambda>err. printf (lines ['''', ''AAD mismatch: %v'', '''']) [Error (Some err)]) p) (\<lambda>_ p.
     (Ok (), p\<lparr>pr_fs := os_RemoveAll tmp (pr_fs p)\<rparr>)))))))"

text \<open>The 120 bytes of the document become 199 of ciphertext, and the file is gone when the main returns.\<close>

lemma RemoveAll_written:
  "os_RemoveAll dir (fs\<lparr>fs_files := (fs_files fs)(filepath_Join dir name \<mapsto> data)\<rparr>) = os_RemoveAll dir fs"
  by (auto simp: os_RemoveAll_def filepath_Join_def HasPrefix_def fun_eq_iff)

lemma readEncrypted_no_panic: "length key = 32 \<Longrightarrow> readEncrypted \<lparr>sealer_gcm = aes_gcm key\<rparr> path a fs \<noteq> Panic"
  by (auto simp: readEncrypted_def os_ReadFile_def and_then_eq_Panic of_option_eq Sealer_Open_eq Open_no_panic)

lemma encrypted_file_outcome:
  fixes p :: file_process
  defines "plain \<equiv> lit (lines [''This is the contents of a sensitive document.'',
      ''Anyone with the encryption key can decrypt; everyone else sees ciphertext.''])"
  assumes "12 \<le> length (rd_data (pr_rand p))" and "fs_err (pr_fs p) = None"
  shows "length plain = 120 \<and> (\<exists>c. Seal appKey plain (lit ''file:report-2026-05'') (pr_rand p) = (Ok c, skip 12 (pr_rand p)) \<and>
    length c = 199 \<and>
    encrypted_file_main (Ok tmp) p = (Ok (), (after 12
      ([Printf (lines [''wrote %s (%d bytes ciphertext, %d bytes plaintext)'', ''''])
          [Str (tmp @ lit ''/report.enc''), Num 199, Num 120],
        Printf (lines ['''', ''decrypted contents:'', ''%s'', '''']) [Str plain]] @
       (let r = Open appKey c (lit ''file:wrong-name'') in
        if is_ok r then [] else [Printf (lines ['''', ''AAD mismatch: %v'', '''']) [Error (error_of r)]])) p)
      \<lparr>pr_fs := os_RemoveAll tmp (pr_fs p)\<rparr>))"
proof -
  have len: "length plain = 120" by (simp add: plain_def lines.simps lit_def)
  then have "length plain \<le> gcm_max" by (simp add: gcm_max_def)
  then obtain c where c: "Seal appKey plain (lit ''file:report-2026-05'') (pr_rand p) = (Ok c, skip 12 (pr_rand p))"
      "Open appKey c (lit ''file:report-2026-05'') = Ok plain" "length c = 199"
    using Seal_obtain [OF length_appKey, of plain 0 "pr_rand p" "lit ''file:report-2026-05''"] assms(2)
    by (auto simp: len)
  let ?s = "\<lparr>sealer_gcm = aes_gcm appKey\<rparr>" and ?path = "filepath_Join tmp (lit ''report.enc'')"
  let ?fs = "(pr_fs p)\<lparr>fs_files := (fs_files (pr_fs p))(?path \<mapsto> c)\<rparr>"
  have w: "on_files (writeEncrypted ?s ?path plain (lit ''file:report-2026-05'')) p =
      (Ok (), p\<lparr>pr_fs := ?fs, pr_rand := skip 12 (pr_rand p)\<rparr>)"
    using c(1) assms(3) by (simp add: on_files_def writeEncrypted_def console_simps os_WriteFile_def)
  have r: "readEncrypted ?s ?path a ?fs = Open appKey c a" for a
    by (simp add: readEncrypted_def os_ReadFile_def console_simps)
  have path: "?path = tmp @ lit ''/report.enc''" by (simp add: filepath_Join_def lit_def)
  have size: "file_Size ?path ?fs = Ok 199" by (simp add: file_Size_def c(3))
  show ?thesis
    using len c Open_no_panic [of appKey c "lit ''file:wrong-name''"]
    by (intro conjI exI [of _ c])
      (simp_all add: encrypted_file_main_def console_simps w r size check_failed RemoveAll_written del: check.simps
        flip: plain_def appKey_def path)
qed

end
