(* ===== verification/Goroutines.thy ===== *)
theory Goroutines
  imports DemoSealing "HOL-Library.Multiset"
begin

text \<open>
  \<^verbatim>\<open>src/examples/sealer/main.go\<close>: a sealer shared by goroutines. The main's sequential part is \<open>sealer_setup\<close>;
  the goroutines it starts interleave step by step: each encrypts, decrypts, prints and signals. One step
  is one call (a read of the random source is atomic).
\<close>

subsection \<open>Model\<close>

definition sealer_setup :: "process \<Rightarrow> Service res \<times> process" where
  "sealer_setup p =
     then_do (fatalf ''init sealer: %v'' (NewSealer (lit ''01234567890123456789012345678901''), p)) (\<lambda>sealer p.
     let svc = NewService sealer in
     then_do (or_zero [] (draw (Service_Encrypt svc (lit ''first'')) p)) (\<lambda>ct p.
     let p = println [Str (lit ''encrypted first:''), Str ct] p in
     then_do (or_zero [] (Service_Decrypt svc ct, p)) (\<lambda>pt p.
     let p = println [Str (lit ''decrypted:      ''), Str pt] p in
     then_do (or_zero [] (draw (Service_Encrypt svc (lit ''second'')) p)) (\<lambda>ct p.
     let p = println [Str (lit ''encrypted second:''), Str ct] p in
     (Ok svc, p)))))"

text \<open>How far a goroutine has come, with the variable it holds.\<close>

datatype stage = Ready | Sealed gostring | Opened gostring | Shown | Signalled | Crashed

record pool =
  gr_proc :: process
  gr_stage :: "stage list"

definition goroutine_text :: "nat \<Rightarrow> gostring" where
  "goroutine_text i = lit ''from goroutine '' @ FormatInt (int i)"

definition goroutine_line :: "nat \<Rightarrow> gostring \<Rightarrow> printed" where
  "goroutine_line i pt = Printf (lines [''goroutine %d -> %s'', '''']) [Num (int i), Str pt]"

text \<open>The next step of goroutine \<open>i\<close>, if it has one.\<close>

definition goroutine_exec :: "Service \<Rightarrow> nat \<Rightarrow> pool \<Rightarrow> pool option" where
  "goroutine_exec svc i pool =
     (let p = gr_proc pool; become = (\<lambda>s p. Some \<lparr>gr_proc = p, gr_stage = (gr_stage pool)[i := s]\<rparr>) in
      case gr_stage pool ! i of
        Ready \<Rightarrow> (case or_zero [] (draw (Service_Encrypt svc (goroutine_text i)) p) of
            (Ok ct, p) \<Rightarrow> become (Sealed ct) p
          | (_, p) \<Rightarrow> become Crashed p)
      | Sealed ct \<Rightarrow> (case or_zero [] (Service_Decrypt svc ct, p) of
            (Ok pt, p) \<Rightarrow> become (Opened pt) p
          | (_, p) \<Rightarrow> become Crashed p)
      | Opened pt \<Rightarrow> become Shown (p\<lparr>pr_out := pr_out p @ [goroutine_line i pt]\<rparr>)
      | Shown \<Rightarrow> become Signalled p
      | Signalled \<Rightarrow> None
      | Crashed \<Rightarrow> None)"

inductive goroutine_step :: "Service \<Rightarrow> pool \<Rightarrow> pool \<Rightarrow> bool" for svc where
  step: "i < length (gr_stage pool) \<Longrightarrow> goroutine_exec svc i pool = Some pool' \<Longrightarrow> goroutine_step svc pool pool'"

text \<open>The main returns when it has received a signal from each.\<close>

definition all_signalled :: "pool \<Rightarrow> bool" where
  "all_signalled pool \<longleftrightarrow> list_all (\<lambda>s. s = Signalled) (gr_stage pool)"

definition start_goroutines :: "nat \<Rightarrow> process \<Rightarrow> pool" where
  "start_goroutines n p = \<lparr>gr_proc = p, gr_stage = replicate n Ready\<rparr>"

subsection \<open>The goroutines in a given stage\<close>

definition at_stage :: "(stage \<Rightarrow> bool) \<Rightarrow> stage list \<Rightarrow> nat set" where
  "at_stage P st = {j. j < length st \<and> P (st ! j)}"

lemma finite_at_stage [simp]: "finite (at_stage P st)"
  by (simp add: at_stage_def)

lemma at_stage_update:
  "i < length st \<Longrightarrow> at_stage P (st[i := s]) = (if P s then insert i (at_stage P st) else at_stage P st - {i})"
  by (auto simp: at_stage_def nth_list_update)

lemma in_at_stage: "i \<in> at_stage P st \<longleftrightarrow> i < length st \<and> P (st ! i)"
  by (simp add: at_stage_def)

fun shown :: "stage \<Rightarrow> bool" where
  "shown Shown = True"
| "shown Signalled = True"
| "shown _ = False"

text \<open>What is known of goroutine \<open>i\<close> at each stage.\<close>

fun stage_ok :: "Service \<Rightarrow> nat \<Rightarrow> stage \<Rightarrow> bool" where
  "stage_ok svc i (Sealed ct) \<longleftrightarrow> Service_Decrypt svc ct = Ok (goroutine_text i)"
| "stage_ok svc i (Opened pt) \<longleftrightarrow> pt = goroutine_text i"
| "stage_ok svc i Crashed \<longleftrightarrow> False"
| "stage_ok svc i _ \<longleftrightarrow> True"

definition expected_line :: "nat \<Rightarrow> printed" where
  "expected_line i = goroutine_line i (goroutine_text i)"

definition pool_inv :: "Service \<Rightarrow> printed list \<Rightarrow> nat \<Rightarrow> pool \<Rightarrow> bool" where
  "pool_inv svc out n pool \<longleftrightarrow>
     length (gr_stage pool) = n \<and>
     12 * card (at_stage (\<lambda>s. s = Ready) (gr_stage pool)) \<le> length (rd_data (pr_rand (gr_proc pool))) \<and>
     list_all (\<lambda>i. stage_ok svc i (gr_stage pool ! i)) [0..<n] \<and>
     (\<exists>ls. pr_out (gr_proc pool) = out @ ls \<and>
        mset ls = image_mset expected_line (mset_set (at_stage shown (gr_stage pool))))"

text \<open>The steps a goroutine has left.\<close>

fun steps_left :: "stage \<Rightarrow> nat" where
  "steps_left Ready = 4"
| "steps_left (Sealed ct) = 3"
| "steps_left (Opened pt) = 2"
| "steps_left Shown = 1"
| "steps_left Signalled = 0"
| "steps_left Crashed = 0"

definition pool_left :: "pool \<Rightarrow> nat" where
  "pool_left pool = sum_list (map steps_left (gr_stage pool))"

lemma goroutine_exec_left:
  assumes "i < length (gr_stage pool)" and "goroutine_exec svc i pool = Some pool'"
  shows "pool_left pool' < pool_left pool"
proof -
  obtain s where "gr_stage pool' = (gr_stage pool)[i := s]" "steps_left s < steps_left (gr_stage pool ! i)"
    using assms(2)
    by (auto simp: goroutine_exec_def Let_def split: stage.splits res.splits prod.splits)
  then show ?thesis using sum_list_map_update [OF assms(1)] by (simp add: pool_left_def)
qed

lemma goroutine_run_left: "(goroutine_step svc ^^ k) pool pool' \<Longrightarrow> k + pool_left pool' \<le> pool_left pool"
proof (induction k arbitrary: pool')
  case (Suc k)
  then obtain q where q: "(goroutine_step svc ^^ k) pool q" "goroutine_step svc q pool'" by auto
  from q(2) have "pool_left pool' < pool_left q" by cases (rule goroutine_exec_left)
  with Suc.IH [OF q(1)] show ?case by simp
qed simp

subsection \<open>The invariant\<close>

lemma Service_Encrypt_draw:
  assumes "NewSealer key = Ok s" and "length pt \<le> gcm_max" and "12 \<le> length (rd_data (pr_rand p))"
  shows "\<exists>ct. draw (Service_Encrypt (NewService s) pt) p = (Ok ct, p\<lparr>pr_rand := skip 12 (pr_rand p)\<rparr>) \<and>
    Service_Decrypt (NewService s) ct = Ok pt"
proof -
  obtain ct where ct: "Service_Encrypt (NewService s) pt (pr_rand p) = (Ok ct, skip 12 (pr_rand p))"
    using Sealer_Seal_returns [OF assms, of "[]"] by (auto simp: Service_Encrypt_def NewService_def)
  with Service_Decrypt_Encrypt [OF assms(1) ct] show ?thesis by (auto simp: draw_def)
qed

lemma pool_inv_start:
  "12 * n \<le> length (rd_data (pr_rand p)) \<Longrightarrow> pool_inv svc (pr_out p) n (start_goroutines n p)"
  by (simp add: pool_inv_def start_goroutines_def list_all_iff at_stage_def conj_commute cong: conj_cong)

lemma pool_inv_step:
  assumes s: "NewSealer key = Ok s" and texts: "\<And>i. i < n \<Longrightarrow> length (goroutine_text i) \<le> gcm_max"
    and inv: "pool_inv (NewService s) out n pool" and st: "goroutine_step (NewService s) pool pool'"
  shows "pool_inv (NewService s) out n pool'"
  using st
proof cases
  case (step i)
  let ?st = "gr_stage pool" and ?p = "gr_proc pool"
  have n: "length ?st = n" and i: "i < n" using inv step(1) by (auto simp: pool_inv_def)
  have ok: "stage_ok (NewService s) j (?st ! j)" if "j < n" for j
    using inv that by (simp add: pool_inv_def list_all_iff)
  have rand: "12 * card (at_stage (\<lambda>s. s = Ready) ?st) \<le> length (rd_data (pr_rand ?p))"
    using inv by (simp add: pool_inv_def)
  obtain ls where ls: "pr_out ?p = out @ ls" "mset ls = image_mset expected_line (mset_set (at_stage shown ?st))"
    using inv by (auto simp: pool_inv_def)
  have ok': "list_all (\<lambda>j. stage_ok (NewService s) j (?st[i := t] ! j)) [0..<n]" if "stage_ok (NewService s) i t" for t
    using ok that n i by (auto simp: list_all_iff nth_list_update)
  have keep: "at_stage shown (?st[i := t]) = at_stage shown ?st" if "shown t \<longleftrightarrow> shown (?st ! i)" for t
    using that i n by (auto simp: at_stage_update in_at_stage)
  have ready: "12 * card (at_stage (\<lambda>s. s = Ready) (?st[i := t])) \<le> length (rd_data (pr_rand ?p))"
    if "t \<noteq> Ready" for t
  proof -
    have "card (at_stage (\<lambda>s. s = Ready) (?st[i := t])) \<le> card (at_stage (\<lambda>s. s = Ready) ?st)"
      using that i n by (intro card_mono) (auto simp: at_stage_update)
    with rand show ?thesis by simp
  qed
  show ?thesis
  proof (cases "?st ! i")
    case Ready
    have mem: "i \<in> at_stage (\<lambda>s. s = Ready) ?st" using Ready i n by (simp add: in_at_stage)
    have c: "card (at_stage (\<lambda>s. s = Ready) ?st) = Suc (card (at_stage (\<lambda>s. s = Ready) ?st - {i}))"
      by (rule card.remove [OF finite_at_stage mem])
    with rand have r: "12 \<le> length (rd_data (pr_rand ?p))" by simp
    from Service_Encrypt_draw [OF s texts [OF i] r] obtain ct where
      "draw (Service_Encrypt (NewService s) (goroutine_text i)) ?p = (Ok ct, ?p\<lparr>pr_rand := skip 12 (pr_rand ?p)\<rparr>)"
      "Service_Decrypt (NewService s) ct = Ok (goroutine_text i)" by blast
    with step(2) Ready ok' [of "Sealed ct"] keep [of "Sealed ct"] ls n i c rand show ?thesis
      by (auto simp: pool_inv_def goroutine_exec_def at_stage_update [of _ _ "\<lambda>s. s = Ready"])
  next
    case (Sealed ct)
    with step(2) ok [OF i] ok' [of "Opened (goroutine_text i)"] keep [of "Opened (goroutine_text i)"]
      ready [of "Opened (goroutine_text i)"] ls n show ?thesis
      by (auto simp: pool_inv_def goroutine_exec_def)
  next
    case (Opened pt)
    have "at_stage shown (?st[i := Shown]) = insert i (at_stage shown ?st)" "i \<notin> at_stage shown ?st"
      using Opened i n by (auto simp: at_stage_update in_at_stage)
    then have "image_mset expected_line (mset_set (at_stage shown (?st[i := Shown]))) = mset (ls @ [expected_line i])"
      by (simp add: ls(2))
    with step(2) Opened ok [OF i] ok' [of Shown] ready [of Shown] ls(1) n show ?thesis
      by (auto simp: pool_inv_def goroutine_exec_def expected_line_def intro!: exI [of _ "ls @ [expected_line i]"])
  next
    case Shown
    with step(2) ok' [of Signalled] keep [of Signalled] ready [of Signalled] ls n show ?thesis
      by (auto simp: pool_inv_def goroutine_exec_def)
  next
    case Signalled
    with step(2) show ?thesis by (simp add: goroutine_exec_def)
  next
    case Crashed
    with ok [OF i] show ?thesis by simp
  qed
qed

lemma pool_inv_progress:
  assumes "pool_inv svc out n pool"
  shows "all_signalled pool \<or> (\<exists>pool'. goroutine_step svc pool pool')"
proof (rule disjCI)
  assume "\<nexists>pool'. goroutine_step svc pool pool'"
  then have none: "goroutine_exec svc i pool = None" if "i < length (gr_stage pool)" for i
    using that by (meson goroutine_step.intros option.exhaust)
  have "gr_stage pool ! i = Signalled" if "i < length (gr_stage pool)" for i
  proof -
    have "stage_ok svc i (gr_stage pool ! i)" using assms that by (auto simp: pool_inv_def list_all_iff)
    with none [OF that] show ?thesis
      by (cases "gr_stage pool ! i") (auto simp: goroutine_exec_def Let_def split: prod.splits res.splits)
  qed
  then show "all_signalled pool" by (simp add: all_signalled_def list_all_length)
qed

lemma pool_inv_final:
  assumes "pool_inv svc out n pool" and "all_signalled pool"
  shows "\<exists>ls. pr_out (gr_proc pool) = out @ ls \<and> mset ls = mset (map expected_line [0..<n])"
proof -
  have "at_stage shown (gr_stage pool) = {0..<n}"
    using assms by (auto simp: at_stage_def all_signalled_def list_all_length pool_inv_def)
  with assms(1) show ?thesis by (auto simp: pool_inv_def)
qed

lemma pool_inv_reachable:
  assumes "NewSealer key = Ok s" and "\<And>i. i < n \<Longrightarrow> length (goroutine_text i) \<le> gcm_max"
    and "pool_inv (NewService s) out n pool" and "(goroutine_step (NewService s) ^^ k) pool pool'"
  shows "pool_inv (NewService s) out n pool'"
  using assms(4)
proof (induction k arbitrary: pool')
  case 0
  then show ?case using assms(3) by simp
next
  case (Suc k)
  then obtain q where "(goroutine_step (NewService s) ^^ k) pool q" "goroutine_step (NewService s) q pool'" by auto
  with Suc.IH pool_inv_step [OF assms(1,2)] show ?case by blast
qed

lemma sealer_setup_outcome:
  assumes "24 \<le> length (rd_data (pr_rand p))"
  shows "\<exists>c c'. sealer_setup p = (Ok (NewService \<lparr>sealer_gcm = aes_gcm appKey\<rparr>), after 24
    [Println [Str (lit ''encrypted first:''), Str c], Println [Str (lit ''decrypted:      ''), Str (lit ''first'')],
     Println [Str (lit ''encrypted second:''), Str c']] p)"
proof -
  let ?s = "\<lparr>sealer_gcm = aes_gcm appKey\<rparr>"
  have len: "length (lit ''first'') \<le> gcm_max" "length (lit ''second'') \<le> gcm_max"
    by (simp_all add: gcm_max_def lit_def)
  have r: "12 \<le> length (rd_data (pr_rand p))" using assms by simp
  from Service_Encrypt_draw [OF app_sealer(1) len(1) r] obtain c where
    c: "draw (Service_Encrypt (NewService ?s) (lit ''first'')) p = (Ok c, p\<lparr>pr_rand := skip 12 (pr_rand p)\<rparr>)"
      "Service_Decrypt (NewService ?s) c = Ok (lit ''first'')" by auto
  let ?q = "after 12 [Println [Str (lit ''encrypted first:''), Str c],
    Println [Str (lit ''decrypted:      ''), Str (lit ''first'')]] p"
  have "12 \<le> length (rd_data (pr_rand ?q))" using assms by simp
  from Service_Encrypt_draw [OF app_sealer(1) len(2) this] obtain c' where
    "draw (Service_Encrypt (NewService ?s) (lit ''second'')) ?q = (Ok c', ?q\<lparr>pr_rand := skip 12 (pr_rand ?q)\<rparr>)"
    by auto
  with c show ?thesis
    by (intro exI [of _ c] exI [of _ c'])
      (simp add: sealer_setup_def Let_def println_def app_sealer(1) flip: appKey_def)
qed

subsection \<open>Properties\<close>

text \<open>Property C27: the goroutines of the sealer example share one sealer. Whatever the order in which their steps
  interleave: no run has more than 12 steps, no goroutine crashes or is stuck before all have signalled, and when
  they have, each has printed exactly its own text once, in some order, after the output of the sequential part.\<close>

theorem sealer_goroutines:
  assumes "60 \<le> length (rd_data (pr_rand p))"
  shows "\<exists>svc q. sealer_setup p = (Ok svc, q) \<and>
    (\<forall>k pool. (goroutine_step svc ^^ k) (start_goroutines 3 q) pool \<longrightarrow>
       k \<le> 12 \<and> (all_signalled pool \<or> (\<exists>pool'. goroutine_step svc pool pool')) \<and>
       (all_signalled pool \<longrightarrow> (\<exists>ls. pr_out (gr_proc pool) = pr_out q @ ls \<and>
          mset ls = mset (map (\<lambda>i. Printf (lines [''goroutine %d -> %s'', ''''])
            [Num (int i), Str (lit ''from goroutine '' @ FormatInt (int i))]) [0..<3]))))"
proof -
  let ?s = "\<lparr>sealer_gcm = aes_gcm appKey\<rparr>"
  obtain q where q: "sealer_setup p = (Ok (NewService ?s), q)" "36 \<le> length (rd_data (pr_rand q))"
    using sealer_setup_outcome [of p] assms by auto
  then have start: "pool_inv (NewService ?s) (pr_out q) 3 (start_goroutines 3 q)"
    by (intro pool_inv_start) simp
  have texts: "length (goroutine_text i) \<le> gcm_max" if "i < 3" for i
    using that length_FormatInt [of "int i"] by (simp add: goroutine_text_def gcm_max_def lit_def)
  show ?thesis
  proof (intro exI [of _ "NewService ?s"] exI [of _ q] conjI allI impI)
    fix k pool assume run: "(goroutine_step (NewService ?s) ^^ k) (start_goroutines 3 q) pool"
    note inv = pool_inv_reachable [OF app_sealer(1) texts start run]
    show "k \<le> 12"
      using goroutine_run_left [OF run] by (simp add: pool_left_def start_goroutines_def sum_list_replicate)
    show "all_signalled pool \<or> (\<exists>pool'. goroutine_step (NewService ?s) pool pool')"
      by (rule pool_inv_progress [OF inv])
    assume "all_signalled pool"
    from pool_inv_final [OF inv this]
    show "\<exists>ls. pr_out (gr_proc pool) = pr_out q @ ls \<and>
        mset ls = mset (map (\<lambda>i. Printf (lines [''goroutine %d -> %s'', ''''])
          [Num (int i), Str (lit ''from goroutine '' @ FormatInt (int i))]) [0..<3])"
      by (simp only: expected_line_def [abs_def] goroutine_line_def goroutine_text_def)
  qed (rule q(1))
qed

lemma sealer_goroutines_witness:
  "\<exists>svc q. sealer_setup \<lparr>pr_rand = \<lparr>rd_data = replicate 60 0, rd_end = EOF\<rparr>, pr_out = []\<rparr> = (Ok svc, q)"
  using sealer_goroutines [of "\<lparr>pr_rand = \<lparr>rd_data = replicate 60 0, rd_end = EOF\<rparr>, pr_out = []\<rparr>"] by auto

end
