(* ===== verification/DemoKeys.thy ===== *)
theory DemoKeys
  imports DemoSealing Kms KeyRing Hkdf
begin

text \<open>
  The example programs about keys: the mains of \<^verbatim>\<open>envelope_encryption\<close>, \<^verbatim>\<open>keyring_rotation\<close>, \<^verbatim>\<open>hkdf_derive_key\<close>,
  \<^verbatim>\<open>tenant_keys\<close> and \<^verbatim>\<open>random_token\<close> (all under \<^verbatim>\<open>src/examples\<close>).
\<close>

subsection \<open>\<^verbatim>\<open>envelope_encryption\<close>\<close>

definition envelope_seal_call :: "EnvelopeSealer \<Rightarrow> bytes \<Rightarrow> bytes \<Rightarrow> process \<Rightarrow> gostring res \<times> process" where
  "envelope_seal_call sealer plaintext aad =
     draw (\<lambda>rnd. case EnvelopeSealer_Seal sealer plaintext aad rnd of ((r, dek), rnd) \<Rightarrow> (r, rnd))"

definition envelope_encryption_main :: "process \<Rightarrow> unit res \<times> process" where
  "envelope_encryption_main p =
     (let kek = replicate AEADKeySize 0xA1;
          (r, kms) = StaticKMS_AddKey NewStaticKMS (lit ''kek-prod-2026'') kek in
     then_do (r, p) (\<lambda>_ p.
     let sealer = NewEnvelopeSealer (static_kms kms) (lit ''kek-prod-2026'');
         plaintext = lit ''PCI-regulated card metadata'' in
     then_do (envelope_seal_call sealer plaintext (lit ''table:transactions'') p) (\<lambda>ct p.
     then_do (go_slice ct 0 48, p) (\<lambda>prefix p.
     let p = printf (lines [''envelope ciphertext: %s...'', '''']) [Str prefix] p in
     then_do (fst (EnvelopeSealer_Open sealer ct (lit ''table:transactions'')), p) (\<lambda>pt p.
     let p = printf (lines [''decrypted: %s'', '''']) [Str pt] p in
     then_do (or_zero [] (envelope_seal_call sealer plaintext [] p)) (\<lambda>a p.
     then_do (or_zero [] (envelope_seal_call sealer plaintext [] p)) (\<lambda>b p.
     let p = printf (lines ['''', ''two seals of same plaintext are distinct: %v'', '''']) [Flag (a \<noteq> b)] p;
         p = printf (lines ['''', ''the interface is what crypt provides; KMS-specific'',
               ''adapter packages plug in by implementing crypt.KMS.'', '''']) [] p in
     returns p)))))))"

lemma Open_Ok_lengths:
  assumes "Open key s a = Ok q"
  shows "38 \<le> length s \<and> (\<forall>raw. RawURLEncoding_DecodeString s = Some raw \<longrightarrow> 29 \<le> length raw)"
proof -
  obtain nonce ct where s: "length key = 32" "RawURLEncoding_DecodeString s = Some (frame VersionAEADv1 nonce ct)"
      "length nonce = 12" "aead_Seal (aes_gcm key) nonce q a = Ok ct" using assms by (auto simp: Open_Ok_iff)
  with aes_gcm.seal_length [OF s(1,4)] length_url_decode [OF s(2)] show ?thesis by (simp add: frame_def)
qed

lemma envelope_sealed:
  assumes "kek_registered s keyID" and "length pt \<le> gcm_max" and "k + 56 \<le> length (rd_data rnd)"
  obtains c where "EnvelopeSealer_Seal (NewEnvelopeSealer (static_kms s) keyID) pt aad (skip k rnd) =
      ((Ok c, replicate 32 0), skip (k + 56) rnd)"
    and "EnvelopeSealer_Open (NewEnvelopeSealer (static_kms s) keyID) c aad = (Ok pt, replicate 32 0)" and "48 \<le> length c"
proof -
  let ?e = "NewEnvelopeSealer (static_kms s) keyID"
  have r: "44 + 12 \<le> length (rd_data (skip k rnd))" using assms(3) by simp
  from static.envelope_Seal [OF assms(1,2) r, of aad] obtain c wrapped inner dek where
    c: "EnvelopeSealer_Seal ?e pt aad (skip k rnd) = ((Ok c, replicate 32 0), skip (k + 56) rnd)"
      "RawURLEncoding_DecodeString c = Some (envelope wrapped inner)" "length wrapped + 5 < 2 ^ 32"
      "length dek = 32" "kms_Decrypt (static_kms s) keyID wrapped = Ok dek"
      "Open dek (RawURLEncoding_EncodeToString inner) aad = Ok pt" by (auto simp: add.commute)
  from static.envelope_Seal_Open [OF assms(1,2) r, of aad] c(1)
  have op: "EnvelopeSealer_Open ?e c aad = (Ok pt, replicate 32 0)" by auto
  have "29 \<le> length inner" using Open_Ok_lengths [OF c(6)] by simp
  moreover obtain kek where "Open kek wrapped [] = Ok dek"
    using c(5) by (auto simp: static_kms_def StaticKMS_Decrypt_def and_then_eq_Ok)
  then have "38 \<le> length wrapped" using Open_Ok_lengths by blast
  ultimately have "48 \<le> length c" using length_url_decode [OF c(2)] by (simp add: envelope_def)
  from that [OF c(1) op this] show thesis .
qed

lemma envelope_encryption_outcome:
  fixes p :: process
  defines "sealer \<equiv> NewEnvelopeSealer
    (static_kms (snd (StaticKMS_AddKey NewStaticKMS (lit ''kek-prod-2026'') (replicate 32 0xA1)))) (lit ''kek-prod-2026'')"
    and "pt \<equiv> lit ''PCI-regulated card metadata''"
  assumes "168 \<le> length (rd_data (pr_rand p))"
  shows "\<exists>c a b.
    EnvelopeSealer_Seal sealer pt (lit ''table:transactions'') (pr_rand p) = ((Ok c, replicate 32 0), skip 56 (pr_rand p)) \<and>
    EnvelopeSealer_Seal sealer pt [] (skip 56 (pr_rand p)) = ((Ok a, replicate 32 0), skip 112 (pr_rand p)) \<and>
    EnvelopeSealer_Seal sealer pt [] (skip 112 (pr_rand p)) = ((Ok b, replicate 32 0), skip 168 (pr_rand p)) \<and>
    envelope_encryption_main p = (Ok (), after 168
     [Printf (lines [''envelope ciphertext: %s...'', '''']) [Str (take 48 c)],
      Printf (lines [''decrypted: %s'', '''']) [Str pt],
      Printf (lines ['''', ''two seals of same plaintext are distinct: %v'', '''']) [Flag (a \<noteq> b)],
      Printf (lines ['''', ''the interface is what crypt provides; KMS-specific'',
               ''adapter packages plug in by implementing crypt.KMS.'', '''']) []] p)"
proof -
  obtain s where s: "StaticKMS_AddKey NewStaticKMS (lit ''kek-prod-2026'') (replicate 32 0xA1) = (Ok (), s)"
      "kek_registered s (lit ''kek-prod-2026'')"
    using StaticKMS_AddKey_registered [of "replicate 32 0xA1"] by auto
  have sealer: "sealer = NewEnvelopeSealer (static_kms s) (lit ''kek-prod-2026'')" by (simp add: sealer_def s(1))
  have len: "length pt \<le> gcm_max" by (simp add: gcm_max_def lit_def pt_def)
  note sealed = envelope_sealed [OF s(2) len, folded sealer]
  obtain c where c: "EnvelopeSealer_Seal sealer pt (lit ''table:transactions'') (pr_rand p) =
        ((Ok c, replicate 32 0), skip 56 (pr_rand p))"
      "EnvelopeSealer_Open sealer c (lit ''table:transactions'') = (Ok pt, replicate 32 0)" "48 \<le> length c"
    using sealed [of 0 "pr_rand p"] assms(3) by auto
  obtain a where a: "EnvelopeSealer_Seal sealer pt [] (skip 56 (pr_rand p)) = ((Ok a, replicate 32 0), skip 112 (pr_rand p))"
    using sealed [of 56 "pr_rand p"] assms(3) by auto
  obtain b where b: "EnvelopeSealer_Seal sealer pt [] (skip 112 (pr_rand p)) = ((Ok b, replicate 32 0), skip 168 (pr_rand p))"
    using sealed [of 112 "pr_rand p"] assms(3) by auto
  show ?thesis
    by (rule exI [of _ c], rule exI [of _ a], rule exI [of _ b])
      (simp add: envelope_encryption_main_def envelope_seal_call_def console_simps AEADKeySize_def s(1) c a b go_slice_in
        flip: pt_def sealer)
qed

subsection \<open>\<^verbatim>\<open>keyring_rotation\<close>\<close>

text \<open>\<open>orders\<close> are the orders in which its three calls of \<^verbatim>\<open>Open\<close> visit the ring's keys.\<close>

definition keyring_rotation_main :: "(nat \<Rightarrow> gostring list) \<Rightarrow> process \<Rightarrow> unit res \<times> process" where
  "keyring_rotation_main orders p =
     (let keyV1 = replicate AEADKeySize 0x01; keyV2 = replicate AEADKeySize 0x02 in
     then_do (NewKeyRing (lit ''2025'') keyV1, p) (\<lambda>ring p.
     then_do (or_zero [] (draw (KeyRing_Seal ring (lit ''encrypted in 2025'') []) p)) (\<lambda>old p.
     then_do (go_slice old 0 32, p) (\<lambda>prefix p.
     let p = printf (lines [''2025 ciphertext active=%s: %s'', ''''])
               [Str (KeyRing_ActiveKid ring), Str (prefix @ lit ''...'')] p;
         (r, ring) = KeyRing_Add ring (lit ''2026'') keyV2 in
     then_do (r, p) (\<lambda>_ p.
     let (r, ring) = KeyRing_SetActive ring (lit ''2026'') in
     then_do (r, p) (\<lambda>_ p.
     then_do (or_zero [] (draw (KeyRing_Seal ring (lit ''encrypted in 2026'') []) p)) (\<lambda>new2026 p.
     then_do (go_slice new2026 0 32, p) (\<lambda>prefix p.
     let p = printf (lines [''2026 ciphertext active=%s: %s'', ''''])
               [Str (KeyRing_ActiveKid ring), Str (prefix @ lit ''...'')] p in
     then_do (or_zero [] (KeyRing_Open ring (orders 0) old [], p)) (\<lambda>pt p.
     let p = printf (lines ['''', ''opened old: %s'', '''']) [Str pt] p in
     then_do (or_zero [] (KeyRing_Open ring (orders 1) new2026 [], p)) (\<lambda>pt p.
     let p = printf (lines [''opened new: %s'', '''']) [Str pt] p;
         (r, ring) = KeyRing_Remove ring (lit ''2025'') in
     then_do (r, p) (\<lambda>_ p.
     let p = printf (lines ['''', dashed ''removed 2025 '' '' now ring has only %s'', ''''])
               [Str (KeyRing_ActiveKid ring)] p in
     check (KeyRing_Open ring (orders 2) old []) quiet
       (\<lambda>err. printf (lines [''opening orphaned 2025 ct: %v'', '''']) [Error (Some err)]) p)))))))))))"

lemma KeyRing_sealed:
  assumes "ring_wf r" and "length pt \<le> gcm_max" and "k + 12 \<le> length (rd_data rnd)"
  obtains c where "KeyRing_Seal r pt a (skip k rnd) = (Ok c, skip (k + 12) rnd)" and "32 \<le> length c"
proof -
  have "12 \<le> length (rd_data (skip k rnd))" using assms(3) by simp
  from KeyRing_Seal_returns [OF assms(1,2) this, of a] obtain c
    where c: "KeyRing_Seal r pt a (skip k rnd) = (Ok c, skip (k + 12) rnd)" by (auto simp: add.commute)
  obtain n ct where "RawURLEncoding_DecodeString c = Some (frame3 (kr_active r) n ct)" "length n = 12" "16 \<le> length ct"
    by (rule KeyRing_Seal_Ok [OF assms(1) c]) (auto simp: that)
  with length_url_decode [OF this(1)] have "32 \<le> length c" by (simp add: frame3_def)
  with that c show thesis by blast
qed

text \<open>Old and new ciphertexts open after the rotation; once the old key is removed, its ciphertexts do not.\<close>

lemma keyring_rotation_outcome:
  assumes "24 \<le> length (rd_data (pr_rand p))"
  shows "\<exists>c1 c2. keyring_rotation_main orders p = (Ok (), after 24
    [Printf (lines [''2025 ciphertext active=%s: %s'', '''']) [Str (lit ''2025''), Str (take 32 c1 @ lit ''...'')],
     Printf (lines [''2026 ciphertext active=%s: %s'', '''']) [Str (lit ''2026''), Str (take 32 c2 @ lit ''...'')],
     Printf (lines ['''', ''opened old: %s'', '''']) [Str (lit ''encrypted in 2025'')],
     Printf (lines [''opened new: %s'', '''']) [Str (lit ''encrypted in 2026'')],
     Printf (lines ['''', dashed ''removed 2025 '' '' now ring has only %s'', '''']) [Str (lit ''2026'')],
     Printf (lines [''opening orphaned 2025 ct: %v'', ''''])
       [Error (Some (Wrap ''%w: no key for kid %q in ring'' ErrTampered))]] p)"
proof -
  let ?k1 = "replicate 32 0x01 :: bytes" and ?k2 = "replicate 32 0x02 :: bytes"
  let ?old = "lit ''2025''" and ?new = "lit ''2026''"
  define r1 where "r1 = \<lparr>kr_active = ?old, kr_keys = [?old \<mapsto> aes_gcm ?k1], kr_rawKeys = [?old \<mapsto> ?k1]\<rparr>"
  define r2 where "r2 = r1\<lparr>kr_keys := (kr_keys r1)(?new \<mapsto> aes_gcm ?k2), kr_rawKeys := (kr_rawKeys r1)(?new \<mapsto> ?k2)\<rparr>"
  define r3 where "r3 = r2\<lparr>kr_active := ?new\<rparr>"
  define r4 where "r4 = r3\<lparr>kr_keys := (kr_keys r3)(?old := None), kr_rawKeys := (kr_rawKeys r3)(?old := None)\<rparr>"
  have valid: "validKid ?old = Ok ()" "validKid ?new = Ok ()" and ne: "?old \<noteq> ?new"
    by (simp_all add: validKid_iff lit_def)
  have new: "NewKeyRing ?old ?k1 = Ok r1" using valid by (simp add: NewKeyRing_Ok_iff r1_def)
  then have wf1: "ring_wf r1" by (rule NewKeyRing_wf)
  have add: "KeyRing_Add r1 ?new ?k2 = (Ok (), r2)"
    using KeyRing_Add_Ok [OF valid(2), of r1 ?k2] ne by (simp add: r2_def) (simp add: r1_def)
  have act: "KeyRing_SetActive r2 ?new = (Ok (), r3)" by (simp add: KeyRing_SetActive_def r2_def r3_def)
  have wf3: "ring_wf r3"
    using ring_run_wf [OF wf1, of "[OpAdd ?new ?k2, OpSetActive ?new]"] by (simp add: add act)
  have rem: "KeyRing_Remove r3 ?old = (Ok (), r4)"
    using ne by (simp add: KeyRing_Remove_def r4_def) (simp add: r3_def r2_def r1_def)
  note parts = r1_def r2_def r3_def r4_def
  obtain c1 where c1: "KeyRing_Seal r1 (lit ''encrypted in 2025'') [] (pr_rand p) = (Ok c1, skip 12 (pr_rand p))" "32 \<le> length c1"
    using KeyRing_sealed [OF wf1, of "lit ''encrypted in 2025''" 0 "pr_rand p" "[]"] assms
    by (auto simp: gcm_max_def lit_def)
  obtain c2 where c2: "KeyRing_Seal r3 (lit ''encrypted in 2026'') [] (skip 12 (pr_rand p)) = (Ok c2, skip 24 (pr_rand p))" "32 \<le> length c2"
    using KeyRing_sealed [OF wf3, of "lit ''encrypted in 2026''" 12 "pr_rand p" "[]"] assms
    by (auto simp: gcm_max_def lit_def)
  have o1: "KeyRing_Open r3 order c1 [] = Ok (lit ''encrypted in 2025'')" for order
    by (rule KeyRing_Seal_Open [OF wf1 c1(1)]) (use ne in \<open>simp add: parts\<close>)
  have o2: "KeyRing_Open r3 order c2 [] = Ok (lit ''encrypted in 2026'')" for order
    by (rule KeyRing_Seal_Open [OF wf3 c2(1)]) simp
  have o3: "KeyRing_Open r4 order c1 [] = Err (Wrap ''%w: no key for kid %q in ring'' ErrTampered)" for order
    by (rule KeyRing_Seal_removed [OF wf1 c1(1)]) (simp add: parts)
  have active: "KeyRing_ActiveKid r1 = ?old" "KeyRing_ActiveKid r3 = ?new" "KeyRing_ActiveKid r4 = ?new"
    by (simp_all add: KeyRing_ActiveKid_def parts)
  show ?thesis
    by (rule exI [of _ c1], rule exI [of _ c2])
      (simp add: keyring_rotation_main_def console_simps AEADKeySize_def new c1 c2 add act rem o1 o2 o3 active go_slice_in)
qed

subsection \<open>\<^verbatim>\<open>hkdf_derive_key\<close>\<close>

fun derive_loop :: "(bytes \<Rightarrow> bytes \<Rightarrow> bytes \<Rightarrow> reader) \<Rightarrow> bytes \<Rightarrow> gostring list \<Rightarrow> process \<Rightarrow> unit res \<times> process" where
  "derive_loop hkdf_New root [] p = (Ok (), p)"
| "derive_loop hkdf_New root (tenant # tenants) p =
     then_do (DeriveKey hkdf_New root [] (lit ''tenant:'' @ tenant) (int AEADKeySize), p) (\<lambda>k p.
     then_do (go_slice k 0 8, p) (\<lambda>prefix p.
     let p = printf (lines [''tenant %-7s key prefix (8 bytes): %x...'', '''']) [Str tenant, Hex prefix] p in
     then_do (or_zero [] (draw (Seal k (lit ''tenant data'') []) p)) (\<lambda>ct p.
     then_do (or_zero [] (Open k ct [], p)) (\<lambda>pt p.
     let p = printf (lines [''  round-trip: %s'', '''']) [Str pt] p in
     derive_loop hkdf_New root tenants p))))"

definition hkdf_derive_key_main :: "(bytes \<Rightarrow> bytes \<Rightarrow> bytes \<Rightarrow> reader) \<Rightarrow> process \<Rightarrow> unit res \<times> process" where
  "hkdf_derive_key_main hkdf_New p =
     (let root = lit ''root-application-key-32-bytes!!!'' in
     then_do (derive_loop hkdf_New root [lit ''acme'', lit ''globex'', lit ''initech''] p) (\<lambda>_ p.
     then_do (or_zero [] (DeriveKey hkdf_New root [] (lit ''aead-v1'') (int AEADKeySize), p)) (\<lambda>aeadKey p.
     then_do (or_zero [] (DeriveKey hkdf_New root [] (lit ''mac-v1'') (int AEADKeySize), p)) (\<lambda>macKey p.
     then_do (go_slice aeadKey 0 8, p) (\<lambda>prefix p.
     let p = printf (lines ['''', ''AEAD-purpose key prefix: %x...'', '''']) [Hex prefix] p in
     then_do (go_slice macKey 0 8, p) (\<lambda>prefix p.
     let p = printf (lines [''MAC-purpose key prefix:  %x...'', '''']) [Hex prefix] p in
     then_do (or_zero [] (DeriveKey hkdf_New root (lit ''env:prod'') (lit ''aead-v1'') (int AEADKeySize), p)) (\<lambda>prodKey p.
     then_do (or_zero [] (DeriveKey hkdf_New root (lit ''env:dev'') (lit ''aead-v1'') (int AEADKeySize), p)) (\<lambda>devKey p.
     then_do (go_slice prodKey 0 8, p) (\<lambda>prefix p.
     let p = printf (lines ['''', ''prod aead key prefix: %x...'', '''']) [Hex prefix] p in
     then_do (go_slice devKey 0 8, p) (\<lambda>prefix p.
     let p = printf (lines [''dev  aead key prefix: %x... (independent of prod)'', '''']) [Hex prefix] p in
     returns p))))))))))"

lemma DeriveKey_prefix:
  assumes "hkdf_spec hkdf_New" and "key \<noteq> []"
  shows "DeriveKey hkdf_New key salt info 32 = Ok (take 32 (rd_data (hkdf_New key salt info)))"
  using assms by (simp add: DeriveKey_Ok_iff hkdf_spec_def)

lemma derive_loop_outcome:
  assumes "hkdf_spec hkdf_New" and "root \<noteq> []" and "12 * length tenants \<le> length (rd_data (pr_rand p))"
  shows "derive_loop hkdf_New root tenants p = (Ok (), after (12 * length tenants)
    (concat (map (\<lambda>t. [Printf (lines [''tenant %-7s key prefix (8 bytes): %x...'', ''''])
        [Str t, Hex (take 8 (rd_data (hkdf_New root [] (lit ''tenant:'' @ t))))],
      Printf (lines [''  round-trip: %s'', '''']) [Str (lit ''tenant data'')]]) tenants)) p)"
  using assms(3)
proof (induction tenants arbitrary: p)
  case (Cons t ts)
  let ?k = "take 32 (rd_data (hkdf_New root [] (lit ''tenant:'' @ t)))"
  have k: "length ?k = 32" using assms(1) by (simp add: hkdf_spec_def)
  obtain c where c: "Seal ?k (lit ''tenant data'') [] (pr_rand p) = (Ok c, skip 12 (pr_rand p))"
      "Open ?k c [] = Ok (lit ''tenant data'')"
    using Seal_obtain [OF k, of "lit ''tenant data''" 0 "pr_rand p" "[]"] Cons.prems
    by (auto simp: gcm_max_def lit_def)
  let ?q = "after 12 [Printf (lines [''tenant %-7s key prefix (8 bytes): %x...'', ''''])
        [Str t, Hex (take 8 (rd_data (hkdf_New root [] (lit ''tenant:'' @ t))))],
      Printf (lines [''  round-trip: %s'', '''']) [Str (lit ''tenant data'')]] p"
  have "12 * length ts \<le> length (rd_data (pr_rand ?q))" using Cons.prems by simp
  from Cons.IH [OF this] show ?case using k
    by (simp add: console_simps AEADKeySize_def DeriveKey_prefix [OF assms(1,2)] c go_slice_in min_def add.commute)
qed simp

lemma hkdf_derive_key_outcome:
  fixes hkdf_New
  defines "root \<equiv> lit ''root-application-key-32-bytes!!!''"
  defines "prefix \<equiv> \<lambda>salt info. Hex (take 8 (rd_data (hkdf_New root salt info)))"
  assumes spec: "hkdf_spec hkdf_New" and "36 \<le> length (rd_data (pr_rand p))"
  shows "hkdf_derive_key_main hkdf_New p = (Ok (), after 36
    (concat (map (\<lambda>t. [Printf (lines [''tenant %-7s key prefix (8 bytes): %x...'', ''''])
          [Str t, prefix [] (lit ''tenant:'' @ t)],
        Printf (lines [''  round-trip: %s'', '''']) [Str (lit ''tenant data'')]])
        [lit ''acme'', lit ''globex'', lit ''initech'']) @
     [Printf (lines ['''', ''AEAD-purpose key prefix: %x...'', '''']) [prefix [] (lit ''aead-v1'')],
      Printf (lines [''MAC-purpose key prefix:  %x...'', '''']) [prefix [] (lit ''mac-v1'')],
      Printf (lines ['''', ''prod aead key prefix: %x...'', '''']) [prefix (lit ''env:prod'') (lit ''aead-v1'')],
      Printf (lines [''dev  aead key prefix: %x... (independent of prod)'', '''']) [prefix (lit ''env:dev'') (lit ''aead-v1'')]]) p)"
proof -
  have root: "root \<noteq> []" by (simp add: root_def lit_def)
  have long: "length (rd_data (hkdf_New root salt info)) = 8160" for salt info
    using spec by (simp add: hkdf_spec_def)
  show ?thesis
    using assms(4)
    by (simp add: long hkdf_derive_key_main_def console_simps AEADKeySize_def DeriveKey_prefix [OF spec root] go_slice_in
        derive_loop_outcome [OF spec root] prefix_def del: derive_loop.simps flip: root_def)
qed

subsection \<open>\<^verbatim>\<open>tenant_keys\<close>\<close>

text \<open>A lookup in a Go map of a key that is not there gives the zero value.\<close>

definition map_get :: "('k \<rightharpoonup> 'a list) \<Rightarrow> 'k \<Rightarrow> 'a list" where
  "map_get m k = (case m k of None \<Rightarrow> [] | Some v \<Rightarrow> v)"

fun tenant_derive ::
    "(bytes \<Rightarrow> bytes \<Rightarrow> bytes \<Rightarrow> reader) \<Rightarrow> bytes \<Rightarrow> gostring list \<Rightarrow> (gostring \<rightharpoonup> bytes) \<Rightarrow> process \<Rightarrow> (gostring \<rightharpoonup> bytes) res \<times> process" where
  "tenant_derive hkdf_New rootKey [] keys p = (Ok keys, p)"
| "tenant_derive hkdf_New rootKey (t # tenants) keys p =
     then_do (deriveTenantKey hkdf_New rootKey t, p) (\<lambda>k p.
     let keys = keys(t \<mapsto> k) in
     then_do (go_slice k 0 8, p) (\<lambda>prefix p.
       tenant_derive hkdf_New rootKey tenants keys
         (printf (lines [''derived key for tenant %q (first 8 bytes): %x...'', '''']) [Str t, Hex prefix] p)))"

fun tenant_encrypt ::
    "(gostring \<rightharpoonup> bytes) \<Rightarrow> bytes \<Rightarrow> gostring list \<Rightarrow> (gostring \<rightharpoonup> gostring) \<Rightarrow> process \<Rightarrow> (gostring \<rightharpoonup> gostring) res \<times> process" where
  "tenant_encrypt keys plaintext [] enc p = (Ok enc, p)"
| "tenant_encrypt keys plaintext (t # tenants) enc p =
     then_do (draw (Seal (map_get keys t) plaintext []) p) (\<lambda>ct p.
       tenant_encrypt keys plaintext tenants (enc(t \<mapsto> ct)) p)"

fun tenant_decrypt ::
    "(gostring \<rightharpoonup> bytes) \<Rightarrow> (gostring \<rightharpoonup> gostring) \<Rightarrow> gostring list \<Rightarrow> process \<Rightarrow> unit res \<times> process" where
  "tenant_decrypt keys enc [] p = (Ok (), p)"
| "tenant_decrypt keys enc (t # tenants) p =
     then_do (Open (map_get keys t) (map_get enc t) [], p) (\<lambda>pt p.
       tenant_decrypt keys enc tenants (printf (lines [''tenant %q decrypted: %s'', '''']) [Str t, Str pt] p))"

definition tenant_keys_main :: "(bytes \<Rightarrow> bytes \<Rightarrow> bytes \<Rightarrow> reader) \<Rightarrow> process \<Rightarrow> unit res \<times> process" where
  "tenant_keys_main hkdf_New p =
     (let rootKey = lit ''root-application-key-32-bytes!!!'';
          tenants = [lit ''acme'', lit ''globex'', lit ''initech''] in
     then_do (tenant_derive hkdf_New rootKey tenants Map.empty p) (\<lambda>keys p.
     let plaintext = lit ''tenant-private-data'' in
     then_do (tenant_encrypt keys plaintext tenants Map.empty p) (\<lambda>enc p.
     then_do (tenant_decrypt keys enc tenants p) (\<lambda>_ p.
     check (Open (map_get keys (lit ''acme'')) (map_get enc (lit ''globex'')) []) quiet
       (\<lambda>err. printf (lines ['''', ''cross-tenant decrypt blocked: %v'', '''']) [Error (Some err)]) p))))"

definition tenant_key :: "(bytes \<Rightarrow> bytes \<Rightarrow> bytes \<Rightarrow> reader) \<Rightarrow> bytes \<Rightarrow> gostring \<Rightarrow> bytes" where
  "tenant_key hkdf_New rootKey t = take 32 (rd_data (hkdf_New rootKey [] (lit ''tenant:'' @ t)))"

lemma length_tenant_key: "hkdf_spec hkdf_New \<Longrightarrow> length (tenant_key hkdf_New rootKey t) = 32"
  by (simp add: tenant_key_def hkdf_spec_def)

lemma tenant_derive_outcome:
  assumes "hkdf_spec hkdf_New"
  shows "tenant_derive hkdf_New rootKey tenants keys p =
    (Ok (\<lambda>t. if t \<in> set tenants then Some (tenant_key hkdf_New rootKey t) else keys t),
     p\<lparr>pr_out := pr_out p @ map (\<lambda>t. Printf (lines [''derived key for tenant %q (first 8 bytes): %x...'', ''''])
       [Str t, Hex (take 8 (tenant_key hkdf_New rootKey t))]) tenants\<rparr>)"
proof (induction tenants arbitrary: keys p)
  case (Cons t ts)
  have "deriveTenantKey hkdf_New rootKey t = Ok (tenant_key hkdf_New rootKey t)"
    using assms by (simp add: deriveTenantKey_def tenant_key_def hkdf_spec_def AEADKeySize_def ReadFull_enough)
  with Cons.IH length_tenant_key [OF assms] show ?case
    by (auto simp: console_simps go_slice_in fun_eq_iff)
qed simp

lemma tenant_encrypt_outcome:
  assumes "\<forall>t \<in> set tenants. length (map_get keys t) = 32" and "length pt \<le> gcm_max"
    and "12 * length tenants \<le> length (rd_data (pr_rand p))"
  shows "\<exists>enc'. tenant_encrypt keys pt tenants enc p = (Ok enc', p\<lparr>pr_rand := skip (12 * length tenants) (pr_rand p)\<rparr>) \<and>
    (\<forall>t \<in> set tenants. Open (map_get keys t) (map_get enc' t) [] = Ok pt) \<and>
    (\<forall>t. t \<notin> set tenants \<longrightarrow> enc' t = enc t)"
  using assms
proof (induction tenants arbitrary: enc p)
  case (Cons t ts)
  obtain c where c: "Seal (map_get keys t) pt [] (pr_rand p) = (Ok c, skip 12 (pr_rand p))"
      "Open (map_get keys t) c [] = Ok pt"
    using Seal_obtain [of "map_get keys t" pt 0 "pr_rand p" "[]"] Cons.prems by auto
  have tl: "\<forall>t \<in> set ts. length (map_get keys t) = 32" using Cons.prems(1) by simp
  have r: "12 * length ts \<le> length (rd_data (pr_rand (p\<lparr>pr_rand := skip 12 (pr_rand p)\<rparr>)))" using Cons.prems(3) by simp
  obtain enc' where enc': "tenant_encrypt keys pt ts (enc(t \<mapsto> c)) (p\<lparr>pr_rand := skip 12 (pr_rand p)\<rparr>) =
        (Ok enc', p\<lparr>pr_rand := skip (12 * length ts) (pr_rand p\<lparr>rd_data := drop 12 (rd_data (pr_rand p))\<rparr>)\<rparr>)"
      "\<forall>t \<in> set ts. Open (map_get keys t) (map_get enc' t) [] = Ok pt"
      "\<forall>t'. t' \<notin> set ts \<longrightarrow> enc' t' = (enc(t \<mapsto> c)) t'"
    using Cons.IH [OF tl Cons.prems(2) r, of "enc(t \<mapsto> c)"] by (auto simp del: fun_upd_apply)
  have "Open (map_get keys t) (map_get enc' t) [] = Ok pt"
    using enc'(2,3) c(2) by (cases "t \<in> set ts") (auto simp: map_get_def)
  with c enc' show ?case by (intro exI [of _ enc']) (auto simp: console_simps add.commute)
qed simp

lemma tenant_decrypt_outcome:
  "\<forall>t \<in> set tenants. Open (map_get keys t) (map_get enc t) [] = Ok pt \<Longrightarrow>
     tenant_decrypt keys enc tenants p = (Ok (), p\<lparr>pr_out := pr_out p @
       map (\<lambda>t. Printf (lines [''tenant %q decrypted: %s'', '''']) [Str t, Str pt]) tenants\<rparr>)"
  by (induction tenants arbitrary: p) (simp_all add: console_simps)

text \<open>Every tenant reads its own data; whether another tenant's key opens it decides the last line.\<close>

lemma tenant_keys_outcome:
  fixes hkdf_New
  defines "key \<equiv> tenant_key hkdf_New (lit ''root-application-key-32-bytes!!!'')"
    and "tenants \<equiv> [lit ''acme'', lit ''globex'', lit ''initech'']"
  assumes spec: "hkdf_spec hkdf_New" and rnd: "36 \<le> length (rd_data (pr_rand p))"
  shows "\<exists>c. Open (key (lit ''globex'')) c [] = Ok (lit ''tenant-private-data'') \<and>
    tenant_keys_main hkdf_New p = (Ok (), after 36
      (map (\<lambda>t. Printf (lines [''derived key for tenant %q (first 8 bytes): %x...'', '''']) [Str t, Hex (take 8 (key t))]) tenants @
       map (\<lambda>t. Printf (lines [''tenant %q decrypted: %s'', '''']) [Str t, Str (lit ''tenant-private-data'')]) tenants @
       (let r = Open (key (lit ''acme'')) c [] in
        if is_ok r then [] else [Printf (lines ['''', ''cross-tenant decrypt blocked: %v'', '''']) [Error (error_of r)]])) p)"
proof -
  let ?pt = "lit ''tenant-private-data''"
  define keys where "keys = (\<lambda>t. if t \<in> set tenants then Some (key t) else None)"
  have get: "map_get keys t = key t" if "t \<in> set tenants" for t using that by (simp add: map_get_def keys_def)
  let ?out = "map (\<lambda>t. Printf (lines [''derived key for tenant %q (first 8 bytes): %x...'', '''']) [Str t, Hex (take 8 (key t))]) tenants"
  have d: "tenant_derive hkdf_New (lit ''root-application-key-32-bytes!!!'') tenants Map.empty p =
      (Ok keys, p\<lparr>pr_out := pr_out p @ ?out\<rparr>)"
    by (simp add: tenant_derive_outcome [OF spec] keys_def key_def cong: if_cong)
  have len: "\<forall>t \<in> set tenants. length (map_get keys t) = 32" "length ?pt \<le> gcm_max"
    "12 * length tenants \<le> length (rd_data (pr_rand (p\<lparr>pr_out := pr_out p @ ?out\<rparr>)))"
    using rnd by (simp_all add: get length_tenant_key [OF spec] key_def) (simp_all add: gcm_max_def lit_def tenants_def)
  obtain enc where e: "tenant_encrypt keys ?pt tenants Map.empty (p\<lparr>pr_out := pr_out p @ ?out\<rparr>) = (Ok enc, after 36 ?out p)"
      "\<forall>t \<in> set tenants. Open (map_get keys t) (map_get enc t) [] = Ok ?pt"
    using tenant_encrypt_outcome [OF len, of Map.empty] by (auto simp: tenants_def)
  have mem: "lit ''acme'' \<in> set tenants" "lit ''globex'' \<in> set tenants" by (simp_all add: tenants_def)
  show ?thesis
    using e(2) mem Open_no_panic [of "key (lit ''acme'')" "map_get enc (lit ''globex'')" "[]"]
    by (intro exI [of _ "map_get enc (lit ''globex'')"])
      (simp add: tenant_keys_main_def Let_def d e(1) tenant_decrypt_outcome [OF e(2)] get check_failed printf_def
        del: check.simps flip: tenants_def)
qed

subsection \<open>\<^verbatim>\<open>random_token\<close>\<close>

definition random_token_main :: "process \<Rightarrow> unit res \<times> process" where
  "random_token_main p =
     then_do (draw (RandomToken 32) p) (\<lambda>apiKey p.
     let p = printf (lines [''API key:        %s  (%d chars)'', '''']) [Str apiKey, Num (int (length apiKey))] p in
     then_do (or_zero [] (draw (RandomToken 16) p)) (\<lambda>magicToken p.
     let p = printf (lines [''magic token:    %s  (%d chars)'', '''']) [Str magicToken, Num (int (length magicToken))] p in
     then_do (or_zero [] (draw (RandomToken 24) p)) (\<lambda>csrf p.
     let p = printf (lines [''CSRF token:     %s  (%d chars)'', '''']) [Str csrf, Num (int (length csrf))] p in
     then_do (or_zero [] (draw (RandomHex 8) p)) (\<lambda>logID p.
     let p = printf (lines [''log id:         %s  (%d chars)'', '''']) [Str logID, Num (int (length logID))] p in
     then_do (or_zero [] (draw (RandomBytes (int AEADKeySize)) p)) (\<lambda>keyBytes p.
     then_do (go_slice keyBytes 0 8, p) (\<lambda>prefix p.
     let p = printf (lines [''AEAD key bytes: %d bytes (hex: %x)'', '''']) [Num (int (length keyBytes)), Hex prefix] p in
     returns p))))))"

lemma RandomToken_bytes:
  "0 < n \<Longrightarrow> nat n \<le> length (rd_data rnd) \<Longrightarrow>
     RandomToken n rnd = (Ok (RawURLEncoding_EncodeToString (take (nat n) (rd_data rnd))), skip (nat n) rnd)"
  "0 < n \<Longrightarrow> nat n \<le> length (rd_data rnd) \<Longrightarrow>
     RandomHex n rnd = (Ok (hex_EncodeToString (take (nat n) (rd_data rnd))), skip (nat n) rnd)"
  "0 < n \<Longrightarrow> nat n \<le> length (rd_data rnd) \<Longrightarrow> RandomBytes n rnd = (Ok (take (nat n) (rd_data rnd)), skip (nat n) rnd)"
  by (simp_all add: RandomToken_def RandomHex_def RandomBytes_def read_rand_enough)

lemma random_token_outcome:
  assumes "112 \<le> length (rd_data (pr_rand p))"
  defines "part \<equiv> \<lambda>n k. take k (drop n (rd_data (pr_rand p)))"
  shows "random_token_main p = (Ok (), after 112
    [Printf (lines [''API key:        %s  (%d chars)'', '''']) [Str (RawURLEncoding_EncodeToString (part 0 32)), Num 43],
     Printf (lines [''magic token:    %s  (%d chars)'', '''']) [Str (RawURLEncoding_EncodeToString (part 32 16)), Num 22],
     Printf (lines [''CSRF token:     %s  (%d chars)'', '''']) [Str (RawURLEncoding_EncodeToString (part 48 24)), Num 32],
     Printf (lines [''log id:         %s  (%d chars)'', '''']) [Str (hex_EncodeToString (part 72 8)), Num 16],
     Printf (lines [''AEAD key bytes: %d bytes (hex: %x)'', '''']) [Num 32, Hex (part 80 8)]] p)"
  using assms(1)
  by (simp add: random_token_main_def console_simps RandomToken_bytes draw_def length_url_encode AEADKeySize_def go_slice_in
      part_def min_def)

end
