(* ===== verification/DemoSigning.thy ===== *)
theory DemoSigning
  imports Console Sign Ed25519 Asymmetric AuditLog Webhook
begin

text \<open>
  The example programs that sign, verify and box: the mains of \<^verbatim>\<open>sign_webhook\<close>, \<^verbatim>\<open>ed25519_sign\<close>,
  \<^verbatim>\<open>asymmetric_encrypt\<close>, \<^verbatim>\<open>audit_log_chain\<close> and \<^verbatim>\<open>webhook_with_timestamp\<close> (all under \<^verbatim>\<open>src/examples\<close>).
\<close>

subsection \<open>Padded base64\<close>

text \<open>
  \<^verbatim>\<open>base64.StdEncoding\<close>: the text is filled up to a multiple of four with \<open>=\<close>, which the decoder requires.
\<close>

definition StdEncoding_EncodeToString :: "bytes \<Rightarrow> gostring" where
  "StdEncoding_EncodeToString bs =
     (let t = RawStdEncoding_EncodeToString bs in t @ replicate ((4 - length t mod 4) mod 4) 61)"

definition StdEncoding_DecodeString :: "gostring \<Rightarrow> bytes option" where
  "StdEncoding_DecodeString s =
     (let t = b64_skip s; d = takeWhile (\<lambda>c. c \<noteq> 61) t; pad = dropWhile (\<lambda>c. c \<noteq> 61) t in
      if length t mod 4 = 0 \<and> length pad \<le> 2 \<and> list_all (\<lambda>c. c = 61) pad then RawStdEncoding_DecodeString d else None)"

lemma std_text_chars: "c \<in> set (RawStdEncoding_EncodeToString bs) \<Longrightarrow> c \<in> set std_alphabet"
proof -
  assume "c \<in> set (RawStdEncoding_EncodeToString bs)"
  then obtain s where "s \<in> set (b64_split bs)" "c = std_alphabet ! unat s"
    by (auto simp: RawStdEncoding_EncodeToString_def b64_encode_def)
  with b64_split_sextets [of s bs] show ?thesis by (simp add: alphabet_wf)
qed

text \<open>The number of characters of a text, by the number of bytes left over from groups of three.\<close>

lemma std_text_length:
  obtains q r where "length bs = 3 * q + r"
    and "(r, length (RawStdEncoding_EncodeToString bs)) \<in> {(0, 4 * q), (1, 4 * q + 2), (2, 4 * q + 3)}"
proof -
  have len: "length (RawStdEncoding_EncodeToString bs) = (length bs * 4 + 2) div 3"
    by (simp add: RawStdEncoding_EncodeToString_def length_b64_encode)
  have "x = 3 * q \<Longrightarrow> (x * 4 + 2) div 3 = 4 * q" "x = 3 * q + 1 \<Longrightarrow> (x * 4 + 2) div 3 = 4 * q + 2"
    "x = 3 * q + 2 \<Longrightarrow> (x * 4 + 2) div 3 = 4 * q + 3" for x q :: nat by presburger+
  note this [of "length bs" "length bs div 3"]
  moreover have "length bs = 3 * (length bs div 3) \<or> length bs = 3 * (length bs div 3) + 1 \<or>
      length bs = 3 * (length bs div 3) + 2" by presburger
  ultimately show thesis
    using that [of "length bs div 3" 0] that [of "length bs div 3" 1] that [of "length bs div 3" 2] len by auto
qed

lemma StdEncoding_padding:
  "\<exists>n. StdEncoding_EncodeToString bs = RawStdEncoding_EncodeToString bs @ replicate n 61 \<and> n \<le> 2 \<and>
     length (RawStdEncoding_EncodeToString bs) + n = 4 * ((length bs + 2) div 3)"
proof -
  obtain q r where q: "length bs = 3 * q + r"
      "(r, length (RawStdEncoding_EncodeToString bs)) \<in> {(0, 4 * q), (1, 4 * q + 2), (2, 4 * q + 3)}"
    by (rule std_text_length)
  have "Suc (Suc (4 * q)) mod 4 = 2" "(4 * q + 3) mod 4 = 3" by presburger+
  with q show ?thesis by (auto simp: StdEncoding_EncodeToString_def Let_def)
qed

interpretation b64padded: text_codec StdEncoding_EncodeToString StdEncoding_DecodeString
proof unfold_locales
  fix bs
  let ?t = "RawStdEncoding_EncodeToString bs"
  obtain n where n: "StdEncoding_EncodeToString bs = ?t @ replicate n 61" "n \<le> 2"
      "length ?t + n = 4 * ((length bs + 2) div 3)"
    using StdEncoding_padding by blast
  have "c \<noteq> 61 \<and> c \<noteq> 10 \<and> c \<noteq> 13" if "c \<in> set ?t" for c
    using std_text_chars [OF that] by (auto simp: std_alphabet_def lit_def)
  then have parts: "takeWhile (\<lambda>c. c \<noteq> 61) (?t @ replicate n 61) = ?t" "dropWhile (\<lambda>c. c \<noteq> 61) (?t @ replicate n 61) = replicate n 61"
      "b64_skip (?t @ replicate n 61) = ?t @ replicate n 61"
    by (auto simp: takeWhile_append dropWhile_append b64_skip_def filter_id_conv)
  show "StdEncoding_DecodeString (StdEncoding_EncodeToString bs) = Some bs"
    using n(2,3) by (simp add: n(1) StdEncoding_DecodeString_def Let_def parts list_all_iff)
qed

lemma length_StdEncoding [simp]: "length (StdEncoding_EncodeToString bs) = 4 * ((length bs + 2) div 3)"
  using StdEncoding_padding [of bs] by auto



subsection \<open>\<^verbatim>\<open>sign_webhook\<close>\<close>

definition flip_byte :: "nat \<Rightarrow> byte \<Rightarrow> bytes \<Rightarrow> bytes res" where
  "flip_byte i m b = (if i < length b then Ok (b[i := b ! i XOR m]) else Panic)"

text \<open>
  \<^verbatim>\<open>DecodeString\<close> returns the bytes before an error as well; the model keeps none, which makes no difference for the
  text this main decodes.
\<close>

definition sign_webhook_main :: "process \<Rightarrow> unit res \<times> process" where
  "sign_webhook_main p =
     (let secret = lit ''partner-webhook-secret'';
          body = lit ''{\"event\":\"order.created\",\"data\":{\"id\":\"ord_42\",\"amount\":99.50}}'';
          mac = Sign secret body;
          signature = StdEncoding_EncodeToString mac;
          p = println [Str (lit ''--- outgoing request ---'')] p;
          p = printf (lines [''X-Signature-Algorithm: hmac-sha256'', '''']) [] p;
          p = printf (lines [''X-Signature: %s'', '''']) [Str signature] p;
          p = printf (lines [''Body: %s'', '''', '''']) [Str body] p;
          receivedBody = body in
     then_do (or_zero [] (of_option (Msg ''illegal base64 data at input byte %d'') (StdEncoding_DecodeString signature), p)) (\<lambda>receivedSig p.
     let p = (if Verify secret receivedBody receivedSig
              then println [Str (lit (dashed ''verified '' '' process event''))] p
              else println [Str (lit (dashed ''rejected '' '' return 401''))] p) in
     then_do (flip_byte 10 0x01 body, p) (\<lambda>tamperedBody p.
     let p = (if \<not> Verify secret tamperedBody receivedSig
              then println [Str (lit (lines ['''', dashed ''tampered body rejected '' '' would return 401'']))] p else p);
         p = (if \<not> Verify (lit ''wrong-secret'') receivedBody receivedSig
              then println [Str (lit (dashed ''wrong secret rejected '' '' would return 401''))] p else p) in
     returns p)))"

text \<open>
  The genuine body verifies; the two rejections are printed unless the tag collides with that of the flipped
  body or the other secret.
\<close>

lemma sign_webhook_outcome:
  fixes p :: process
  defines "secret \<equiv> lit ''partner-webhook-secret''"
    and "body \<equiv> lit ''{\"event\":\"order.created\",\"data\":{\"id\":\"ord_42\",\"amount\":99.50}}''"
  shows "sign_webhook_main p = (Ok (), p\<lparr>pr_out := pr_out p @
    [Println [Str (lit ''--- outgoing request ---'')],
     Printf (lines [''X-Signature-Algorithm: hmac-sha256'', '''']) [],
     Printf (lines [''X-Signature: %s'', '''']) [Str (StdEncoding_EncodeToString (Sign secret body))],
     Printf (lines [''Body: %s'', '''', '''']) [Str body],
     Println [Str (lit (dashed ''verified '' '' process event''))]] @
    (if Sign secret body = Sign secret (body[10 := body ! 10 XOR 0x01]) then []
     else [Println [Str (lit (lines ['''', dashed ''tampered body rejected '' '' would return 401'']))]]) @
    (if Sign secret body = Sign (lit ''wrong-secret'') body then []
     else [Println [Str (lit (dashed ''wrong secret rejected '' '' would return 401''))]])\<rparr>)"
proof -
  have "10 < length body" by (simp add: body_def lit_def)
  then show ?thesis
    by (simp add: sign_webhook_main_def flip_byte_def console_simps Verify_iff flip: secret_def body_def)
qed

subsection \<open>\<^verbatim>\<open>ed25519_sign\<close>\<close>

definition ed25519_sign_main :: "ed25519_scheme \<Rightarrow> process \<Rightarrow> unit res \<times> process" where
  "ed25519_sign_main S p =
     then_do (draw (GenerateEd25519 S) p) (\<lambda>(pub, priv) p.
     let p = printf (lines [''public key  (publish freely): %s'', '''']) [Str (StdEncoding_EncodeToString pub)] p in
     then_do (go_slice (StdEncoding_EncodeToString priv) 0 24, p) (\<lambda>prefix p.
     let p = printf (lines [''private key (keep secret):    %s'', '''', '''']) [Str (prefix @ lit ''...'')] p;
         body = lit ''{\"event\":\"order.created\",\"id\":\"ord_42\"}'' in
     then_do (SignEd25519 S priv body, p) (\<lambda>sig p.
     let p = printf (lines [''--- outgoing webhook ---'', '''']) [] p;
         p = printf (lines [''X-Signature-Algorithm: ed25519'', '''']) [] p;
         p = printf (lines [''X-Signature: %s'', '''']) [Str (StdEncoding_EncodeToString sig)] p;
         p = printf (lines [''Body: %s'', '''', '''']) [Str body] p in
     then_do (VerifyEd25519 S pub body sig, p) (\<lambda>ok p.
     let p = printf (lines [''verified: %v'', '''']) [Flag ok] p;
         tampered = lit ''{\"event\":\"order.created\",\"id\":\"ord_99\"}'' in
     then_do (or_zero False (VerifyEd25519 S pub tampered sig, p)) (\<lambda>ok p.
     let p = printf (lines [''verify tampered body: %v'', '''']) [Flag ok] p in
     then_do (or_zero ([], []) (draw (GenerateEd25519 S) p)) (\<lambda>(otherPub, _) p.
     then_do (or_zero False (VerifyEd25519 S otherPub body sig, p)) (\<lambda>ok p.
     let p = printf (lines [''verify wrong public key: %v'', '''']) [Flag ok] p in
     returns p)))))))"

lemma ed25519_sign_outcome:
  fixes p :: process
  defines "body \<equiv> lit ''{\"event\":\"order.created\",\"id\":\"ord_42\"}''"
  assumes spec: "ed25519_spec S" and g: "ed_GenerateKey S (pr_rand p) = (Ok (pub, priv), rnd)"
    and g': "ed_GenerateKey S rnd = (Ok (otherPub, otherPriv), rnd')"
  shows "ed25519_sign_main S p = (Ok (), p\<lparr>pr_rand := rnd', pr_out := pr_out p @
    [Printf (lines [''public key  (publish freely): %s'', '''']) [Str (StdEncoding_EncodeToString pub)],
     Printf (lines [''private key (keep secret):    %s'', '''', ''''])
       [Str (take 24 (StdEncoding_EncodeToString priv) @ lit ''...'')],
     Printf (lines [''--- outgoing webhook ---'', '''']) [],
     Printf (lines [''X-Signature-Algorithm: ed25519'', '''']) [],
     Printf (lines [''X-Signature: %s'', '''']) [Str (StdEncoding_EncodeToString (ed_Sign S priv body))],
     Printf (lines [''Body: %s'', '''', '''']) [Str body],
     Printf (lines [''verified: %v'', '''']) [Flag True],
     Printf (lines [''verify tampered body: %v'', ''''])
       [Flag (ed_Verify S pub (lit ''{\"event\":\"order.created\",\"id\":\"ord_99\"}'') (ed_Sign S priv body))],
     Printf (lines [''verify wrong public key: %v'', '''']) [Flag (ed_Verify S otherPub body (ed_Sign S priv body))]]\<rparr>)"
proof -
  have sizes: "length pub = 32" "length priv = 64" "length otherPub = 32" "length (ed_Sign S priv body) = 64"
    "ed_Verify S pub body (ed_Sign S priv body)"
    using spec g g' unfolding ed25519_spec_def by blast+
  have "GenerateEd25519 S (pr_rand p) = (Ok (pub, priv), rnd)" "GenerateEd25519 S rnd = (Ok (otherPub, otherPriv), rnd')"
    using g g' by (simp_all add: GenerateEd25519_Ok)
  with sizes show ?thesis
    by (simp add: ed25519_sign_main_def console_simps SignEd25519_def VerifyEd25519_def Ed25519PublicKeySize_def
        Ed25519PrivateKeySize_def Ed25519SignatureSize_def go_slice_in flip: body_def)
qed

subsection \<open>\<^verbatim>\<open>asymmetric_encrypt\<close>\<close>

definition asymmetric_encrypt_main ::
    "x25519 \<Rightarrow> bytes \<Rightarrow> (bytes \<Rightarrow> AEAD res) \<Rightarrow> ed25519_scheme \<Rightarrow> process \<Rightarrow> unit res \<times> process" where
  "asymmetric_encrypt_main X25519 Basepoint chacha_New S p =
     then_do (draw (GenerateKeyPair X25519 Basepoint) p) (\<lambda>(recipientPub, recipientPriv) p.
     let p = printf (lines [''recipient public key (publish):  %s'', ''''])
               [Str (StdEncoding_EncodeToString recipientPub)] p in
     then_do (go_slice (StdEncoding_EncodeToString recipientPriv) 0 24, p) (\<lambda>prefix p.
     let p = printf (lines [''recipient private key (keep):    %s'', '''', '''']) [Str (prefix @ lit ''...'')] p;
         plaintext = lit ''only the recipient can read this'' in
     then_do (draw (SealAsymmetric X25519 Basepoint chacha_New recipientPub plaintext) p) (\<lambda>ct p.
     let p = printf (lines [''ciphertext (anyone can produce, only recipient can open):'', ''  %s'', '''', '''']) [Str ct] p in
     then_do (OpenAsymmetric X25519 chacha_New recipientPriv ct, p) (\<lambda>pt p.
     let p = printf (lines [''decrypted by recipient: %s'', '''']) [Str pt] p in
     then_do (or_zero ([], []) (draw (GenerateKeyPair X25519 Basepoint) p)) (\<lambda>(_, otherPriv) p.
     then_do (outcome [] (OpenAsymmetric X25519 chacha_New otherPriv ct, p)) (\<lambda>(_, err) p.
     let p = (if err_Is err ErrTampered
              then printf (lines ['''', ''wrong recipient: %v (correctly rejected)'', '''']) [Error err] p else p) in
     then_do (or_zero ([], []) (draw (GenerateEd25519 S) p)) (\<lambda>(senderPub, senderPriv) p.
     then_do (or_zero [] (SignEd25519 S senderPriv plaintext, p)) (\<lambda>sig p.
     let signed = sig @ plaintext in
     then_do (or_zero [] (draw (SealAsymmetric X25519 Basepoint chacha_New recipientPub signed) p)) (\<lambda>signedCT p.
     then_do (or_zero [] (OpenAsymmetric X25519 chacha_New recipientPriv signedCT, p)) (\<lambda>openedSigned p.
     then_do (go_slice openedSigned 0 Ed25519SignatureSize, p) (\<lambda>gotSig p.
     then_do (go_slice_from openedSigned Ed25519SignatureSize, p) (\<lambda>gotMsg p.
     then_do (or_zero False (VerifyEd25519 S senderPub gotMsg gotSig, p)) (\<lambda>ok p.
     let p = printf (lines ['''', ''signed + encrypted message:'', ''  authenticated sender: %v'', ''  message: %s'', ''''])
               [Flag ok, Str gotMsg] p in
     returns p)))))))))))))"

text \<open>
  Sign-then-encrypt works: the recipient gets the message back and the sender is authenticated, whatever the
  scheme's first key pair, as long as the two ephemeral exchanges succeed. The other recipient's attempt is
  reported unless it opens the box or fails before the cipher.
\<close>

lemma asymmetric_encrypt_outcome:
  fixes p :: process and X25519 :: x25519
  defines "priv \<equiv> take 32 (rd_data (pr_rand p))" and "other \<equiv> take 32 (drop 76 (rd_data (pr_rand p)))"
    and "pt \<equiv> lit ''only the recipient can read this''"
  assumes new: "aead_new mk (\<lambda>k. length k = 32) maxlen chacha_New" and x: "x25519_spec X25519 Basepoint"
    and ed: "ed25519_spec S" and max: "96 \<le> maxlen" and rnd: "108 \<le> length (rd_data (pr_rand p))"
    and pub: "X25519 priv Basepoint = Ok pub"
    and e1: "is_ok (X25519 (take 32 (drop 32 (rd_data (pr_rand p)))) pub)"
    and g: "ed_GenerateKey S (skip 108 (pr_rand p)) = (Ok (senderPub, senderPriv), rnd2)"
    and r2: "44 \<le> length (rd_data rnd2)" and e2: "is_ok (X25519 (take 32 (rd_data rnd2)) pub)"
  shows "\<exists>c. SealAsymmetric X25519 Basepoint chacha_New pub pt (skip 32 (pr_rand p)) = (Ok c, skip 76 (pr_rand p)) \<and>
    asymmetric_encrypt_main X25519 Basepoint chacha_New S p = (Ok (), p\<lparr>pr_rand := skip 44 rnd2, pr_out := pr_out p @
      [Printf (lines [''recipient public key (publish):  %s'', '''']) [Str (StdEncoding_EncodeToString pub)],
       Printf (lines [''recipient private key (keep):    %s'', '''', ''''])
         [Str (take 24 (StdEncoding_EncodeToString priv) @ lit ''...'')],
       Printf (lines [''ciphertext (anyone can produce, only recipient can open):'', ''  %s'', '''', '''']) [Str c],
       Printf (lines [''decrypted by recipient: %s'', '''']) [Str pt]] @
      (let r = OpenAsymmetric X25519 chacha_New other c in
       if err_is r ErrTampered
       then [Printf (lines ['''', ''wrong recipient: %v (correctly rejected)'', '''']) [Error (error_of r)]] else []) @
      [Printf (lines ['''', ''signed + encrypted message:'', ''  authenticated sender: %v'', ''  message: %s'', ''''])
         [Flag True, Str pt]]\<rparr>)"
proof -
  have len: "length priv = 32" "length other = 32" using rnd by (simp_all add: priv_def other_def)
  have pt: "length pt = 32" by (simp add: pt_def lit_def)
  have gen: "GenerateKeyPair X25519 Basepoint (pr_rand p) = (Ok (pub, priv), skip 32 (pr_rand p))"
    using rnd pub by (simp add: GenerateKeyPair_def X25519KeySize_def read_rand_enough priv_def)
  obtain otherPub where "X25519 other Basepoint = Ok otherPub"
    using x len(2) unfolding x25519_spec_def is_ok_iff by blast
  then have gen': "GenerateKeyPair X25519 Basepoint (skip 76 (pr_rand p)) = (Ok (otherPub, other), skip 108 (pr_rand p))"
    using rnd by (simp add: GenerateKeyPair_def X25519KeySize_def read_rand_enough other_def add.commute)
  obtain c where c: "SealAsymmetric X25519 Basepoint chacha_New pub pt (skip 32 (pr_rand p)) = (Ok c, skip 76 (pr_rand p))"
      "OpenAsymmetric X25519 chacha_New priv c = Ok pt"
  proof -
    have "44 \<le> length (rd_data (skip 32 (pr_rand p)))" "length pt \<le> maxlen" using rnd pt max by simp_all
    moreover have "is_ok (X25519 (take 32 (rd_data (skip 32 (pr_rand p)))) pub)" using e1 by simp
    ultimately have "\<exists>c. SealAsymmetric X25519 Basepoint chacha_New pub pt (skip 32 (pr_rand p)) =
        (Ok c, skip 44 (pr_rand p\<lparr>rd_data := drop 32 (rd_data (pr_rand p))\<rparr>)) \<and> OpenAsymmetric X25519 chacha_New priv c = Ok pt"
      using asymmetric_Seal_Open [OF new x len(1) pub] by blast
    then show thesis using that by auto
  qed
  have sizes: "length senderPub = 32" "length senderPriv = 64" "length (ed_Sign S senderPriv pt) = 64"
      "ed_Verify S senderPub pt (ed_Sign S senderPriv pt)"
    using ed g unfolding ed25519_spec_def by blast+
  have gs: "GenerateEd25519 S (skip 108 (pr_rand p)) = (Ok (senderPub, senderPriv), rnd2)"
    using g by (simp add: GenerateEd25519_Ok)
  obtain c' where c': "SealAsymmetric X25519 Basepoint chacha_New pub (ed_Sign S senderPriv pt @ pt) rnd2 = (Ok c', skip 44 rnd2)"
      "OpenAsymmetric X25519 chacha_New priv c' = Ok (ed_Sign S senderPriv pt @ pt)"
  proof -
    have "length (ed_Sign S senderPriv pt @ pt) \<le> maxlen" using pt max sizes(3) by simp
    from asymmetric_Seal_Open [OF new x len(1) pub r2 this e2] that show thesis by blast
  qed
  have np: "OpenAsymmetric X25519 chacha_New other c \<noteq> Panic"
    using aead_new.OpenAsymmetric_no_panic [OF new _ x] by simp
  have "asymmetric_encrypt_main X25519 Basepoint chacha_New S p = (Ok (), p\<lparr>pr_rand := skip 44 rnd2, pr_out := pr_out p @
      [Printf (lines [''recipient public key (publish):  %s'', '''']) [Str (StdEncoding_EncodeToString pub)],
       Printf (lines [''recipient private key (keep):    %s'', '''', ''''])
         [Str (take 24 (StdEncoding_EncodeToString priv) @ lit ''...'')],
       Printf (lines [''ciphertext (anyone can produce, only recipient can open):'', ''  %s'', '''', '''']) [Str c],
       Printf (lines [''decrypted by recipient: %s'', '''']) [Str pt]] @
      (let r = OpenAsymmetric X25519 chacha_New other c in
       if err_is r ErrTampered
       then [Printf (lines ['''', ''wrong recipient: %v (correctly rejected)'', '''']) [Error (error_of r)]] else []) @
      [Printf (lines ['''', ''signed + encrypted message:'', ''  authenticated sender: %v'', ''  message: %s'', ''''])
         [Flag True, Str pt]]\<rparr>)"
    using np len sizes pt
    by (cases "OpenAsymmetric X25519 chacha_New other c")
      (simp_all add: asymmetric_encrypt_main_def console_simps gen gen' gs c c' SignEd25519_def VerifyEd25519_def
        Ed25519PrivateKeySize_def Ed25519PublicKeySize_def Ed25519SignatureSize_def go_slice_in go_slice_from_in
        flip: pt_def)
  with c(1) show ?thesis by blast
qed

subsection \<open>\<^verbatim>\<open>audit_log_chain\<close>\<close>

text \<open>
  \<open>now\<close> gives the readings of the clock in order; \<open>local\<close> is \<^verbatim>\<open>Format(time.RFC3339)\<close> in the process's time zone.
\<close>

fun print_entries :: "(int \<Rightarrow> gostring) \<Rightarrow> nat \<Rightarrow> AuditEntry list \<Rightarrow> process \<Rightarrow> unit res \<times> process" where
  "print_entries local i [] p = (Ok (), p)"
| "print_entries local i (e # es) p =
     then_do (go_slice (ae_MAC e) 0 8, p) (\<lambda>mac p.
       print_entries local (i + 1) es
         (printf (lines [''  [%d] %s %s %s %s  mac=%s'', ''''])
           [Num (int i), Str (local (ae_Timestamp e)), Str (ae_Actor e), Str (ae_Action e), Str (ae_Resource e),
            Str (hex_EncodeToString mac)] p))"

definition audit_log_main :: "(nat \<Rightarrow> int) \<Rightarrow> (int \<Rightarrow> gostring) \<Rightarrow> process \<Rightarrow> unit res \<times> process" where
  "audit_log_main now local p =
     (let secret = lit ''audit-log-secret-32-bytes-please'';
          logger = NewAuditLog secret;
          logger = AuditLog_Append (now 0) logger (lit ''usr_42'') (lit ''login'') (lit ''/auth'');
          logger = AuditLog_Append (now 1) logger (lit ''usr_42'') (lit ''view'') (lit ''/billing'');
          logger = AuditLog_Append (now 2) logger (lit ''usr_admin'') (lit ''delete'') (lit ''/users/usr_99'');
          bad = AuditLog_Verify logger in
      if bad \<noteq> - 1 then (Err (Msg ''chain broken at entry %d''), p)
      else
        let p = println [Str (lit ''chain valid (3 entries)'')] p in
        then_do (print_entries local 0 (al_entries logger) p) (\<lambda>_ p.
        let p = println [Str (lit (lines ['''', ''--- attacker rewrites entry 1 ---'']))] p in
        then_do (go_index (al_entries logger) 1, p) (\<lambda>e p.
        let logger = logger\<lparr>al_entries := (al_entries logger)[1 := e\<lparr>ae_Action := lit ''purchase''\<rparr>]\<rparr>;
            bad = AuditLog_Verify logger in
        returns (if bad \<noteq> - 1
          then printf (lines [''chain broken at entry %d (as expected)'', '''']) [Num bad] p
          else println [Str (lit (dashed ''chain still valid '' '' should not happen''))] p))))"

lemma print_entries_outcome:
  "list_all (\<lambda>e. 8 \<le> length (ae_MAC e)) es \<Longrightarrow>
     print_entries local i es p = (Ok (), p\<lparr>pr_out := pr_out p @
       map (\<lambda>(j, e). Printf (lines [''  [%d] %s %s %s %s  mac=%s'', ''''])
         [Num (int j), Str (local (ae_Timestamp e)), Str (ae_Actor e), Str (ae_Action e), Str (ae_Resource e),
          Str (hex_EncodeToString (take 8 (ae_MAC e)))]) (enumerate i es)\<rparr>)"
  by (induction es arbitrary: i p) (simp_all add: console_simps go_slice_in)

text \<open>
  The rewritten entry is the one reported, unless its new payload has the tag of the old one: the entry after it
  only depends on its tag.
\<close>

lemma audit_log_outcome:
  fixes now :: "nat \<Rightarrow> int"
  defines "secret \<equiv> lit ''audit-log-secret-32-bytes-please''"
    and "logger \<equiv> AuditLog_Append (now 2) (AuditLog_Append (now 1) (AuditLog_Append (now 0)
      (NewAuditLog (lit ''audit-log-secret-32-bytes-please'')) (lit ''usr_42'') (lit ''login'') (lit ''/auth''))
      (lit ''usr_42'') (lit ''view'') (lit ''/billing'')) (lit ''usr_admin'') (lit ''delete'') (lit ''/users/usr_99'')"
  shows "\<exists>e0 e1 e2. al_entries logger = [e0, e1, e2] \<and> AuditLog_Verify logger = - 1 \<and>
    audit_log_main now local p = (Ok (), p\<lparr>pr_out := pr_out p @
      [Println [Str (lit ''chain valid (3 entries)'')]] @
      map (\<lambda>(j, e). Printf (lines [''  [%d] %s %s %s %s  mac=%s'', ''''])
         [Num (int j), Str (local (ae_Timestamp e)), Str (ae_Actor e), Str (ae_Action e), Str (ae_Resource e),
          Str (hex_EncodeToString (take 8 (ae_MAC e)))]) (enumerate 0 [e0, e1, e2]) @
      [Println [Str (lit (lines ['''', ''--- attacker rewrites entry 1 ---'']))],
       (if Sign secret (ae_MAC e0 @ payload (e1\<lparr>ae_Action := lit ''purchase''\<rparr>)) = ae_MAC e1
        then Println [Str (lit (dashed ''chain still valid '' '' should not happen''))]
        else Printf (lines [''chain broken at entry %d (as expected)'', '''']) [Num 1])]\<rparr>)"
proof -
  have valid: "AuditLog_Verify logger = - 1"
    unfolding logger_def by (intro AuditLog_Verify_Append) (simp add: AuditLog_Verify_def NewAuditLog_def)
  obtain e0 e1 e2 where es: "al_entries logger = [e0, e1, e2]" "al_secret logger = secret"
      "ae_MAC e0 = Sign secret (payload e0)" "ae_MAC e1 = Sign secret (ae_MAC e0 @ payload e1)"
      "ae_MAC e2 = Sign secret (ae_MAC e1 @ payload e2)"
    by (simp add: logger_def secret_def AuditLog_Append_def NewAuditLog_def Let_def payload_def)
  have tampered: "AuditLog_Verify (logger\<lparr>al_entries := [e0, e1\<lparr>ae_Action := lit ''purchase''\<rparr>, e2]\<rparr>) =
      (if Sign secret (ae_MAC e0 @ payload (e1\<lparr>ae_Action := lit ''purchase''\<rparr>)) = ae_MAC e1 then - 1 else 1)"
    by (auto simp: AuditLog_Verify_def es(2-5) Verify_iff Let_def)
  have "list_all (\<lambda>e. 8 \<le> length (ae_MAC e)) [e0, e1, e2]" by (simp add: es(3-5))
  with valid tampered show ?thesis
    unfolding audit_log_main_def Let_def logger_def [symmetric]
    by (rule_tac x = e0 in exI, rule_tac x = e1 in exI, rule_tac x = e2 in exI)
      (simp add: console_simps es(1,2) print_entries_outcome go_index_in del: print_entries.simps)
qed

subsection \<open>\<^verbatim>\<open>webhook_with_timestamp\<close>\<close>

definition webhook_main :: "int \<Rightarrow> process \<Rightarrow> unit res \<times> process" where
  "webhook_main now p =
     (let secret = lit ''partner-webhook-secret'';
          body = lit ''{\"event\":\"order.created\",\"id\":\"ord_42\"}'';
          header = SignWebhook secret body now;
          p = printf (lines [''--- outgoing ---'', ''X-Signature: %s'', ''Body: %s'', '''', '''']) [Str header, Str body] p in
     then_do (check (VerifyWebhook secret body header (now + 10 ^ 9) (5 * 60 * 10 ^ 9))
       (\<lambda>_. printf (lines [''verify within window: ok'', '''']) [])
       (\<lambda>err. printf (lines [''verify within window: %v'', '''']) [Error (Some err)]) p) (\<lambda>_ p.
     then_do (check (VerifyWebhook secret body header (now + 10 * 60 * 10 ^ 9) (5 * 60 * 10 ^ 9)) quiet
       (\<lambda>err. printf (lines [''replay 10m later: %v'', '''']) [Error (Some err)]) p) (\<lambda>_ p.
     then_do (check (VerifyWebhook (lit ''wrong'') body header now (5 * 60 * 10 ^ 9)) quiet
       (\<lambda>err. printf (lines [''wrong secret: %v'', '''']) [Error (Some err)]) p) (\<lambda>_ p.
     let tampered = lit ''{\"event\":\"order.created\",\"id\":\"ord_99\"}'' in
     check (VerifyWebhook secret tampered header now (5 * 60 * 10 ^ 9)) quiet
       (\<lambda>err. printf (lines [''tampered body: %v'', '''']) [Error (Some err)]) p))))"

text \<open>
  The delivery is accepted one second later and refused as a replay ten minutes later, the tolerance being five.
\<close>

lemma webhook_outcome:
  fixes now :: int
  defines "ts \<equiv> FormatInt (Unix now) @ lit ''.''" and "secret \<equiv> lit ''partner-webhook-secret''"
    and "body \<equiv> lit ''{\"event\":\"order.created\",\"id\":\"ord_42\"}''"
    and "tampered \<equiv> lit ''{\"event\":\"order.created\",\"id\":\"ord_99\"}''"
  assumes "0 \<le> now" and "now < 2 ^ 63"
  shows "webhook_main now p = (Ok (), p\<lparr>pr_out := pr_out p @
    [Printf (lines [''--- outgoing ---'', ''X-Signature: %s'', ''Body: %s'', '''', ''''])
       [Str (SignWebhook secret body now), Str body],
     Printf (lines [''verify within window: ok'', '''']) [],
     Printf (lines [''replay 10m later: %v'', '''']) [Error (Some replayed)]] @
    (if Sign (lit ''wrong'') (ts @ body) = Sign secret (ts @ body) then []
     else [Printf (lines [''wrong secret: %v'', '''']) [Error (Some (Msg ''signature mismatch''))]]) @
    (if Sign secret (ts @ tampered) = Sign secret (ts @ body) then []
     else [Printf (lines [''tampered body: %v'', '''']) [Error (Some (Msg ''signature mismatch''))]])\<rparr>)"
proof -
  have u: "- (2 ^ 63) \<le> Unix now" "Unix now < 2 ^ 63" using Unix_bounds [OF assms(5)] assms(6) by linarith+
  have later: "Unix (now + 1000000000) - Unix now = 1" "Unix (now + 600000000000) - Unix now = 600"
    by (simp_all add: Unix_def)
  have v: "VerifyWebhook s b (SignWebhook secret body now) t tol =
      (if tol < \<bar>Unix t - Unix now\<bar> * 10 ^ 9 then Err replayed
       else if Sign s (ts @ b) = Sign secret (ts @ body) then Ok () else Err (Msg ''signature mismatch''))"
    if "\<bar>Unix t - Unix now\<bar> \<le> 600" for s b t tol
    using VerifyWebhook_outcome [OF u, of t s b secret body tol] that by (simp add: ts_def)
  have first: "VerifyWebhook secret body (SignWebhook secret body now) (now + 10 ^ 9) (5 * 60 * 10 ^ 9) = Ok ()"
    by (subst v) (simp_all add: later)
  have replay: "VerifyWebhook secret body (SignWebhook secret body now) (now + 10 * 60 * 10 ^ 9) (5 * 60 * 10 ^ 9) =
      Err replayed"
    by (subst v) (simp_all add: later)
  have last: "VerifyWebhook s b (SignWebhook secret body now) now (5 * 60 * 10 ^ 9) =
      (if Sign s (ts @ b) = Sign secret (ts @ body) then Ok () else Err (Msg ''signature mismatch''))" for s b
    by (subst v) simp_all
  show ?thesis
    unfolding webhook_main_def Let_def secret_def [symmetric] body_def [symmetric] tampered_def [symmetric] first replay last
    by (simp add: console_simps)
qed

end
