(* ===== verification/DemoTokens.thy ===== *)
theory DemoTokens
  imports DemoSealing Sessions
begin

text \<open>
  The example programs with expiring tokens: the mains of \<^verbatim>\<open>time_locked_token\<close>, \<^verbatim>\<open>magic_link\<close>, \<^verbatim>\<open>csrf_token\<close> and
  \<^verbatim>\<open>session_token\<close> (all under \<^verbatim>\<open>src/examples\<close>). \<open>now i\<close> is the \<open>i\<close>-th reading of the clock.
\<close>

text \<open>A run of a main: the clock does not go back, and the run takes less than a minute.\<close>

definition clock_run :: "(nat \<Rightarrow> int) \<Rightarrow> bool" where
  "clock_run now \<longleftrightarrow> 2 * 60 * 60 * 10 ^ 9 \<le> now 0 \<and> now 0 < 2 ^ 62 \<and>
     (\<forall>i. now 0 \<le> now i \<and> now i < now 0 + 60 * 10 ^ 9)"

lemma clock_run_bounds:
  assumes "clock_run now"
  shows "7200000000000 \<le> now i" and "now i < 2 ^ 62 + 60000000000"
    and "now i < now j + 60000000000"
proof -
  have all: "now 0 \<le> now k" "now k < now 0 + 60000000000" for k using assms by (simp_all add: clock_run_def)
  have base: "7200000000000 \<le> now 0" "now 0 < 2 ^ 62" using assms by (simp_all add: clock_run_def)
  show "7200000000000 \<le> now i" "now i < 2 ^ 62 + 60000000000" "now i < now j + 60000000000"
    using base all [of i] all [of j] by simp_all
qed

lemma Unix_less: "x + 10 ^ 9 \<le> y \<Longrightarrow> Unix x < Unix y"
  using zdiv_mono1 [of "x + 10 ^ 9" y "10 ^ 9"] by (simp add: Unix_def)

lemma Unix_mono: "x \<le> y \<Longrightarrow> Unix x \<le> Unix y"
  by (simp add: Unix_def zdiv_mono1)

subsection \<open>\<^verbatim>\<open>time_locked_token\<close>\<close>

definition purposePasswordReset :: gostring where
  "purposePasswordReset = lit ''pwreset-v1''"

definition purposeEmailVerify :: gostring where
  "purposeEmailVerify = lit ''email-verify-v1''"

definition resetTokenTTL :: int where
  "resetTokenTTL = 60 * 60 * 10 ^ 9"

definition time_locked_token_main :: "(nat \<Rightarrow> int) \<Rightarrow> process \<Rightarrow> unit res \<times> process" where
  "time_locked_token_main now p =
     (let key = lit ''01234567890123456789012345678901'' in
     then_do (draw (IssueToken (now 0) key (lit ''user_id=usr_42'') resetTokenTTL purposePasswordReset) p) (\<lambda>tok p.
     let url = lit ''https://app.example.com/reset?t='' @ tok;
         p = printf (lines [''emailed link:'', ''  %s'', '''', '''']) [Str url] p in
     then_do (fatalf ''verify failed: %v'' (VerifyToken (now 1) key tok purposePasswordReset, p)) (\<lambda>payload p.
     let p = printf (lines [''token valid, payload: %s'', '''']) [Str payload] p in
     then_do (check (VerifyToken (now 2) key tok purposeEmailVerify) quiet
       (\<lambda>err. printf (lines ['''', ''cross-purpose replay: %v (rejected)'', '''']) [Error (Some err)]) p) (\<lambda>_ p.
     let expiredPayload = packExpiryBytes (now 3) (- (60 * 60 * 10 ^ 9)) @ lit ''stale'' in
     then_do (or_zero [] (draw (Seal key expiredPayload purposePasswordReset) p)) (\<lambda>expired p.
     then_do (outcome [] (VerifyToken (now 4) key expired purposePasswordReset, p)) (\<lambda>(_, err) p.
     returns (if err_Is err ErrExpired
       then printf (lines ['''', ''expired token: %v (rejected)'', '''']) [Error err] p else p)))))))"

lemma packExpiryBytes_stale:
  assumes "0 \<le> now + offset" and "now + offset \<le> later" and "now + offset < 2 ^ 63"
    and "Open key c aad = Ok (packExpiryBytes now offset @ payload)"
  shows "VerifyToken later key c aad = Err ErrExpired"
proof -
  have "sint (word_of_int (Unix (now + offset)) :: 64 word) = Unix (now + offset)"
    using Unix_bounds [OF assms(1)] assms(3) by (intro sint_expiry) linarith+
  moreover have "Unix (now + offset) \<le> Unix later" by (rule Unix_mono [OF assms(2)])
  ultimately show ?thesis using assms(4) by (simp add: packExpiryBytes_eq VerifyToken_sealed)
qed

lemma time_locked_token_outcome:
  assumes rnd: "24 \<le> length (rd_data (pr_rand p))" and run: "clock_run now"
  shows "\<exists>c. IssueToken (now 0) appKey (lit ''user_id=usr_42'') resetTokenTTL purposePasswordReset (pr_rand p) =
      (Ok c, skip 12 (pr_rand p)) \<and>
    time_locked_token_main now p = (Ok (), after 24
      ([Printf (lines [''emailed link:'', ''  %s'', '''', '''']) [Str (lit ''https://app.example.com/reset?t='' @ c)],
        Printf (lines [''token valid, payload: %s'', '''']) [Str (lit ''user_id=usr_42'')]] @
       (let r = VerifyToken (now 2) appKey c purposeEmailVerify in
        if is_ok r then [] else [Printf (lines ['''', ''cross-purpose replay: %v (rejected)'', '''']) [Error (error_of r)]]) @
       [Printf (lines ['''', ''expired token: %v (rejected)'', '''']) [Error (Some ErrExpired)]]) p)"
proof -
  have r: "12 \<le> length (rd_data (pr_rand p))" using rnd by simp
  have ttl: "resetTokenTTL = 3600000000000" by (simp add: resetTokenTTL_def)
  obtain c where c: "IssueToken (now 0) appKey (lit ''user_id=usr_42'') resetTokenTTL purposePasswordReset (pr_rand p) =
        (Ok c, skip 12 (pr_rand p))"
      "Open appKey c purposePasswordReset = Ok (PutUint64 (word_of_int (Unix (now 0 + resetTokenTTL))) @ lit ''user_id=usr_42'')"
    using IssueToken_returns [OF length_appKey _ r, of "lit ''user_id=usr_42''" resetTokenTTL "now 0" purposePasswordReset]
    by (auto simp: gcm_max_def lit_def ttl)
  have "sint (word_of_int (Unix (now 0 + resetTokenTTL)) :: 64 word) = Unix (now 0 + resetTokenTTL)"
    using Unix_bounds [of "now 0 + resetTokenTTL"] clock_run_bounds [OF run, of 0] by (intro sint_expiry) (auto simp: ttl)
  moreover have "Unix (now 1) < Unix (now 0 + resetTokenTTL)"
    using clock_run_bounds(3) [OF run, of 1 0] by (intro Unix_less) (simp add: ttl)
  ultimately have v: "VerifyToken (now 1) appKey c purposePasswordReset = Ok (lit ''user_id=usr_42'')"
    by (simp add: VerifyToken_sealed [OF c(2)])
  let ?stale = "packExpiryBytes (now 3) (- 3600000000000) @ lit ''stale''"
  obtain c' where c': "Seal appKey ?stale purposePasswordReset (skip 12 (pr_rand p)) = (Ok c', skip 24 (pr_rand p))"
      "Open appKey c' purposePasswordReset = Ok ?stale"
    using Seal_obtain [OF length_appKey, of ?stale 12 "pr_rand p" purposePasswordReset] rnd
    by (auto simp: gcm_max_def lit_def packExpiryBytes_eq)
  have x: "VerifyToken (now 4) appKey c' purposePasswordReset = Err ErrExpired"
    by (rule packExpiryBytes_stale [OF _ _ _ c'(2)])
      (use clock_run_bounds(1,2) [OF run, of 3] clock_run_bounds(3) [OF run, of 3 4] in simp_all)
  show ?thesis
    using c v c' x VerifyToken_no_panic [of "now 2" appKey c purposeEmailVerify]
    by (intro exI [of _ c])
      (simp add: time_locked_token_main_def console_simps check_failed del: check.simps flip: appKey_def)
qed

subsection \<open>\<^verbatim>\<open>magic_link\<close>\<close>

definition magic_link_main :: "(nat \<Rightarrow> int) \<Rightarrow> process \<Rightarrow> unit res \<times> process" where
  "magic_link_main now p =
     (let key = lit ''01234567890123456789012345678901'' in
     then_do (NewSealer key, p) (\<lambda>sealer p.
     then_do (draw (issueLink (now 0) sealer (lit ''usr_42'') purposePasswordReset resetTokenTTL) p) (\<lambda>token p.
     let url = lit ''https://app.example.com/reset?t='' @ token;
         p = printf (lines [''emailed link:'', ''  %s'', '''', '''']) [Str url] p in
     then_do (fatalf ''link verify failed: %v'' (verifyLink (now 1) sealer token purposePasswordReset, p)) (\<lambda>uid p.
     let p = printf (lines [''link valid for user: %s'', '''']) [Str uid] p in
     then_do (check (verifyLink (now 2) sealer token purposeEmailVerify) quiet
       (\<lambda>err. printf (lines [''cross-purpose replay: %v'', '''']) [Error (Some err)]) p) (\<lambda>_ p.
     then_do (or_zero [] (draw (issueLink (now 3) sealer (lit ''usr_99'') purposePasswordReset (- (60 * 60 * 10 ^ 9))) p)) (\<lambda>expired p.
     check (verifyLink (now 4) sealer expired purposePasswordReset) quiet
       (\<lambda>err. printf (lines [''expired token: %v'', '''']) [Error (Some err)]) p))))))"

lemma Sealer_Open_no_panic: "length key = 32 \<Longrightarrow> Sealer_Open \<lparr>sealer_gcm = aes_gcm key\<rparr> s a \<noteq> Panic"
  by (simp add: Sealer_Open_eq Open_no_panic)

lemma verifyLink_no_panic: "length key = 32 \<Longrightarrow> verifyLink now \<lparr>sealer_gcm = aes_gcm key\<rparr> c purpose \<noteq> Panic"
  by (auto simp: verifyLink_def and_then_eq_Panic or_err_eq_Panic of_option_eq Sealer_Open_no_panic)

lemma VerifyCSRF_no_panic: "length key = 32 \<Longrightarrow> VerifyCSRF now \<lparr>sealer_gcm = aes_gcm key\<rparr> c session \<noteq> Panic"
  by (auto simp: VerifyCSRF_def and_then_eq_Panic or_err_eq_Panic of_option_eq Sealer_Open_no_panic)

lemma OpenSession_no_panic: "length key = 32 \<Longrightarrow> OpenSession now \<lparr>sealer_gcm = aes_gcm key\<rparr> c \<noteq> Panic"
  by (auto simp: OpenSession_def and_then_eq_Panic or_err_eq_Panic of_option_eq Sealer_Open_no_panic Let_def)

lemma length_FormatInt_int64:
  assumes "- (2 ^ 63) \<le> i" and "i < 2 ^ 63"
  shows "length (FormatInt i) \<le> 20"
proof -
  have dec: "length (decimal n) \<le> Suc k" if "n < 10 ^ Suc k" for n k
    using that
  proof (induction k arbitrary: n)
    case (Suc k)
    have "n div 10 < 10 ^ Suc k" using Suc.prems by (simp add: less_mult_imp_div_less mult.commute)
    with Suc.IH [of "n div 10"] show ?case by (subst decimal.simps) simp
  qed (simp add: decimal.simps)
  have "nat i < 10 ^ Suc 18" "nat (- i) < 10 ^ Suc 18" using assms by auto
  from dec [OF this(1)] dec [OF this(2)] show ?thesis by (simp add: FormatInt_def lit_def)
qed

lemma length_marshal_stamped:
  assumes "- (2 ^ 63) \<le> t" and "t < 2 ^ 63"
  shows "length (marshal_stamped a b \<lparr>st_ID = u, st_Time = t\<rparr>) \<le> 6 * length u + 60"
  using length_json_quote [of u] length_json_quote [of "[a]"] length_json_quote [of "[b]"] length_FormatInt_int64 [OF assms]
  by (simp add: marshal_stamped_def json_field_def)

lemma magic_link_outcome:
  assumes rnd: "24 \<le> length (rd_data (pr_rand p))" and run: "clock_run now"
  defines "sealer \<equiv> \<lparr>sealer_gcm = aes_gcm appKey\<rparr>"
  shows "\<exists>c. issueLink (now 0) sealer (lit ''usr_42'') purposePasswordReset resetTokenTTL (pr_rand p) =
      (Ok c, skip 12 (pr_rand p)) \<and>
    magic_link_main now p = (Ok (), after 24
      ([Printf (lines [''emailed link:'', ''  %s'', '''', '''']) [Str (lit ''https://app.example.com/reset?t='' @ c)],
        Printf (lines [''link valid for user: %s'', '''']) [Str (lit ''usr_42'')]] @
       (let r = verifyLink (now 2) sealer c purposeEmailVerify in
        if is_ok r then [] else [Printf (lines [''cross-purpose replay: %v'', '''']) [Error (error_of r)]]) @
       [Printf (lines [''expired token: %v'', '''']) [Error (Some (Msg ''token expired''))]]) p)"
proof -
  have s: "NewSealer appKey = Ok sealer" by (simp add: sealer_def app_sealer(1))
  have ttl: "resetTokenTTL = 3600000000000" by (simp add: resetTokenTTL_def)
  have usr: "ToValidUTF8 (lit ''usr_42'') = lit ''usr_42''" by (simp add: lit_def ToValidUTF8_ascii)
  have doc: "length (marshal_stamped 117 101 \<lparr>st_ID = lit u, st_Time = Unix t\<rparr>) \<le> gcm_max"
    if "0 \<le> t" "t < 2 ^ 63" "length u = 6" for u t
    using length_marshal_stamped [of "Unix t" 117 101 "lit u"] Unix_int64 [OF that(1,2)] that(3)
    by (simp add: gcm_max_def lit_def)
  note clock = clock_run_bounds [OF run]
  have "12 \<le> length (rd_data (pr_rand p))" using rnd by simp
  from link_lifetime [OF s this, of "now 0" resetTokenTTL "lit ''usr_42''" purposePasswordReset "now 1"]
  obtain c where c: "issueLink (now 0) sealer (lit ''usr_42'') purposePasswordReset resetTokenTTL (pr_rand p) = (Ok c, skip 12 (pr_rand p))"
      "verifyLink (now 1) sealer c purposePasswordReset = Ok (lit ''usr_42'')"
    using clock(1,2) [of 0] Unix_less [of "now 1" "now 0 + resetTokenTTL"] clock(3) [of 1 0] doc [of "now 0 + resetTokenTTL"]
    by (auto simp: ttl usr)
  have "12 \<le> length (rd_data (skip 12 (pr_rand p)))" using rnd by simp
  from link_lifetime [OF s this, of "now 3" "- 3600000000000" "lit ''usr_99''" purposePasswordReset "now 4"]
  obtain c' where c': "issueLink (now 3) sealer (lit ''usr_99'') purposePasswordReset (- 3600000000000) (skip 12 (pr_rand p)) =
        (Ok c', skip 24 (pr_rand p))"
      "verifyLink (now 4) sealer c' purposePasswordReset = Err (Msg ''token expired'')"
    using clock(1,2) [of 3] Unix_mono [of "now 3 - 3600000000000" "now 4"] clock(3) [of 3 4] doc [of "now 3 - 3600000000000"]
    by auto
  show ?thesis
    using c c' s verifyLink_no_panic [OF length_appKey, of "now 2" c purposeEmailVerify, folded sealer_def]
    by (intro exI [of _ c])
      (simp add: magic_link_main_def console_simps check_failed del: check.simps app_sealer flip: appKey_def)
qed

subsection \<open>\<^verbatim>\<open>csrf_token\<close>\<close>

definition csrf_token_main :: "(nat \<Rightarrow> int) \<Rightarrow> process \<Rightarrow> unit res \<times> process" where
  "csrf_token_main now p =
     then_do (or_panic (NewSealer (lit ''01234567890123456789012345678901''), p)) (\<lambda>sealer p.
     let sessionID = lit ''sess_abc123'' in
     then_do (draw (IssueCSRF (now 0) sealer sessionID) p) (\<lambda>tok p.
     let p = printf (lines [''CSRF token: %s'', '''', '''']) [Str tok] p in
     then_do (check (VerifyCSRF (now 1) sealer tok sessionID)
       (\<lambda>_. printf (lines [''genuine submit: ok'', '''']) [])
       (\<lambda>err. printf (lines [''genuine submit: %v'', '''']) [Error (Some err)]) p) (\<lambda>_ p.
     then_do (check (VerifyCSRF (now 2) sealer tok (lit ''sess_attacker'')) quiet
       (\<lambda>err. printf (lines [''foreign session: %v'', '''']) [Error (Some err)]) p) (\<lambda>_ p.
     then_do (chop 2 tok, p) (\<lambda>cut p.
     check (VerifyCSRF (now 3) sealer (cut @ lit ''XX'') sessionID) quiet
       (\<lambda>err. printf (lines [''tampered token: %v'', '''']) [Error (Some err)]) p)))))"

lemma Sealer_Seal_length:
  "NewSealer key = Ok s \<Longrightarrow> Sealer_Seal s pt a rnd = (Ok c, rnd') \<Longrightarrow> 29 \<le> length c"
  using Seal_length [of key pt a rnd c rnd'] by (auto simp: NewSealer_cases Sealer_Seal_eq)

lemma csrf_token_outcome:
  assumes rnd: "12 \<le> length (rd_data (pr_rand p))" and run: "clock_run now"
  defines "sealer \<equiv> \<lparr>sealer_gcm = aes_gcm appKey\<rparr>"
  shows "\<exists>c. IssueCSRF (now 0) sealer (lit ''sess_abc123'') (pr_rand p) = (Ok c, skip 12 (pr_rand p)) \<and>
    csrf_token_main now p = (Ok (), after 12
      ([Printf (lines [''CSRF token: %s'', '''', '''']) [Str c],
        Printf (lines [''genuine submit: ok'', '''']) [],
        Printf (lines [''foreign session: %v'', '''']) [Error (Some (Msg ''csrf token does not belong to this session''))]] @
       (let r = VerifyCSRF (now 3) sealer (take (length c - 2) c @ lit ''XX'') (lit ''sess_abc123'') in
        if is_ok r then [] else [Printf (lines [''tampered token: %v'', '''']) [Error (error_of r)]])) p)"
proof -
  have s: "NewSealer appKey = Ok sealer" by (simp add: sealer_def app_sealer(1))
  have id: "ToValidUTF8 (lit ''sess_abc123'') = lit ''sess_abc123''" "lit ''sess_abc123'' \<noteq> lit ''sess_attacker''"
    by (simp_all add: lit_def ToValidUTF8_ascii)
  note clock = clock_run_bounds [OF run]
  have u: "- (2 ^ 63) \<le> Unix (now 0) \<and> Unix (now 0) < 2 ^ 63"
    using Unix_int64 [of "now 0"] clock(1,2) [of 0] by simp
  have doc: "length (marshal_stamped 115 105 \<lparr>st_ID = lit ''sess_abc123'', st_Time = Unix (now 0)\<rparr>) \<le> gcm_max"
    using length_marshal_stamped [OF conjunct1 [OF u] conjunct2 [OF u], of 115 105 "lit ''sess_abc123''"]
    by (simp add: gcm_max_def lit_def)
  have "Unix (now 1) \<le> Unix (now 0 + 60000000000)" using clock(3) [of 1 0] by (intro Unix_mono) simp
  then have age: "\<not> 900 < Unix (now 1) - Unix (now 0)" by (simp add: Unix_def)
  obtain c where c: "IssueCSRF (now 0) sealer (lit ''sess_abc123'') (pr_rand p) = (Ok c, skip 12 (pr_rand p))"
    using csrf_lifetime [OF s rnd, of "now 0" "now 1" "lit ''sess_abc123''"] doc clock(1,2) [of 0] clock(1,2) [of 1] by auto
  have v: "VerifyCSRF (now 1) sealer c (lit ''sess_abc123'') = Ok ()"
      "VerifyCSRF (now 2) sealer c (lit ''sess_attacker'') = Err (Msg ''csrf token does not belong to this session'')"
    using csrf_lifetime [OF s rnd, of "now 0" "now 1" "lit ''sess_abc123''" "lit ''sess_abc123''"]
      csrf_lifetime [OF s rnd, of "now 0" "now 2" "lit ''sess_abc123''" "lit ''sess_attacker''"]
      doc clock(1,2) [of 0] clock(1,2) [of 1] clock(1,2) [of 2] age c id by auto
  have "2 \<le> length c" using Sealer_Seal_length [OF s] c by (force simp: IssueCSRF_def Let_def)
  with c v s VerifyCSRF_no_panic [OF length_appKey, of "now 3", folded sealer_def] show ?thesis
    by (intro exI [of _ c])
      (simp add: csrf_token_main_def console_simps chop_in check_failed del: check.simps app_sealer flip: appKey_def,
       simp add: s console_simps check_failed chop_in del: app_sealer)
qed

subsection \<open>\<^verbatim>\<open>session_token\<close>\<close>

text \<open>\<open>local\<close> formats a time in the process's time zone.\<close>

definition session_token_main :: "(nat \<Rightarrow> int) \<Rightarrow> (int \<Rightarrow> gostring) \<Rightarrow> process \<Rightarrow> unit res \<times> process" where
  "session_token_main now local p =
     then_do (NewSealer (lit ''01234567890123456789012345678901''), p) (\<lambda>sealer p.
     then_do (draw (IssueSession (now 0) sealer (lit ''usr_42'') [lit ''read'', lit ''write'']) p) (\<lambda>tok p.
     let p = printf (lines [''session token (%d chars):'', ''  %s'', '''', '''']) [Num (int (length tok)), Str tok] p in
     then_do (fatalf ''open: %v'' (OpenSession (now 1) sealer tok, p)) (\<lambda>s p.
     let p = printf (lines [''opened session: user=%s scopes=%v expires=%v'', ''''])
               [Str (se_UserID s), Strs (take (snd (se_Scopes s)) (fst (se_Scopes s))),
                Str (local (se_ExpiresAt s * 10 ^ 9))] p in
     then_do (chop 3 tok, p) (\<lambda>cut p.
     let bad = cut @ lit ''XYZ'' in
     check (OpenSession (now 2) sealer bad) quiet
       (\<lambda>err. printf (lines [''tampered: %v'', '''']) [Error (Some err)]) p))))"

lemma session_token_outcome:
  assumes rnd: "12 \<le> length (rd_data (pr_rand p))" and run: "clock_run now"
  defines "sealer \<equiv> \<lparr>sealer_gcm = aes_gcm appKey\<rparr>"
  shows "\<exists>c. IssueSession (now 0) sealer (lit ''usr_42'') [lit ''read'', lit ''write''] (pr_rand p) = (Ok c, skip 12 (pr_rand p)) \<and>
    session_token_main now local p = (Ok (), after 12
      ([Printf (lines [''session token (%d chars):'', ''  %s'', '''', '''']) [Num (int (length c)), Str c],
        Printf (lines [''opened session: user=%s scopes=%v expires=%v'', ''''])
          [Str (lit ''usr_42''), Strs [lit ''read'', lit ''write''], Str (local (Unix (now 0 + sessionTTL) * 10 ^ 9))]] @
       (let r = OpenSession (now 2) sealer (take (length c - 3) c @ lit ''XYZ'') in
        if is_ok r then [] else [Printf (lines [''tampered: %v'', '''']) [Error (error_of r)]])) p)"
proof -
  let ?u = "lit ''usr_42''" and ?sc = "[lit ''read'', lit ''write'']"
  have s: "NewSealer appKey = Ok sealer" by (simp add: sealer_def app_sealer(1))
  note clock = clock_run_bounds [OF run]
  have ttl: "sessionTTL = 86400000000000" by (simp add: sessionTTL_def)
  have u: "- (2 ^ 63) \<le> Unix (now 0) \<and> Unix (now 0) < 2 ^ 63"
      "- (2 ^ 63) \<le> Unix (now 0 + sessionTTL) \<and> Unix (now 0 + sessionTTL) < 2 ^ 63"
    using clock(1,2) [of 0] by (intro Unix_int64; simp add: ttl)+
  have "length (FormatInt (Unix (now 0))) \<le> 20" "length (FormatInt (Unix (now 0 + sessionTTL))) \<le> 20"
    using u by (auto intro!: length_FormatInt_int64)
  moreover have "length (json_quote ?u) \<le> 38" "length (json_quote (lit ''read'')) \<le> 26" "length (json_quote (lit ''write'')) \<le> 32"
    using length_json_quote [of ?u] length_json_quote [of "lit ''read''"] length_json_quote [of "lit ''write''"]
    by (simp_all add: lit_def)
  moreover have "length (json_quote [117]) \<le> 8" "length (json_quote [115]) \<le> 8" "length (json_quote [105]) \<le> 8"
      "length (json_quote [101]) \<le> 8"
    using length_json_quote [of "[b]" for b] by simp_all
  ultimately have len: "length (marshal_session \<lparr>se_UserID = ?u, se_Scopes = (?sc, length ?sc),
      se_IssuedAt = Unix (now 0), se_ExpiresAt = Unix (now 0 + sessionTTL)\<rparr>) \<le> gcm_max"
    by (simp add: marshal_session_def json_field_def json_strings_def gcm_max_def)
  have valid: "ToValidUTF8 ?u = ?u" "map ToValidUTF8 ?sc = ?sc" by (simp_all add: lit_def ToValidUTF8_ascii)
  have "0 \<le> now 0" "now 0 + sessionTTL < 2 ^ 63" using clock(1,2) [of 0] by (simp_all add: ttl)
  note life = session_lifetime [OF s rnd this len, of "now 1", unfolded valid, folded Unix_def]
  have "\<not> (now 0 + 86400 * 10 ^ 9) div 10 ^ 9 \<le> now 1 div 10 ^ 9"
    using Unix_less [of "now 1" "now 0 + 86400 * 10 ^ 9"] clock(3) [of 1 0] by (simp add: Unix_def)
  moreover have "\<not> now 1 div 10 ^ 9 + 30 < now 0 div 10 ^ 9"
    using Unix_mono [of "now 0" "now 1"] run by (auto simp: Unix_def clock_run_def)
  ultimately obtain c where c: "IssueSession (now 0) sealer ?u ?sc (pr_rand p) = (Ok c, skip 12 (pr_rand p))"
      "OpenSession (now 1) sealer c = Ok \<lparr>se_UserID = ?u, se_Scopes = (?sc, length ?sc),
         se_IssuedAt = Unix (now 0), se_ExpiresAt = Unix (now 0 + sessionTTL)\<rparr>"
    using life by (auto simp: Unix_def ttl)
  have "3 \<le> length c" using Sealer_Seal_length [OF s] c(1) by (force simp: IssueSession_def Let_def)
  moreover have "OpenSession (now 2) sealer x \<noteq> Panic" for x
    unfolding sealer_def by (rule OpenSession_no_panic [OF length_appKey])
  ultimately show ?thesis using c s
    by (intro exI [of _ c])
      (simp add: session_token_main_def appKey_def [symmetric], simp add: console_simps check_failed chop_in del: app_sealer check.simps)
qed

end
