(* ===== verification/DemoHttp.thy ===== *)
theory DemoHttp
  imports DemoTokens
begin

text \<open>
  The example programs with a server: the mains of \<^verbatim>\<open>api_key_check\<close> and \<^verbatim>\<open>encrypted_cookie\<close> (under
  \<^verbatim>\<open>src/examples\<close>). A request reaches the handler and its response comes back; what \<^verbatim>\<open>net/http\<close> does in between
  is the dispatch by path and the cookie jar. A path without a handler is answered with status 404.
\<close>

subsection \<open>\<^verbatim>\<open>api_key_check\<close>\<close>

definition health_mux :: "gostring \<Rightarrow> handler" where
  "health_mux path = (\<lambda>headers.
     if path = lit ''/internal/health'' then (200, lit (lines [''ok'', '''']))
     else http_Error (lit ''404 page not found'') 404)"

definition api_key_check_main :: "process \<Rightarrow> unit res \<times> process" where
  "api_key_check_main p =
     (let expectedKey = lit ''internal-api-key-from-config'';
          srv = (\<lambda>path. requireAPIKey expectedKey (health_mux path));
          (status, body) = srv (lit ''/internal/health'') [lit ''X-API-Key'' \<mapsto> lit ''internal-api-key-from-config''];
          p = printf ''with correct key:   %d %s'' [Num (int status), Str body] p;
          (status, body) = srv (lit ''/internal/health'') [lit ''X-API-Key'' \<mapsto> lit ''wrong''];
          p = printf ''with wrong key:     %d %s'' [Num (int status), Str body] p;
          (status, body) = srv (lit ''/internal/health'') Map.empty;
          p = printf ''with missing key:   %d %s'' [Num (int status), Str body] p
      in returns p)"

lemma api_key_check_outcome:
  "api_key_check_main p = (Ok (), p\<lparr>pr_out := pr_out p @
     [Printf ''with correct key:   %d %s'' [Num 200, Str (lit (lines [''ok'', '''']))],
      Printf ''with wrong key:     %d %s'' [Num 401, Str (lit ''unauthorized'' @ [10])],
      Printf ''with missing key:   %d %s'' [Num 401, Str (lit ''unauthorized'' @ [10])]]\<rparr>)"
proof -
  have "lit ''internal-api-key-from-config'' \<noteq> []" "lit ''wrong'' \<noteq> lit ''internal-api-key-from-config''"
    by (simp_all add: lit_def)
  then show ?thesis
    by (simp add: api_key_check_main_def console_simps requireAPIKey_iff health_mux_def http_Error_def)
qed

subsection \<open>\<^verbatim>\<open>encrypted_cookie\<close>\<close>

text \<open>
  A response: status, body and the cookies it sets. \<open>text\<close> is the method \<^verbatim>\<open>Error\<close> of an error value, whose
  message the model does not keep.
\<close>

definition cookie_server ::
    "(error \<Rightarrow> gostring) \<Rightarrow> Sealer \<Rightarrow> int \<Rightarrow> gostring \<Rightarrow> (gostring \<times> gostring) list \<Rightarrow> reader \<Rightarrow>
     ((nat \<times> gostring) \<times> http_Cookie list) res \<times> reader" where
  "cookie_server text sealer now path cookies rnd =
     (if path = lit ''/login'' then
        (case setSession now sealer (lit ''usr_42'') (60 * 60 * 10 ^ 9) ([], rnd) of
           (Err err, w, rnd) \<Rightarrow> (Ok (http_Error (text err) 500, w), rnd)
         | (Panic, w, rnd) \<Rightarrow> (Panic, rnd)
         | (Ok _, w, rnd) \<Rightarrow> (Ok ((200, lit (lines [''logged in'', ''''])), w), rnd))
      else if path = lit ''/me'' then
        (case getSession now cookies sealer of
           Err err \<Rightarrow> (Ok (http_Error (text err) 401, []), rnd)
         | Panic \<Rightarrow> (Panic, rnd)
         | Ok s \<Rightarrow> (Ok ((200, lit ''you are '' @ st_ID s @ [10]), []), rnd))
      else (Ok (http_Error (lit ''404 page not found'') 404, []), rnd))"

text \<open>The jar sends a cookie back until its expiry, which travels in whole seconds.\<close>

definition jar_cookies :: "int \<Rightarrow> http_Cookie list \<Rightarrow> (gostring \<times> gostring) list" where
  "jar_cookies now jar =
     map (\<lambda>ck. (ck_Name ck, ck_Value ck)) (filter (\<lambda>ck. now < Unix (ck_Expires ck) * 10 ^ 9) jar)"

definition encrypted_cookie_main :: "(error \<Rightarrow> gostring) \<Rightarrow> (nat \<Rightarrow> int) \<Rightarrow> process \<Rightarrow> unit res \<times> process" where
  "encrypted_cookie_main text now p =
     then_do (NewSealer (lit ''01234567890123456789012345678901''), p) (\<lambda>sealer p.
     then_do (draw (cookie_server text sealer (now 0) (lit ''/login'') []) p) (\<lambda>((status, _), jar) p.
     let p = printf (lines [arrowed ''GET /login '' '' %d'', '''']) [Num (int status)] p in
     then_do (draw (cookie_server text sealer (now 2) (lit ''/me'') (jar_cookies (now 1) jar)) p) (\<lambda>((status, body), _) p.
     let p = printf (arrowed ''GET /me        '' '' %d %s'') [Num (int status), Str body] p in
     then_do (draw (cookie_server text sealer (now 3) (lit ''/me'') []) p) (\<lambda>((status, body), _) p.
     let p = printf (arrowed ''GET /me (none) '' '' %d %s'') [Num (int status), Str body] p in
     returns p))))"

lemma encrypted_cookie_outcome:
  assumes rnd: "12 \<le> length (rd_data (pr_rand p))" and run: "clock_run now"
  shows "encrypted_cookie_main text now p = (Ok (), after 12
    [Printf (lines [arrowed ''GET /login '' '' %d'', '''']) [Num 200],
     Printf (arrowed ''GET /me        '' '' %d %s'') [Num 200, Str (lit ''you are usr_42'' @ [10])],
     Printf (arrowed ''GET /me (none) '' '' %d %s'') [Num 401, Str (text (Msg ''no session'') @ [10])]] p)"
proof -
  define sealer where "sealer = \<lparr>sealer_gcm = aes_gcm appKey\<rparr>"
  have s: "NewSealer appKey = Ok sealer" by (simp add: sealer_def app_sealer(1))
  note clock = clock_run_bounds [OF run]
  have usr: "ToValidUTF8 (lit ''usr_42'') = lit ''usr_42''" by (simp add: lit_def ToValidUTF8_ascii)
  have b: "0 \<le> now 0 + 3600000000000" "now 0 + 3600000000000 < 2 ^ 63" using clock(1,2) [of 0] by simp_all
  have doc: "length (marshal_stamped 117 101 \<lparr>st_ID = lit ''usr_42'', st_Time = Unix (now 0 + 3600000000000)\<rparr>) \<le> gcm_max"
    using length_marshal_stamped [of "Unix (now 0 + 3600000000000)" 117 101 "lit ''usr_42''"] Unix_int64 [OF b]
    by (simp add: gcm_max_def lit_def)
  obtain ck where ck: "setSession (now 0) sealer (lit ''usr_42'') 3600000000000 ([], pr_rand p) = (Ok (), [ck], skip 12 (pr_rand p))"
      "getSession (now 2) [(ck_Name ck, ck_Value ck)] sealer =
        (if Unix (now 2) < Unix (now 0 + 3600000000000)
         then Ok \<lparr>st_ID = lit ''usr_42'', st_Time = Unix (now 0 + 3600000000000)\<rparr> else Err (Msg ''session expired''))"
    using cookie_lifetime [OF s rnd b doc, of "[]" "now 2"] usr by auto
  then have exp: "ck_Expires ck = now 0 + 3600000000000" by (auto simp: setSession_def split: prod.splits res.splits)
  have "Unix (now 2) < Unix (now 0 + 3600000000000)" using clock(3) [of 2 0] by (intro Unix_less) simp
  then have me: "getSession (now 2) [(ck_Name ck, ck_Value ck)] sealer =
      Ok \<lparr>st_ID = lit ''usr_42'', st_Time = Unix (now 0 + 3600000000000)\<rparr>" using ck(2) by simp
  have "now 1 < Unix (now 0 + 3600000000000) * 10 ^ 9" using clock(3) [of 1 0] by (simp add: Unix_def) 
  then have jar: "jar_cookies (now (Suc 0)) [ck] = [(ck_Name ck, ck_Value ck)]" by (simp add: jar_cookies_def exp)
  have none: "getSession (now 3) [] sealer = Err (Msg ''no session'')"
    by (simp add: getSession_def request_Cookie_def)
  have paths: "lit ''/me'' \<noteq> lit ''/login''" "lit ''you are '' @ lit ''usr_42'' = lit ''you are usr_42''"
    by (simp_all add: lit_def)
  show ?thesis
    using paths(1)
    by (simp add: encrypted_cookie_main_def appKey_def [symmetric])
      (simp add: s console_simps draw_def cookie_server_def ck(1) jar me none http_Error_def paths(2) [symmetric])
qed

end
