(* ===== verification/DemoLogin.thy ===== *)
theory DemoLogin
  imports Console Login
begin

text \<open>
  The mains of the two password examples, \<^verbatim>\<open>hash_password\<close> and \<^verbatim>\<open>bcrypt_migration\<close> (under \<^verbatim>\<open>src/examples\<close>). The
  first has the table of users as part of its state, the second one user record.
\<close>

subsection \<open>\<^verbatim>\<open>hash_password\<close>\<close>

record users_process = process +
  pr_users :: users

definition register_call :: "idkey \<Rightarrow> gostring \<Rightarrow> gostring \<Rightarrow> users_process \<Rightarrow> unit res \<times> users_process" where
  "register_call IDKey email password p =
     (case register IDKey email password (pr_users p, pr_rand p) of
        (r, us, rnd) \<Rightarrow> (r, p\<lparr>pr_users := us, pr_rand := rnd\<rparr>))"

text \<open>A failed registration is printed and ends the main without an error.\<close>

definition hash_password_main :: "idkey \<Rightarrow> users_process \<Rightarrow> unit res \<times> users_process" where
  "hash_password_main IDKey p =
     (case register_call IDKey (lit ''alice@example.com'') (lit ''correct horse battery staple'') p of
        (Err err, p) \<Rightarrow> returns (printf (lines [''register: %v'', '''']) [Error (Some err)] p)
      | (Panic, p) \<Rightarrow> (Panic, p)
      | (Ok _, p) \<Rightarrow>
          let p = printf (lines [''registered: alice'', '''']) [] p in
          then_do (case pr_users p (lit ''alice@example.com'') of None \<Rightarrow> Panic | Some u \<Rightarrow> Ok u, p) (\<lambda>u p.
          let p = printf (lines [''stored hash: %s'', '''', '''']) [Str (user_PasswordHash u)] p in
          then_do (check (login IDKey (lit ''alice@example.com'') (lit ''correct horse battery staple'') (pr_users p))
            (\<lambda>_. println [Str (lit ''login (right password): ok'')])
            (\<lambda>err. printf (lines [''login: %v'', '''']) [Error (Some err)]) p) (\<lambda>_ p.
          then_do (check (login IDKey (lit ''alice@example.com'') (lit ''Tr0ub4dor&3'') (pr_users p)) quiet
            (\<lambda>err. printf (lines [''login (wrong password): %v'', '''']) [Error (Some err)]) p) (\<lambda>_ p.
          check (login IDKey (lit ''bob@example.com'') (lit ''anything'') (pr_users p)) quiet
            (\<lambda>err. printf (lines [''login (unknown email): %v'', '''']) [Error (Some err)]) p))))"

text \<open>The wrong password is refused unless argon2id derives the same key from it.\<close>

lemma hash_password_outcome:
  fixes p :: users_process
  assumes spec: "argon2_spec IDKey" and rnd: "16 \<le> length (rd_data (pr_rand p))" and empty: "pr_users p = Map.empty"
  defines "salt \<equiv> take 16 (rd_data (pr_rand p))"
  shows "\<exists>h. IDKey (lit ''correct horse battery staple'') salt 2 65536 1 32 = Ok h \<and>
    hash_password_main IDKey p = (Ok (), (after 16
      ([Printf (lines [''registered: alice'', '''']) [],
        Printf (lines [''stored hash: %s'', '''', '''']) [Str (formatPHC salt h)],
        Println [Str (lit ''login (right password): ok'')]] @
       (if IDKey (lit ''Tr0ub4dor&3'') salt 2 65536 1 32 = Ok h then []
        else [Printf (lines [''login (wrong password): %v'', '''']) [Error (Some (Msg ''invalid credentials''))]]) @
       [Printf (lines [''login (unknown email): %v'', '''']) [Error (Some (Msg ''invalid credentials''))]]) p)
      \<lparr>pr_users := [lit ''alice@example.com'' \<mapsto>
        \<lparr>user_Email = lit ''alice@example.com'', user_PasswordHash = formatPHC salt h\<rparr>]\<rparr>)"
proof -
  let ?alice = "lit ''alice@example.com''"
  have "salt \<noteq> []" using rnd by (auto simp: salt_def)
  obtain h where h: "length h = 32" "IDKey (lit ''correct horse battery staple'') salt 2 65536 1 32 = Ok h"
      "HashPassword IDKey (lit ''correct horse battery staple'') (pr_rand p) = (Ok (formatPHC salt h), skip 16 (pr_rand p))"
    using HashPassword_returns [OF spec rnd] unfolding salt_def by blast
  obtain h' where h': "IDKey (lit ''Tr0ub4dor&3'') salt 2 65536 1 32 = Ok h'"
    using argon2_specD(1) [OF spec, of 2 1 "lit ''Tr0ub4dor&3''" salt 65536 32] by auto
  have bob: "lit ''bob@example.com'' \<noteq> ?alice" by (simp add: lit_def)
  note verify = VerifyPassword_formatPHC [OF \<open>salt \<noteq> []\<close> h(1), of IDKey]
  show ?thesis
    using h h' bob
    by (intro exI [of _ h])
      (simp add: hash_password_main_def register_call_def register_def login_def empty verify console_simps)
qed

subsection \<open>\<^verbatim>\<open>bcrypt_migration\<close>\<close>

text \<open>The line that \<^verbatim>\<open>loginAndRehash\<close> prints after it has replaced a bcrypt hash is part of the call here.\<close>

definition rehash_call ::
    "idkey \<Rightarrow> (bytes \<Rightarrow> bytes \<Rightarrow> error option) \<Rightarrow> fakeUser \<Rightarrow> gostring \<Rightarrow> process \<Rightarrow> (unit res \<times> fakeUser) \<times> process" where
  "rehash_call IDKey Compare u plaintext p =
     (case loginAndRehash IDKey Compare u plaintext (pr_rand p) of
        (r, u', rnd) \<Rightarrow>
          ((r, u'),
           (if is_ok r \<and> HasPrefix (user_PasswordHash u) (lit ''$2'')
            then printf (lines [''  rehashed %s from bcrypt to argon2id'', '''']) [Str (user_Email u)] (p\<lparr>pr_rand := rnd\<rparr>)
            else p\<lparr>pr_rand := rnd\<rparr>)))"

definition bcrypt_migration_main ::
    "idkey \<Rightarrow> (bytes \<Rightarrow> int \<Rightarrow> bytes res) \<Rightarrow> (bytes \<Rightarrow> bytes \<Rightarrow> error option) \<Rightarrow> process \<Rightarrow> unit res \<times> process" where
  "bcrypt_migration_main IDKey Generate Compare p =
     then_do (HashPasswordBcrypt Generate (lit ''correct-horse-battery-staple'') DefaultBcryptCost, p) (\<lambda>bcryptHash p.
     let user = \<lparr>user_Email = lit ''alice@example.com'', user_PasswordHash = bcryptHash\<rparr> in
     then_do (go_slice (user_PasswordHash user) 0 7, p) (\<lambda>prefix p.
     let p = printf (lines [''user before login: hash starts with %s'', '''', '''']) [Str prefix] p;
         ((r, user), p) = rehash_call IDKey Compare user (lit ''correct-horse-battery-staple'') p in
     then_do (r, p) (\<lambda>_ p.
     then_do (go_slice (user_PasswordHash user) 0 18, p) (\<lambda>prefix p.
     let p = printf (lines [''user after login:  hash starts with %s'', '''', '''']) [Str prefix] p;
         ((r, user), p) = rehash_call IDKey Compare user (lit ''correct-horse-battery-staple'') p in
     then_do (r, p) (\<lambda>_ p.
     let p = printf (lines [''subsequent login: argon2id verify ok'', '''']) [] p;
         ((r, user), p) = rehash_call IDKey Compare user (lit ''wrong'') p in
     check r quiet (\<lambda>err. printf (lines [''wrong password: %v'', '''']) [Error (Some err)]) p)))))"

lemma bcrypt_migration_outcome:
  fixes p :: process
  defines "salt \<equiv> take 16 (rd_data (pr_rand p))" and "pw \<equiv> lit ''correct-horse-battery-staple''"
  assumes argon: "argon2_spec IDKey" and bcrypt: "bcrypt_spec Generate Compare"
    and gen: "Generate pw 12 = Ok b" and fmt: "HasPrefix b (lit ''$2'')" "7 \<le> length b"
    and rnd: "16 \<le> length (rd_data (pr_rand p))"
  shows "bcrypt_migration_main IDKey Generate Compare p = (Ok (), after 16
    ([Printf (lines [''user before login: hash starts with %s'', '''', '''']) [Str (take 7 b)],
      Printf (lines [''  rehashed %s from bcrypt to argon2id'', '''']) [Str (lit ''alice@example.com'')],
      Printf (lines [''user after login:  hash starts with %s'', '''', '''']) [Str (lit ''$argon2id$v=19$m=6'')],
      Printf (lines [''subsequent login: argon2id verify ok'', '''']) []] @
     (if IDKey (lit ''wrong'') salt 2 65536 1 32 = IDKey pw salt 2 65536 1 32 then []
      else [Printf (lines [''wrong password: %v'', '''']) [Error (Some (Msg ''invalid credentials''))]])) p)"
proof -
  have "salt \<noteq> []" using rnd by (auto simp: salt_def)
  obtain h where h: "length h = 32" "IDKey pw salt 2 65536 1 32 = Ok h"
      "HashPassword IDKey pw (pr_rand p) = (Ok (formatPHC salt h), skip 16 (pr_rand p))"
    using HashPassword_returns [OF argon rnd] unfolding salt_def by blast
  obtain h' where h': "IDKey (lit ''wrong'') salt 2 65536 1 32 = Ok h'"
    using argon2_specD(1) [OF argon, of 2 1 "lit ''wrong''" salt 65536 32] by auto
  have len: "length pw \<le> 72" by (simp add: pw_def lit_def)
  then have hash: "HashPasswordBcrypt Generate pw 12 = Ok b" by (simp add: HashPasswordBcrypt_Ok gen)
  have verify: "VerifyPasswordBcrypt Compare pw b = Ok True"
    using bcrypt gen by (simp add: VerifyPasswordBcrypt_table bcrypt_spec_def)
  let ?u = "\<lparr>user_Email = lit ''alice@example.com'', user_PasswordHash = b\<rparr>"
  let ?v = "\<lparr>user_Email = lit ''alice@example.com'', user_PasswordHash = formatPHC salt h\<rparr>"
  have first: "loginAndRehash IDKey Compare ?u pw (pr_rand p) = (Ok (), ?v, skip 16 (pr_rand p))"
    using fmt(1) by (simp add: loginAndRehash_def verify h(3))
  have again: "loginAndRehash IDKey Compare ?v w r =
      (case IDKey w salt 2 65536 1 32 of
         Ok x \<Rightarrow> ((if x = h then Ok () else Err (Msg ''invalid credentials'')), ?v, r)
       | Err e \<Rightarrow> (Err e, ?v, r) | Panic \<Rightarrow> (Panic, ?v, r))" for w r
    by (rule login_argon2 [OF \<open>salt \<noteq> []\<close> h(1)]) simp
  have phc: "go_slice (formatPHC salt h) 0 18 = Ok (lit ''$argon2id$v=19$m=6'')"
    by (simp add: go_slice_def formatPHC_def argonAlgo_def argonVersionTag_def argonMemoryKiB_def lit_def
        decimal.simps digit_def)
  show ?thesis
    using fmt h(2) h' formatPHC_prefix(2) [of salt h]
    unfolding bcrypt_migration_main_def pw_def [symmetric]
    by (simp add: rehash_call_def DefaultBcryptCost_def hash first again phc console_simps go_slice_in)
qed

end
