(* ===== verification/DemoStream.thy ===== *)
theory DemoStream
  imports DemoSealing Streaming
begin

text \<open>
  \<^verbatim>\<open>src/examples/streaming_file/main.go\<close>: a file sealed into another file, opened into a third, and a truncated
  copy opened at the end. A nil \<^verbatim>\<open>*os.File\<close> (from an \<^verbatim>\<open>os.Open\<close> or \<^verbatim>\<open>os.Create\<close> whose error the main ignores) fails
  every read and write with \<^verbatim>\<open>os.ErrInvalid\<close>. The main returns \<open>None\<close> only if a streaming call does not return,
  which they always do.
\<close>

subsection \<open>Files as streams\<close>

definition os_ErrInvalid :: error where
  "os_ErrInvalid = Msg ''invalid argument''"

definition os_Open :: "gostring \<Rightarrow> filesystem \<Rightarrow> reader" where
  "os_Open path fs =
     (case fs_files fs path of
        None \<Rightarrow> \<lparr>rd_data = [], rd_end = os_ErrInvalid\<rparr>
      | Some data \<Rightarrow> \<lparr>rd_data = data, rd_end = EOF\<rparr>)"

text \<open>A created file starts empty; \<open>written path w fs\<close> is the file system after the writes collected in \<open>w\<close>.\<close>

definition os_Create :: "gostring \<Rightarrow> filesystem \<Rightarrow> writer" where
  "os_Create path fs =
     (case fs_err fs of
        None \<Rightarrow> \<lparr>wr_out = [], wr_left = None, wr_err = os_ErrInvalid\<rparr>
      | Some e \<Rightarrow> \<lparr>wr_out = [], wr_left = Some 0, wr_err = os_ErrInvalid\<rparr>)"

definition written :: "gostring \<Rightarrow> writer \<Rightarrow> filesystem \<Rightarrow> filesystem" where
  "written path w fs =
     (case fs_err fs of None \<Rightarrow> fs\<lparr>fs_files := (fs_files fs)(path \<mapsto> wr_out w)\<rparr> | Some e \<Rightarrow> fs)"

definition seal_file :: "bytes \<Rightarrow> gostring \<Rightarrow> gostring \<Rightarrow> file_process \<Rightarrow> (unit res \<times> file_process) option" where
  "seal_file key plainPath encPath p =
     map_option (\<lambda>((r, _, w), rnd). (r, p\<lparr>pr_fs := written encPath w (pr_fs p), pr_rand := rnd\<rparr>))
       (SealStream key (os_Open plainPath (pr_fs p)) (os_Create encPath (pr_fs p)) DefaultStreamChunkSize (pr_rand p))"

definition open_file :: "bytes \<Rightarrow> gostring \<Rightarrow> gostring \<Rightarrow> file_process \<Rightarrow> unit res \<times> file_process" where
  "open_file key encPath decPath p =
     (case OpenStream key (os_Open encPath (pr_fs p)) (os_Create decPath (pr_fs p)) of
        (r, _, w) \<Rightarrow> (r, p\<lparr>pr_fs := written decPath w (pr_fs p)\<rparr>))"

subsection \<open>The main\<close>

text \<open>\<^verbatim>\<open>rand.Read\<close> crashes the program when the source fails.\<close>

definition rand_Read :: "nat \<Rightarrow> 'z process_scheme \<Rightarrow> bytes res \<times> 'z process_scheme" where
  "rand_Read n p = or_panic (draw (read_rand (\<lambda>e. e) n) p)"

definition strings_Repeat :: "gostring \<Rightarrow> nat \<Rightarrow> gostring" where
  "strings_Repeat s n = concat (replicate n s)"

text \<open>What follows the sealing.\<close>

definition streaming_file_rest :: "bytes \<Rightarrow> gostring \<Rightarrow> bytes \<Rightarrow> gostring \<Rightarrow> gostring \<Rightarrow> file_process \<Rightarrow> unit res \<times> file_process" where
  "streaming_file_rest key tmp plaintext encPath decPath p =
     then_do (file_Size encPath (pr_fs p), p) (\<lambda>size p.
     let p = printf (lines [''ciphertext: %d bytes (%.1fx larger due to per-chunk tags)'', ''''])
               [Num (int size), Ratio size (length plaintext)] p in
     then_do (open_file key encPath decPath p) (\<lambda>_ p.
     then_do (or_zero [] (os_ReadFile decPath (pr_fs p), p)) (\<lambda>got p.
     if got \<noteq> plaintext then (Err (Msg ''plaintext mismatch''), p)
     else
       let p = printf (lines [''decrypted: %d bytes (matches original)'', '''']) [Num (int (length got))] p in
       then_do (or_zero [] (os_ReadFile encPath (pr_fs p), p)) (\<lambda>encBytes p.
       then_do (chop 100 encBytes, p) (\<lambda>truncated p.
       then_do (outcome () (fst (OpenStream key \<lparr>rd_data = truncated, rd_end = EOF\<rparr>
           \<lparr>wr_out = [], wr_left = None, wr_err = EOF\<rparr>), p)) (\<lambda>(_, err) p.
       let p = (if err_Is err ErrTruncated
                then printf (lines ['''', ''truncation detected: %v'', '''']) [Error err] p else p) in
       (Ok (), p\<lparr>pr_fs := os_RemoveAll tmp (pr_fs p)\<rparr>)))))))"

definition streaming_file_main :: "gostring res \<Rightarrow> file_process \<Rightarrow> (unit res \<times> file_process) option" where
  "streaming_file_main mkdir p =
     (case then_do (rand_Read AEADKeySize p) (\<lambda>key p. then_do (mkdir, p) (\<lambda>tmp p. (Ok (key, tmp), p))) of
        (Err e, p) \<Rightarrow> Some (Err e, p)
      | (Panic, p) \<Rightarrow> Some (Panic, p)
      | (Ok (key, tmp), p) \<Rightarrow>
          let plainPath = filepath_Join tmp (lit ''input.txt'');
              encPath = filepath_Join tmp (lit ''input.enc'');
              decPath = filepath_Join tmp (lit ''input.dec'');
              plaintext = strings_Repeat (lit (lines [''the quick brown fox jumps over the lazy dog'', ''''])) 25000;
              p = p\<lparr>pr_fs := snd (os_WriteFile plainPath plaintext (pr_fs p))\<rparr>;
              p = printf (lines [''plaintext: %d bytes'', '''']) [Num (int (length plaintext))] p
          in map_option (\<lambda>sealing. then_do sealing (\<lambda>_. streaming_file_rest key tmp plaintext encPath decPath))
               (seal_file key plainPath encPath p))"

subsection \<open>What it prints\<close>

lemma length_Repeat: "length (strings_Repeat s n) = n * length s"
  by (simp add: strings_Repeat_def length_concat sum_list_replicate)

lemma paths_differ: "filepath_Join dir a = filepath_Join dir b \<longleftrightarrow> a = b"
  by (simp add: filepath_Join_def)

lemma RemoveAll_unchanged:
  "(\<And>path. \<not> HasPrefix path (dir @ lit ''/'') \<Longrightarrow> m path = fs_files fs path) \<Longrightarrow>
     os_RemoveAll dir (fs\<lparr>fs_files := m\<rparr>) = os_RemoveAll dir fs"
  by (auto simp: os_RemoveAll_def fun_eq_iff)

lemma under_dir: "HasPrefix (filepath_Join dir name) (dir @ lit ''/'')"
  by (simp add: filepath_Join_def HasPrefix_def)

lemma open_created:
  "fs_files fs path = Some data \<Longrightarrow> os_Open path fs = \<lparr>rd_data = data, rd_end = EOF\<rparr>"
  "fs_err fs = None \<Longrightarrow> os_Create path fs = \<lparr>wr_out = [], wr_left = None, wr_err = os_ErrInvalid\<rparr>"
  "fs_err fs = None \<Longrightarrow> written path w fs = fs\<lparr>fs_files := (fs_files fs)(path \<mapsto> wr_out w)\<rparr>"
  by (simp_all add: os_Open_def os_Create_def written_def)

text \<open>A file sealed is a header and, for each chunk, 20 bytes more than the chunk; opening it restores it.\<close>

lemma seal_file_output:
  assumes "length key = 32" and "fs_files (pr_fs p) src = Some d" and "fs_err (pr_fs p) = None"
    and "8 \<le> length (rd_data (pr_rand p))"
  shows "seal_file key src dst p = Some (Ok (), p\<lparr>pr_fs := (pr_fs p)\<lparr>fs_files := (fs_files (pr_fs p))(dst \<mapsto>
      stream_out key (take 8 (rd_data (pr_rand p))) (chunks 65536 d))\<rparr>, pr_rand := skip 8 (pr_rand p)\<rparr>)"
  using SealStream_output [OF assms(1), of 65536 "os_Create dst (pr_fs p)" "os_Open src (pr_fs p)" "pr_rand p"] assms(2-)
  by (simp add: seal_file_def open_created DefaultStreamChunkSize_def)

lemma open_file_output:
  assumes "length key = 32" and "length np = 8" and "fs_err (pr_fs p) = None"
    and "fs_files (pr_fs p) src = Some (stream_out key np (chunks 65536 d))"
  shows "open_file key src dst p = (Ok (), p\<lparr>pr_fs := (pr_fs p)\<lparr>fs_files := (fs_files (pr_fs p))(dst \<mapsto> d)\<rparr>\<rparr>)"
proof -
  have "list_all (chunk_fits gcm_max) (chunks 65536 d)" using chunks_fit [of 65536 d] by simp
  from OpenStream_stream_out [OF assms(1,2) this chunks_not_Nil, of "[]"] show ?thesis
    using assms(3,4) by (simp add: open_file_def open_created)
qed

text \<open>
  The main cuts 100 bytes off the ciphertext, inside the last chunk, and looks for \<open>ErrTruncated\<close>. A cut
  there is reported as \<open>ErrInvalidCiphertext\<close>, so the line about the detection is never printed.
\<close>

lemma streaming_file_outcome:
  fixes p :: file_process
  assumes rnd: "40 \<le> length (rd_data (pr_rand p))" and fs: "fs_err (pr_fs p) = None"
  shows "streaming_file_main (Ok tmp) p = Some (Ok (), (after 40
     [Printf (lines [''plaintext: %d bytes'', '''']) [Num 1100000],
      Printf (lines [''ciphertext: %d bytes (%.1fx larger due to per-chunk tags)'', '''']) [Num 1100353, Ratio 1100353 1100000],
      Printf (lines [''decrypted: %d bytes (matches original)'', '''']) [Num 1100000]] p)
    \<lparr>pr_fs := os_RemoveAll tmp (pr_fs p)\<rparr>)"
proof -
  define pt where "pt = strings_Repeat (lit (lines [''the quick brown fox jumps over the lazy dog'', ''''])) 25000"
  define key where "key = take 32 (rd_data (pr_rand p))"
  define np where "np = take 8 (drop 32 (rd_data (pr_rand p)))"
  define ct where "ct = stream_out key np (chunks 65536 pt)"
  have len: "length pt = 1100000" by (simp add: pt_def length_Repeat lit_def lines.simps)
  have key: "length key = 32" and np: "length np = 8" using rnd by (simp_all add: key_def np_def)
  have fit: "list_all (chunk_fits gcm_max) (chunks 65536 pt)" using chunks_fit [of 65536 pt] by simp
  have ct: "length ct = 1100353"
    unfolding ct_def length_stream_out [OF key np fit] by (simp add: length_chunks len)
  have "length (last (chunks 65536 pt)) = 51424" by (simp add: length_last_chunk len)
  then have "fst (OpenStream key \<lparr>rd_data = take (length ct - 100) ct, rd_end = EOF\<rparr>
      \<lparr>wr_out = [], wr_left = None, wr_err = EOF\<rparr>) = Err (Wrap ''%w: chunk read: %v'' ErrInvalidCiphertext)"
    unfolding ct_def by (intro OpenStream_cut_last [OF key np fit]) simp_all
  then have cut: "fst (OpenStream key \<lparr>rd_data = take 1100253 ct, rd_end = EOF\<rparr>
      \<lparr>wr_out = [], wr_left = None, wr_err = EOF\<rparr>) = Err (Wrap ''%w: chunk read: %v'' ErrInvalidCiphertext)"
    by (simp add: ct)
  let ?plain = "filepath_Join tmp (lit ''input.txt'')" and ?enc = "filepath_Join tmp (lit ''input.enc'')"
    and ?dec = "filepath_Join tmp (lit ''input.dec'')"
  have differ: "?plain \<noteq> ?enc" "?enc \<noteq> ?dec" by (simp_all add: paths_differ lit_def)
  let ?fs = "\<lambda>m. (pr_fs p)\<lparr>fs_files := m\<rparr>" and ?m = "(fs_files (pr_fs p))(?plain \<mapsto> pt, ?enc \<mapsto> ct)"
  have removed: "os_RemoveAll tmp (?fs (?m(?dec \<mapsto> pt))) = os_RemoveAll tmp (pr_fs p)"
    using under_dir by (intro RemoveAll_unchanged) auto
  have cut': "chop 100 ct = Ok (take 1100253 ct)" by (simp add: chop_def ct)
  have opened: "open_file key ?enc ?dec q = (Ok (), q\<lparr>pr_fs := ?fs (?m(?dec \<mapsto> pt))\<rparr>)" if "pr_fs q = ?fs ?m" for q
    using open_file_output [OF key np, of q ?enc pt ?dec] that fs by (simp add: ct_def)
  have rest: "streaming_file_rest key tmp pt ?enc ?dec q = (Ok (), q\<lparr>pr_fs := os_RemoveAll tmp (pr_fs p), pr_out := pr_out q @
      [Printf (lines [''ciphertext: %d bytes (%.1fx larger due to per-chunk tags)'', '''']) [Num 1100353, Ratio 1100353 1100000],
       Printf (lines [''decrypted: %d bytes (matches original)'', '''']) [Num 1100000]]\<rparr>)"
    if "pr_fs q = ?fs ?m" for q
    using that differ opened
    by (simp add: streaming_file_rest_def console_simps file_Size_def os_ReadFile_def ct len cut' cut removed)
  have start: "then_do (rand_Read AEADKeySize p) (\<lambda>key p. then_do (Ok tmp, p) (\<lambda>tmp p. (Ok (key, tmp), p))) =
      (Ok (key, tmp), p\<lparr>pr_rand := skip 32 (pr_rand p)\<rparr>)"
    using rnd by (simp add: rand_Read_def AEADKeySize_def console_simps key_def)
  show ?thesis
    unfolding streaming_file_main_def start
    using rnd fs differ
    by (simp add: console_simps os_WriteFile_def seal_file_output [OF key, of _ _ pt] rest len flip: pt_def np_def ct_def)
qed

subsection \<open>Properties\<close>

text \<open>Property C40: the streaming example runs to its end: whatever the 40 random bytes, on a file system that accepts
  writes, sealing and opening return, the decrypted file is the plaintext, the ciphertext of 1100000 bytes in
  17 chunks has 1100353, and the temporary directory is gone. The cut of 100 bytes at the end does not lead
  to \<open>ErrTruncated\<close>, so the line about a detected truncation is not printed.\<close>

theorem streaming_file_demo:
  assumes "40 \<le> length (rd_data (pr_rand p))" and "fs_err (pr_fs p) = None"
  shows "streaming_file_main (Ok tmp) p = Some (Ok (),
    p\<lparr>pr_rand := (pr_rand p)\<lparr>rd_data := drop 40 (rd_data (pr_rand p))\<rparr>,
      pr_out := pr_out p @
        [Printf (lines [''plaintext: %d bytes'', '''']) [Num 1100000],
         Printf (lines [''ciphertext: %d bytes (%.1fx larger due to per-chunk tags)'', '''']) [Num 1100353, Ratio 1100353 1100000],
         Printf (lines [''decrypted: %d bytes (matches original)'', '''']) [Num 1100000]],
      pr_fs := os_RemoveAll tmp (pr_fs p)\<rparr>)"
  by (rule streaming_file_outcome [OF assms])

lemma streaming_file_demo_witness:
  "\<exists>q. streaming_file_main (Ok (lit ''/tmp/x''))
      \<lparr>pr_rand = \<lparr>rd_data = replicate 40 7, rd_end = EOF\<rparr>, pr_out = [], pr_fs = \<lparr>fs_files = Map.empty, fs_err = None\<rparr>\<rparr> =
    Some (Ok (), q) \<and> length (pr_out q) = 3 \<and> rd_data (pr_rand q) = []"
  using streaming_file_demo [of "\<lparr>pr_rand = \<lparr>rd_data = replicate 40 7, rd_end = EOF\<rparr>, pr_out = [],
      pr_fs = \<lparr>fs_files = Map.empty, fs_err = None\<rparr>\<rparr>" "lit ''/tmp/x''"] by simp

end
