(* ===== verification/Spec2Isabelle.thy ===== *)
theory Spec2Isabelle
  imports KeyRing OpenAuto AeadChaCha20 KmsLocks Fragments Sign Timelock Password Bcrypt Hkdf Ed25519 Asymmetric WireFormats
    KnownAnswers Webhook AuditLog Migration Login Usage Sessions Goroutines DemoKeys DemoSigning DemoHttp DemoLogin DemoStream
begin

text \<open>
  A verification development for the Go package \<^verbatim>\<open>github.com/ubgo/crypt\<close>: sealing and opening of byte
  strings in versioned wire formats, key rings, envelope encryption, streams, signatures, tokens and
  password hashes, with the test-vector generator and the example programs.

  Conventions. A \<^verbatim>\<open>[]byte\<close> and a \<^verbatim>\<open>string\<close> are lists of \<open>8 word\<close>. A call with result \<^verbatim>\<open>(T, error)\<close> is a
  value \<open>Ok v\<close>, \<open>Err e\<close> or \<open>Panic\<close>, so that a run-time panic (an index or slice out of range, a nil
  interface, a panic a library function documents) is an outcome of its own; what a call changes is
  passed in and returned. Errors are the sentinels of the package, with the wrapping of
  \<^verbatim>\<open>fmt.Errorf("%w")\<close> and \<^verbatim>\<open>errors.Is\<close>; the values formatted into messages are not kept. The random source
  \<^verbatim>\<open>randReader\<close> is a reader, which delivers its bytes and then fails. The clock is an argument, in
  nanoseconds since the Unix epoch. Definitions carry the names of the code, a method \<open>T.M\<close> the name
  \<open>T_M\<close>.

  What the package calls of the Go standard library.
  \<^item> \<open>Prelude\<close>: bytes, \<^verbatim>\<open>encoding/binary\<close>, shared lemmas on lists and words, and the collections
    \<open>go_simps\<close> and \<open>layout_simps\<close> with which the component proofs evaluate code and take frames apart.
  \<^item> \<open>Runtime\<close>: errors, results, indexing and slicing, readers, writers, \<^verbatim>\<open>io.ReadFull\<close>.
  \<^item> \<open>Encoding\<close>: \<^verbatim>\<open>encoding/hex\<close>, \<^verbatim>\<open>encoding/base64\<close>; the locale \<open>text_codec\<close> is what the wire formats
    rely on, interpreted on the three codecs.
  \<^item> \<open>Aes\<close>, \<open>Modes\<close>: AES, CBC, CTR, GHASH and GCM. The locale \<open>block_cipher\<close> is interpreted on AES (decryption
    inverts encryption, proved by rounds); from any block cipher the sublocale gives GCM the contract
    \<open>aead\<close> (sealing adds 16 bytes, opening accepts exactly what sealing produces and never panics),
    and \<open>aead_new\<close>, with a constructor, is interpreted on \<open>NewGCM\<close> of \<open>NewCipher\<close>.
  \<^item> \<open>Sha256\<close>: SHA-256 and HMAC. \<open>GoText\<close>: \<^verbatim>\<open>strings.Split\<close>, \<^verbatim>\<open>strings.HasPrefix\<close>, decimal output,
    \<^verbatim>\<open>strconv\<close>, \<^verbatim>\<open>fmt.Sscanf\<close>. \<open>Utf8\<close>, \<open>Json\<close>: \<^verbatim>\<open>unicode/utf8\<close>, and \<^verbatim>\<open>encoding/json\<close> as a writer, a
    parser to a document tree and the assignment of a tree to the fields of a struct; what is written is
    read back with invalid UTF-8 replaced. \<open>JsonIndent\<close>: the indented output of an encoder, which parses back to
    the same tree.

  The package.
  \<^item> \<open>Format\<close>, \<open>RandomSource\<close>: \<^verbatim>\<open>format.go\<close>, \<^verbatim>\<open>random.go\<close>.
  \<^item> \<open>Aead\<close>: \<^verbatim>\<open>aead.go\<close>. \<open>Open\<close> is reduced to the decision table \<open>open_spec\<close> (every error class with its
    order); from it the round trip, the exact set of accepted inputs, the error classes, that a \<open>Sealer\<close>
    behaves as the package functions, and which changes of the text go unnoticed because base64url ignores
    the spare bits of the last character.
  \<^item> \<open>AeadChaCha20\<close>: \<^verbatim>\<open>aead_chacha20.go\<close>, over any cipher with the contract \<open>aead_new\<close>.
  \<^item> \<open>Cbc\<close>: \<^verbatim>\<open>cbc.go\<close>. Padding for every block size, round trip, error classes, and that changes of the IV
    go undetected.
  \<^item> \<open>OpenAuto\<close>: \<^verbatim>\<open>auto.go\<close>. The detectors lose no input that its decoder would open.
  \<^item> \<open>KeyRing\<close>: \<^verbatim>\<open>keyring.go\<close>. The ring as a state machine: reachable rings by an inductive predicate, the
    invariant \<open>ring_wf\<close>, refinement of a plain map, rotation and removal, the fallback for ciphertexts
    without key id. The order in which Go iterates a map is an argument (\<open>valid_order\<close>).
  \<^item> \<open>Kms\<close>: \<^verbatim>\<open>kms.go\<close>. The Go interface \<open>KMS\<close> is a record of functions and its promises the locale \<open>kms\<close>; the
    sealer's lemmas are proved there, and the in-memory adapter \<open>StaticKMS\<close> interprets it. The stores that
    \<^verbatim>\<open>AddKey\<close> can build (\<open>kms_reachable\<close>) hold 32-byte keys only, under which its operations succeed.
  \<^item> \<open>KmsLocks\<close>: the goroutines of one \<open>StaticKMS\<close> with its \<^verbatim>\<open>sync.RWMutex\<close>, step by step. The lock excludes conflicting
    accesses to the map and deadlock, and the calls are linearizable: the other theories may take them as atomic.
  \<^item> \<open>Streaming\<close>: \<^verbatim>\<open>stream.go\<close>. Both loops over failing readers and writers, with the 32-bit chunk
    counter. \<open>stream_body\<close> is the reference encoding of a list of chunks; the sealing loop writes it and
    the opening loop accepts exactly it, from which round trip and truncation follow.
  \<^item> \<open>Fragments\<close>: the loop of \<^verbatim>\<open>io.ReadFull\<close> over a reader that delivers its data in pieces. The locale \<open>full_reader\<close> is
    what the streaming functions need of it; by its interpretations they do the same on every such reader.
  \<^item> \<open>Sign\<close>, \<open>Timelock\<close>: \<^verbatim>\<open>sign.go\<close>, \<^verbatim>\<open>timelock.go\<close>.
  \<^item> \<open>Password\<close>, \<open>Bcrypt\<close>: \<^verbatim>\<open>password.go\<close>, \<^verbatim>\<open>password_bcrypt.go\<close>. The PHC string is formatted and parsed with
    the models of the library's text functions.
  \<^item> \<open>Hkdf\<close>, \<open>Ed25519\<close>, \<open>Asymmetric\<close>: \<^verbatim>\<open>hkdf.go\<close>, \<^verbatim>\<open>ed25519.go\<close>, \<^verbatim>\<open>asymmetric.go\<close>.
  \<^item> \<open>WireFormats\<close>: the six text formats against each other. Each sealing function writes its own version byte and
    no authenticated opening function reads another format, except the fallback of the key ring. \<^verbatim>\<open>DecryptCBC\<close> and
    \<^verbatim>\<open>OpenAuto\<close> can take an AES-GCM, key ring or sealed box text for CBC if it is hexadecimal; \<open>SealedHex\<close> evaluates
    an AES-GCM text for which this happens.

  Programs on top of it.
  \<^item> \<open>GenVectors\<close>: \<^verbatim>\<open>cmd/gen-vectors/main.go\<close>; the document it prints parses back to its vectors, and the
    package accepts each of the twelve.
  \<^item> \<open>Evaluation\<close>, \<open>AnswersKeys\<close>, \<open>AnswersAead\<close>, \<open>AnswersCbc\<close>, \<open>AnswersHmac\<close>, \<open>KnownAnswers\<close>: the models of AES, GCM, CBC,
    SHA-256, HMAC and of the encoders run inside the kernel on the twelve vectors. The generator prints
    \<^verbatim>\<open>src/testdata/vectors.json\<close> byte for byte, so these models agree with the outputs of the Go library.
    \<open>Evaluation\<close> holds the rewrite rules, the \<open>Answers\<close> theories one lemma per block, product or compression.
  \<^item> \<open>Webhook\<close>, \<open>AuditLog\<close>, \<open>Migration\<close>, \<open>Login\<close>: the examples \<^verbatim>\<open>webhook_with_timestamp\<close>, \<^verbatim>\<open>audit_log_chain\<close>,
    \<^verbatim>\<open>migrate_cbc_to_gcm\<close>, \<^verbatim>\<open>bcrypt_migration\<close> and \<^verbatim>\<open>hash_password\<close>.
  \<^item> \<open>Usage\<close>: the functions of \<^verbatim>\<open>key_rotation\<close>, \<^verbatim>\<open>encrypted_file\<close>, \<^verbatim>\<open>tenant_keys\<close>, \<^verbatim>\<open>api_key_check\<close>, \<^verbatim>\<open>sealer\<close>,
    \<^verbatim>\<open>seal_with_aad\<close> and \<^verbatim>\<open>time_locked_token\<close>.
  \<^item> \<open>Sessions\<close>: \<^verbatim>\<open>session_token\<close>, \<^verbatim>\<open>magic_link\<close>, \<^verbatim>\<open>csrf_token\<close> and \<^verbatim>\<open>encrypted_cookie\<close>, which seal a JSON document with a
    time in it.
  \<^item> \<open>Console\<close>: the process a main runs in (random source and output, with a file system or a table of users
    where there is one) and the ways the mains treat an error (return it, \<^verbatim>\<open>log.Fatalf\<close>, \<^verbatim>\<open>panic\<close>, ignore it).
  \<^item> \<open>DemoSealing\<close>, \<open>DemoStream\<close>, \<open>DemoKeys\<close>, \<open>DemoSigning\<close>, \<open>DemoTokens\<close>, \<open>DemoHttp\<close>, \<open>DemoLogin\<close>: the main of every
    example, \<open>x_main\<close> for \<^verbatim>\<open>src/examples/x/main.go\<close>. For each the lemma \<open>x_outcome\<close> says how it ends and what it prints
    for every random source that is long enough: the calls of the package it composes succeed, and the
    lines about refused inputs are printed exactly when the refusal is certain or the cipher refuses.
  \<^item> \<open>Goroutines\<close>: the goroutines of \<^verbatim>\<open>sealer\<close> as a step relation over a shared process, with an invariant over all
    interleavings, a bound on the number of steps and progress until every goroutine has signalled.

  Parameters. Code outside the repository and outside the standard library is an argument of the
  definitions, and what it promises a named hypothesis with an instance that satisfies it:
  \<^verbatim>\<open>chacha20poly1305.New\<close> (\<open>aead_new\<close>), \<^verbatim>\<open>curve25519.X25519\<close> (\<open>x25519_spec\<close>: sizes, and that both sides
  compute the same secret), \<^verbatim>\<open>argon2.IDKey\<close> (\<open>argon2_spec\<close>: output length, panics for zero time or
  parallelism), \<^verbatim>\<open>bcrypt\<close> (\<open>bcrypt_spec\<close>), \<^verbatim>\<open>hkdf.New\<close> (\<open>hkdf_spec\<close>: 8160 readable bytes). The signature scheme
  of \<^verbatim>\<open>crypto/ed25519\<close> is treated in the same way (\<open>ed25519_spec\<close>).

  Bounds. \<open>gcm_max\<close> is the plaintext limit of GCM, beyond which \<^verbatim>\<open>Seal\<close> panics; stream chunks are at most
  \<open>2^30\<close> bytes, so a frame length stays below the last-chunk bit; the expiry of a token and the time
  differences of a webhook are 64-bit words, the theorems state the range in which they do not wrap.
  The sealing loop is a \<open>partial_function\<close>; that it returns is the theorem \<open>stream_calls_return\<close>,
  which the equivalence carries over to the loops of \<open>Fragments\<close>. A call on a \<open>StaticKMS\<close> takes at most six steps. The
  other loops terminate by the data left, and the JSON parser nests at most 10000 levels, as the library.

  Not modelled. The text that \<^verbatim>\<open>fmt\<close> renders from a format and its operands (a call is recorded with both); the
  header syntax of cookies and the transport of \<^verbatim>\<open>net/http\<close>; \<^verbatim>\<open>doc.go\<close>, which has no code; timing (a
  constant-time comparison is modelled by its result), the scheduler beyond the interleaving of steps, the
  \<^verbatim>\<open>context\<close> argument of the KMS calls, which the package does not read, and memory limits. Secrecy in the
  cryptographic sense is outside this model: the theorems say which inputs are accepted and what is returned.
\<close>

end
